(* ===== verification/Prelude.thy ===== *)
theory Prelude
  imports Main "HOL-Library.Sublist"
begin

text \<open>
  Shared vocabulary of the development: the Go error values as a datatype with the
  \<open>errors.As\<close> and \<open>errors.Is\<close> walks along a chain of wrapped errors, the result type of
  fallible operations, the type of operations that act on an external world, and the
  collections of rewrite rules the component theories fill.
\<close>

named_theorems go_simps \<open>evaluation rules for the modelled parts of the Go library\<close>
named_theorems mgr_simps \<open>effect of each session-manager operation on each field\<close>
named_theorems inv_intros \<open>preservation of the session-manager invariant\<close>

section \<open>Errors and results\<close>

text \<open>
  An error value of the program.  \<open>ErrMsg\<close> is \<open>errors.New\<close> or \<open>fmt.Errorf\<close> without
  \<open>%w\<close>; \<open>ErrWrap\<close> is \<open>fmt.Errorf\<close> with \<open>%w\<close> (its text is the part in front of the
  wrapped error); \<open>ErrStatus\<close> is an error that has a method \<open>Status()\<close> with that code
  (the Kubernetes API errors); \<open>ErrOp\<close> is a \<open>*net.OpError\<close> with its \<open>Op\<close> and the error
  it unwraps to; \<open>ErrExt\<close> is any other error an external package returns.
\<close>

datatype err =
    ErrMsg string
  | ErrWrap string err
  | ErrStatus int
  | ErrOp string err
  | ErrCanceled
  | ErrDeadline
  | ErrExt string

type_synonym 'a result = "err + 'a"

text \<open>An operation that reads and changes a world outside the program.\<close>

type_synonym ('w, 'a) io = "'w \<Rightarrow> 'a \<times> 'w"

text \<open>\<open>errors.As\<close> against the interface with \<open>Status()\<close>: the first match along the chain.\<close>

fun errors_As_status :: "err \<Rightarrow> int option" where
  "errors_As_status (ErrStatus c) = Some c"
| "errors_As_status (ErrWrap _ e) = errors_As_status e"
| "errors_As_status (ErrOp _ e) = errors_As_status e"
| "errors_As_status _ = None"

text \<open>\<open>errors.As\<close> against \<open>*net.OpError\<close>: the \<open>Op\<close> of the first match.\<close>

fun errors_As_op :: "err \<Rightarrow> string option" where
  "errors_As_op (ErrOp opn _) = Some opn"
| "errors_As_op (ErrWrap _ e) = errors_As_op e"
| "errors_As_op _ = None"

text \<open>\<open>errors.Is(err, context.Canceled)\<close>.\<close>

fun errors_Is_canceled :: "err \<Rightarrow> bool" where
  "errors_Is_canceled ErrCanceled = True"
| "errors_Is_canceled (ErrWrap _ e) = errors_Is_canceled e"
| "errors_Is_canceled (ErrOp _ e) = errors_Is_canceled e"
| "errors_Is_canceled _ = False"

section \<open>Durations\<close>

text \<open>\<open>time.Duration\<close> and instants are integers counting nanoseconds.\<close>

type_synonym duration = int
type_synonym instant = int

definition Millisecond :: duration where "Millisecond = 1000000"
definition Second :: duration where "Second = 1000000000"
definition Minute :: duration where "Minute = 60000000000"

lemmas duration_defs = Millisecond_def Second_def Minute_def

section \<open>Lists, options and maps\<close>

lemma find_Some_D: "find P xs = Some x \<Longrightarrow> x \<in> set xs \<and> P x"
  by (induction xs) (auto split: if_splits)

lemma dropWhile_hd: "dropWhile P xs = y # ys \<Longrightarrow> \<not> P y"
  by (induction xs) (auto split: if_splits)

lemma takeWhile_eq_self: "(\<And>x. x \<in> set xs \<Longrightarrow> P x) \<Longrightarrow> takeWhile P (xs @ y # ys) =
    (if P y then xs @ y # takeWhile P ys else xs)"
  by (induction xs) auto

lemma dropWhile_eq_rest: "(\<And>x. x \<in> set xs \<Longrightarrow> P x) \<Longrightarrow> \<not> P y \<Longrightarrow>
    dropWhile P (xs @ y # ys) = y # ys"
  by (induction xs) auto

lemma map_upd_None_dom: "dom (m(k := None)) = dom m - {k}"
  by auto

lemma finite_dom_upd: "finite (dom m) \<Longrightarrow> finite (dom (m(k \<mapsto> v)))"
  by simp

lemma card_dom_remove:
  "finite (dom m) \<Longrightarrow> k \<in> dom m \<Longrightarrow> card (dom (m(k := None))) = card (dom m) - 1"
  by (simp add: map_upd_None_dom)

end
