(* ===== verification/Go_Lib.thy ===== *)
theory Go_Lib
  imports Prelude
begin

text \<open>
  The functions of Go's standard library that the program calls, on byte strings:
  \<open>strings\<close> (\<open>Contains\<close>, \<open>ContainsAny\<close>, \<open>Cut\<close>, \<open>CutPrefix\<close>, \<open>SplitSeq\<close>,
  \<open>TrimSpace\<close>, \<open>ToLower\<close>, \<open>EqualFold\<close>), \<open>strconv\<close> (\<open>Atoi\<close>, \<open>Itoa\<close>) and
  \<open>net.SplitHostPort\<close>.  A \<open>string\<close> is the list of its bytes, as in Go.
\<close>

section \<open>Package strings\<close>

fun strings_Contains :: "string \<Rightarrow> string \<Rightarrow> bool" where
  "strings_Contains [] sub = (sub = [])"
| "strings_Contains (c # s) sub = (prefix sub (c # s) \<or> strings_Contains s sub)"

lemma strings_Contains_sublist: "strings_Contains s sub \<longleftrightarrow> sublist sub s"
  by (induction s) (auto simp: sublist_Cons_right)

lemma strings_Contains_char: "strings_Contains s [c] \<longleftrightarrow> c \<in> set s"
  by (induction s) auto

definition strings_ContainsAny :: "string \<Rightarrow> string \<Rightarrow> bool" where
  "strings_ContainsAny s chars = list_ex (\<lambda>c. c \<in> set chars) s"

text \<open>\<open>strings.Cut(s, sep)\<close> for a separator of one byte: before, after, found.\<close>

definition strings_Cut :: "string \<Rightarrow> char \<Rightarrow> string \<times> string \<times> bool" where
  "strings_Cut s c =
     (if c \<in> set s then (takeWhile (\<lambda>x. x \<noteq> c) s, tl (dropWhile (\<lambda>x. x \<noteq> c) s), True)
      else (s, [], False))"

definition strings_CutPrefix :: "string \<Rightarrow> string \<Rightarrow> string \<times> bool" where
  "strings_CutPrefix s pre = (if prefix pre s then (drop (length pre) s, True) else (s, False))"

text \<open>\<open>strings.SplitSeq(s, sep)\<close> for a separator of one byte, as the list of its parts.\<close>

fun strings_Split :: "char \<Rightarrow> string \<Rightarrow> string list" where
  "strings_Split c [] = [[]]"
| "strings_Split c (x # s) =
     (if x = c then [] # strings_Split c s
      else (case strings_Split c s of [] \<Rightarrow> [[x]] | p # ps \<Rightarrow> (x # p) # ps))"

text \<open>
  \<open>strings.TrimSpace\<close> removes the code points of \<open>unicode.IsSpace\<close> at both ends.  The list
  holds their UTF-8 encodings: the six ASCII ones, U+0085, U+00A0, U+1680, U+2000 to U+200A,
  U+2028, U+2029, U+202F, U+205F and U+3000.
\<close>

definition space_runes :: "string list" where
  "space_runes =
     [[CHR 0x09], [CHR 0x0A], [CHR 0x0B], [CHR 0x0C], [CHR 0x0D], [CHR 0x20],
      [CHR 0xC2, CHR 0x85], [CHR 0xC2, CHR 0xA0], [CHR 0xE1, CHR 0x9A, CHR 0x80],
      [CHR 0xE2, CHR 0x80, CHR 0x80], [CHR 0xE2, CHR 0x80, CHR 0x81],
      [CHR 0xE2, CHR 0x80, CHR 0x82], [CHR 0xE2, CHR 0x80, CHR 0x83],
      [CHR 0xE2, CHR 0x80, CHR 0x84], [CHR 0xE2, CHR 0x80, CHR 0x85],
      [CHR 0xE2, CHR 0x80, CHR 0x86], [CHR 0xE2, CHR 0x80, CHR 0x87],
      [CHR 0xE2, CHR 0x80, CHR 0x88], [CHR 0xE2, CHR 0x80, CHR 0x89],
      [CHR 0xE2, CHR 0x80, CHR 0x8A], [CHR 0xE2, CHR 0x80, CHR 0xA8],
      [CHR 0xE2, CHR 0x80, CHR 0xA9], [CHR 0xE2, CHR 0x80, CHR 0xAF],
      [CHR 0xE2, CHR 0x81, CHR 0x9F], [CHR 0xE3, CHR 0x80, CHR 0x80]]"

text \<open>Drop the leading occurrences of the strings of a list of non-empty strings.\<close>

fun trim_left :: "string list \<Rightarrow> string \<Rightarrow> string" where
  "trim_left rs [] = []"
| "trim_left rs (c # s) =
     (case find (\<lambda>r. r \<noteq> [] \<and> prefix r (c # s)) rs of
        None \<Rightarrow> c # s
      | Some r \<Rightarrow> trim_left rs (drop (length r - 1) s))"

definition strings_TrimSpace :: "string \<Rightarrow> string" where
  "strings_TrimSpace s =
     rev (trim_left (map rev space_runes) (rev (trim_left space_runes s)))"

text \<open>
  \<open>strings.ToLower\<close> on the ASCII letters.  The program only searches the result for an ASCII
  word; the code points outside ASCII that \<open>ToLower\<close> sends to an ASCII letter (U+0130 to i,
  U+212A to k) give letters that word does not have.
\<close>

definition lower_byte :: "char \<Rightarrow> char" where
  "lower_byte c =
     (if 65 \<le> (of_char c :: nat) \<and> (of_char c :: nat) \<le> 90 then char_of ((of_char c :: nat) + 32) else c)"

definition strings_ToLower :: "string \<Rightarrow> string" where
  "strings_ToLower s = map lower_byte s"

text \<open>
  \<open>strings.EqualFold(s, t)\<close> for an ASCII \<open>t\<close>: simple case folding.  Besides the ASCII
  letters two code points fold to an ASCII letter, U+017F to s and U+212A to k.
\<close>

fun fold_ascii :: "string \<Rightarrow> string" where
  "fold_ascii [] = []"
| "fold_ascii (a # s) =
     (if a = CHR 0xC5 \<and> s \<noteq> [] \<and> hd s = CHR 0xBF then CHR ''s'' # fold_ascii (drop 1 s)
      else if a = CHR 0xE2 \<and> take 2 s = [CHR 0x84, CHR 0xAA] then CHR ''k'' # fold_ascii (drop 2 s)
      else lower_byte a # fold_ascii s)"

definition strings_EqualFold :: "string \<Rightarrow> string \<Rightarrow> bool" where
  "strings_EqualFold s t = (fold_ascii s = fold_ascii t)"

section \<open>Package strconv\<close>

definition digit_char :: "nat \<Rightarrow> char" where
  "digit_char d = char_of (48 + d)"

definition is_digit :: "char \<Rightarrow> bool" where
  "is_digit c = (48 \<le> (of_char c :: nat) \<and> (of_char c :: nat) \<le> 57)"

definition digit_val :: "char \<Rightarrow> nat" where
  "digit_val c = (of_char c :: nat) - 48"

fun dec_digits :: "nat \<Rightarrow> string" where
  "dec_digits n = (if n < 10 then [digit_char n] else dec_digits (n div 10) @ [digit_char (n mod 10)])"

declare dec_digits.simps [simp del]

text \<open>\<open>strconv.Itoa\<close>, and \<open>%d\<close> of \<open>fmt\<close>.\<close>

definition strconv_Itoa :: "int \<Rightarrow> string" where
  "strconv_Itoa i = (if i < 0 then CHR ''-'' # dec_digits (nat (- i)) else dec_digits (nat i))"

datatype num_error = ErrSyntax | ErrRange

text \<open>
  \<open>strconv.ParseUint(s, 10, 64)\<close> after the empty-string check: a byte that is no digit is a
  syntax error, and passing \<open>2^64 - 1\<close> is a range error at once, before later bytes are seen.
\<close>

fun parse_uint :: "nat \<Rightarrow> string \<Rightarrow> num_error + nat" where
  "parse_uint n [] = Inr n"
| "parse_uint n (c # s) =
     (if \<not> is_digit c then Inl ErrSyntax
      else if 10 * n + digit_val c \<ge> 2 ^ 64 then Inl ErrRange
      else parse_uint (10 * n + digit_val c) s)"

text \<open>\<open>strconv.Atoi\<close> on a 64-bit platform.\<close>

definition strconv_Atoi :: "string \<Rightarrow> num_error + int" where
  "strconv_Atoi s =
     (if s = [] then Inl ErrSyntax
      else
        let neg = (hd s = CHR ''-'');
            ds = (if hd s = CHR ''-'' \<or> hd s = CHR ''+'' then tl s else s)
        in if ds = [] then Inl ErrSyntax
           else (case parse_uint 0 ds of
               Inl e \<Rightarrow> Inl e
             | Inr n \<Rightarrow>
                 if \<not> neg \<and> n \<ge> 2 ^ 63 then Inl ErrRange
                 else if neg \<and> n > 2 ^ 63 then Inl ErrRange
                 else Inr (if neg then - int n else int n)))"

section \<open>Package net\<close>

datatype addr_error = MissingPort | TooManyColons | MissingBracket | UnexpectedOpen | UnexpectedClose

text \<open>The indexes of the last and of the first occurrence of a byte.\<close>

definition last_index :: "char \<Rightarrow> string \<Rightarrow> nat option" where
  "last_index c s =
     (if c \<in> set s then Some (length s - 1 - length (takeWhile (\<lambda>x. x \<noteq> c) (rev s))) else None)"

definition index_byte :: "char \<Rightarrow> string \<Rightarrow> nat option" where
  "index_byte c s = (if c \<in> set s then Some (length (takeWhile (\<lambda>x. x \<noteq> c) s)) else None)"

definition split_tail :: "string \<Rightarrow> string \<Rightarrow> nat \<Rightarrow> nat \<Rightarrow> nat \<Rightarrow> addr_error + (string \<times> string)" where
  "split_tail s host i j k =
     (if CHR ''['' \<in> set (drop j s) then Inl UnexpectedOpen
      else if CHR '']'' \<in> set (drop k s) then Inl UnexpectedClose
      else Inr (host, drop (i + 1) s))"

definition net_SplitHostPort :: "string \<Rightarrow> addr_error + (string \<times> string)" where
  "net_SplitHostPort s =
     (case last_index (CHR '':'') s of
        None \<Rightarrow> Inl MissingPort
      | Some i \<Rightarrow>
          if hd s = CHR ''['' then
            (case index_byte (CHR '']'') s of
               None \<Rightarrow> Inl MissingBracket
             | Some e \<Rightarrow>
                 if e + 1 = length s then Inl MissingPort
                 else if e + 1 = i then split_tail s (take (e - 1) (drop 1 s)) i 1 (e + 1)
                 else if s ! (e + 1) = CHR '':'' then Inl TooManyColons
                 else Inl MissingPort)
          else if CHR '':'' \<in> set (take i s) then Inl TooManyColons
          else split_tail s (take i s) i 0 0)"

section \<open>Facts about the library functions\<close>

lemma of_char_digit: "d < 10 \<Longrightarrow> (of_char (digit_char d) :: nat) = 48 + d"
  by (simp add: digit_char_def)

lemma is_digit_char [go_simps]: "d < 10 \<Longrightarrow> is_digit (digit_char d)"
  by (simp add: is_digit_def of_char_digit)

lemma digit_val_char [go_simps]: "d < 10 \<Longrightarrow> digit_val (digit_char d) = d"
  by (simp add: digit_val_def of_char_digit)

lemma dec_digits_nonempty: "dec_digits n \<noteq> []"
  by (subst dec_digits.simps) simp

lemma parse_uint_snoc:
  "parse_uint n (s @ [c]) =
     (case parse_uint n s of Inl e \<Rightarrow> Inl e | Inr k \<Rightarrow> parse_uint k [c])"
  by (induction n s rule: parse_uint.induct) auto

lemma parse_uint_dec_digits: "n < 2 ^ 64 \<Longrightarrow> parse_uint 0 (dec_digits n) = Inr n"
proof (induction n rule: dec_digits.induct)
  case (1 n)
  show ?case
  proof (cases "n < 10")
    case True
    then show ?thesis by (subst dec_digits.simps) (simp add: go_simps)
  next
    case False
    with 1 have IH: "parse_uint 0 (dec_digits (n div 10)) = Inr (n div 10)"
      by simp
    have "10 * (n div 10) + n mod 10 = n" by simp
    with 1 IH False show ?thesis
      by (subst dec_digits.simps) (simp add: parse_uint_snoc go_simps)
  qed
qed

lemma dec_digits_digits: "c \<in> set (dec_digits n) \<Longrightarrow> is_digit c"
proof (induction n rule: dec_digits.induct)
  case (1 n)
  then show ?case
    by (cases "n < 10") (auto simp: dec_digits.simps [of n] go_simps)
qed

lemma digits_no_punct: "is_digit c \<Longrightarrow> c \<noteq> CHR '':'' \<and> c \<noteq> CHR ''['' \<and> c \<noteq> CHR '']'' \<and> c \<noteq> CHR ''-'' \<and> c \<noteq> CHR ''+''"
  by (auto simp: is_digit_def)

lemma dec_digits_punct: "\<forall>c \<in> {CHR '':'', CHR ''['', CHR '']'', CHR ''-'', CHR ''+''}. c \<notin> set (dec_digits n)"
  using dec_digits_digits digits_no_punct by blast

lemma Atoi_Itoa:
  assumes "- (2 ^ 63) \<le> i" and "i < 2 ^ 63"
  shows "strconv_Atoi (strconv_Itoa i) = Inr i"
proof (cases "i < 0")
  case True
  with assms have "nat (- i) \<le> 2 ^ 63" and p: "nat (- i) < 2 ^ 64" by auto
  with True parse_uint_dec_digits [OF p] dec_digits_nonempty [of "nat (- i)"] show ?thesis
    by (simp add: strconv_Atoi_def strconv_Itoa_def)
next
  case False
  with assms have u: "nat i < 2 ^ 63" and p: "nat i < 2 ^ 64" by auto
  obtain c s where cs: "dec_digits (nat i) = c # s"
    using dec_digits_nonempty [of "nat i"] by (cases "dec_digits (nat i)") auto
  then have "c \<noteq> CHR ''-''" "c \<noteq> CHR ''+''"
    using dec_digits_punct [of "nat i"] by auto
  with False u parse_uint_dec_digits [OF p] cs show ?thesis
    by (simp add: strconv_Atoi_def strconv_Itoa_def)
qed

lemma Atoi_bounds: "strconv_Atoi s = Inr i \<Longrightarrow> - (2 ^ 63) \<le> i \<and> i < 2 ^ 63"
  by (auto simp: strconv_Atoi_def Let_def split: if_splits sum.splits)

lemma strings_Split_nonempty: "strings_Split c s \<noteq> []"
  by (induction s) (auto split: list.splits)

lemma strings_Split_parts: "p \<in> set (strings_Split c s) \<Longrightarrow> c \<notin> set p"
  by (induction s arbitrary: p) (auto split: list.splits if_splits)

lemma strings_Split_append:
  "c \<notin> set p \<Longrightarrow> strings_Split c (p @ c # s) = p # strings_Split c s"
  by (induction p) auto

lemma strings_Split_none: "c \<notin> set p \<Longrightarrow> strings_Split c p = [p]"
  by (induction p) auto

lemma last_index_last:
  "c \<notin> set p \<Longrightarrow> last_index c (h @ c # p) = Some (length h)"
  by (simp add: last_index_def takeWhile_append)

text \<open>\<open>net.JoinHostPort\<close>-shaped addresses split back into their parts.\<close>

lemma SplitHostPort_plain:
  assumes "\<forall>c \<in> {CHR '':'', CHR ''['', CHR '']''}. c \<notin> set h \<and> c \<notin> set p"
  shows "net_SplitHostPort (h @ CHR '':'' # p) = Inr (h, p)"
proof -
  have "hd (h @ CHR '':'' # p) \<noteq> CHR ''[''"
    using assms by (cases h) auto
  with assms show ?thesis
    by (simp add: net_SplitHostPort_def last_index_last split_tail_def)
qed

lemma index_byte_first: "c \<notin> set h \<Longrightarrow> index_byte c (h @ c # p) = Some (length h)"
  by (simp add: index_byte_def takeWhile_append)

lemma SplitHostPort_bracketed:
  assumes "\<forall>c \<in> {CHR ''['', CHR '']''}. c \<notin> set h"
    and "\<forall>c \<in> {CHR '':'', CHR ''['', CHR '']''}. c \<notin> set p"
  shows "net_SplitHostPort (CHR ''['' # h @ CHR '']'' # CHR '':'' # p) = Inr (h, p)"
proof -
  have i: "last_index (CHR '':'') (CHR ''['' # h @ CHR '']'' # CHR '':'' # p) = Some (length h + 2)"
    using last_index_last [of "CHR '':''" p "CHR ''['' # h @ [CHR '']'']"] assms by simp
  have e: "index_byte (CHR '']'') (CHR ''['' # h @ CHR '']'' # CHR '':'' # p) = Some (length h + 1)"
    using index_byte_first [of "CHR '']''" "CHR ''['' # h" "CHR '':'' # p"] assms by simp
  from i e assms show ?thesis
    by (simp add: net_SplitHostPort_def split_tail_def)
qed

lemma SplitHostPort_no_colon: "CHR '':'' \<notin> set s \<Longrightarrow> net_SplitHostPort s = Inl MissingPort"
  by (simp add: net_SplitHostPort_def last_index_def)

lemma strings_Cut_append: "c \<notin> set a \<Longrightarrow> strings_Cut (a @ c # b) c = (a, b, True)"
  by (simp add: strings_Cut_def takeWhile_append dropWhile_append)

lemma strings_Cut_found:
  assumes "strings_Cut s c = (a, b, True)"
  shows "s = a @ c # b \<and> c \<notin> set a"
proof -
  from assms have c: "c \<in> set s" and a: "a = takeWhile (\<lambda>x. x \<noteq> c) s"
    and b: "b = tl (dropWhile (\<lambda>x. x \<noteq> c) s)"
    by (auto simp: strings_Cut_def split: if_splits)
  from c obtain xs ys where s: "s = xs @ c # ys" "c \<notin> set xs"
    by (meson split_list_first)
  then have "a = xs" "b = ys"
    unfolding a b by (simp_all add: takeWhile_append dropWhile_append)
  with s show ?thesis by simp
qed

lemma CutPrefix_append [go_simps]: "strings_CutPrefix (p @ s) p = (s, True)"
  by (simp add: strings_CutPrefix_def)

lemma CutPrefix_True: "strings_CutPrefix s p = (r, True) \<Longrightarrow> s = p @ r"
  by (auto simp: strings_CutPrefix_def prefix_def split: if_splits)

lemma trim_left_suffix: "\<exists>p. s = p @ trim_left rs s"
proof (induction rs s rule: trim_left.induct)
  case (1 rs)
  then show ?case by simp
next
  case (2 rs c s)
  show ?case
  proof (cases "find (\<lambda>r. r \<noteq> [] \<and> prefix r (c # s)) rs")
    case None
    then show ?thesis by simp
  next
    case (Some r)
    with 2 obtain p where "drop (length r - 1) s = p @ trim_left rs (drop (length r - 1) s)"
      by auto
    then have "c # s = (c # take (length r - 1) s @ p) @ trim_left rs (drop (length r - 1) s)"
      by (metis append.assoc append_Cons append_take_drop_id)
    moreover have "trim_left rs (c # s) = trim_left rs (drop (length r - 1) s)"
      using Some by simp
    ultimately show ?thesis by metis
  qed
qed

lemma TrimSpace_infix: "set (strings_TrimSpace s) \<subseteq> set s"
proof -
  obtain p where "s = p @ trim_left space_runes s"
    using trim_left_suffix by blast
  moreover obtain q where "rev (trim_left space_runes s) =
      q @ trim_left (map rev space_runes) (rev (trim_left space_runes s))"
    using trim_left_suffix by blast
  ultimately show ?thesis
    unfolding strings_TrimSpace_def set_rev
    by (metis Un_iff set_append set_rev subsetI)
qed

end
