(* ===== verification/Go_Http.thy ===== *)
theory Go_Http
  imports Go_Lib
begin

text \<open>
  What the proxy uses of \<open>net/http\<close> and \<open>net/http/httputil\<close>: header maps with canonical keys,
  requests and responses, request bodies as byte streams, and the part of
  \<open>httputil.ReverseProxy\<close> that turns an incoming request into the outgoing one (removal of the
  hop-by-hop headers after the director, upgrade headers, \<open>X-Forwarded-For\<close>).
\<close>

section \<open>Headers\<close>

text \<open>The values of each key; the empty list for a key that is absent.\<close>

type_synonym Header = "string \<Rightarrow> string list"

definition token_byte :: "char \<Rightarrow> bool" where
  "token_byte c \<longleftrightarrow>
     (let n = (of_char c :: nat)
      in (48 \<le> n \<and> n \<le> 57) \<or> (65 \<le> n \<and> n \<le> 90) \<or> (97 \<le> n \<and> n \<le> 122) \<or>
         n \<in> {33, 35, 36, 37, 38, 39, 42, 43, 45, 46, 94, 95, 96, 124, 126})"

definition upper_byte :: "char \<Rightarrow> char" where
  "upper_byte c =
     (if 97 \<le> (of_char c :: nat) \<and> (of_char c :: nat) \<le> 122 then char_of ((of_char c :: nat) - 32) else c)"

fun canon_bytes :: "bool \<Rightarrow> string \<Rightarrow> string" where
  "canon_bytes up [] = []"
| "canon_bytes up (c # s) = (if up then upper_byte c else lower_byte c) # canon_bytes (c = CHR ''-'') s"

definition CanonicalHeaderKey :: "string \<Rightarrow> string" where
  "CanonicalHeaderKey s = (if list_all token_byte s then canon_bytes True s else s)"

definition Header_Get :: "Header \<Rightarrow> string \<Rightarrow> string" where
  "Header_Get h k = (case h (CanonicalHeaderKey k) of [] \<Rightarrow> [] | v # _ \<Rightarrow> v)"

definition Header_Set :: "string \<Rightarrow> string \<Rightarrow> Header \<Rightarrow> Header" where
  "Header_Set k v h = h(CanonicalHeaderKey k := [v])"

definition Header_Del :: "string \<Rightarrow> Header \<Rightarrow> Header" where
  "Header_Del k h = h(CanonicalHeaderKey k := [])"

section \<open>Bodies, requests and responses\<close>

text \<open>A body is the bytes it yields and the error that ends it, \<open>None\<close> for the end of file.\<close>

type_synonym body = "string \<times> err option"

text \<open>\<open>io.ReadAll(io.LimitReader(b, n))\<close>: what it returns, and the rest of the body.\<close>

definition read_limited :: "nat \<Rightarrow> body \<Rightarrow> string result \<times> body" where
  "read_limited n b =
     (case b of (bytes, e) \<Rightarrow>
        if n \<le> length bytes then (Inr (take n bytes), (drop n bytes, e))
        else (case e of
            None \<Rightarrow> (Inr bytes, ([], None))
          | Some err \<Rightarrow> (Inl err, ([], e))))"

text \<open>\<open>io.MultiReader(bytes.NewReader(buf), rest)\<close>.\<close>

definition multi_reader :: "string \<Rightarrow> body \<Rightarrow> body" where
  "multi_reader buf rest = (buf @ fst rest, snd rest)"

text \<open>
  A request.  No body and \<open>http.NoBody\<close> are \<open>None\<close>; \<open>rq_GetBody\<close> is what \<open>GetBody\<close> returns;
  \<open>rq_sess\<close> is the value of the request's context under \<open>sessCtxKey\<close>.
\<close>

record 's Request =
  rq_Host :: string
  rq_Scheme :: string
  rq_URLHost :: string
  rq_Path :: string
  rq_RequestURI :: string
  rq_Header :: Header
  rq_RemoteAddr :: string
  rq_ContentLength :: int
  rq_Body :: "body option"
  rq_GetBody :: "string option"
  rq_sess :: "'s option"

record Response =
  rs_Proto :: string
  rs_Status :: string
  rs_StatusCode :: int
  rs_Header :: Header
  rs_Body :: body

section \<open>ReverseProxy\<close>

definition trim_byte :: "char \<Rightarrow> bool" where
  "trim_byte c \<longleftrightarrow> c \<in> {CHR '' '', CHR 0x09, CHR 0x0A, CHR 0x0D}"

definition textproto_TrimString :: "string \<Rightarrow> string" where
  "textproto_TrimString s = rev (dropWhile trim_byte (rev (dropWhile trim_byte s)))"

text \<open>The header names a \<open>Connection\<close> header lists.\<close>

definition connection_options :: "Header \<Rightarrow> string list" where
  "connection_options h =
     filter (\<lambda>f. f \<noteq> []) (map textproto_TrimString (concat (map (strings_Split (CHR '','')) (h ''Connection''))))"

definition hopHeaders :: "string list" where
  "hopHeaders = [''Connection'', ''Proxy-Connection'', ''Keep-Alive'', ''Proxy-Authenticate'',
     ''Proxy-Authorization'', ''Te'', ''Trailer'', ''Transfer-Encoding'', ''Upgrade'']"

definition removeHopByHopHeaders :: "Header \<Rightarrow> Header" where
  "removeHopByHopHeaders h = fold Header_Del hopHeaders (fold Header_Del (connection_options h) h)"

text \<open>Whether one of the comma-separated tokens of the values is the given one, up to case.\<close>

definition HeaderValuesContainsToken :: "string list \<Rightarrow> string \<Rightarrow> bool" where
  "HeaderValuesContainsToken vs t =
     list_ex (\<lambda>v. list_ex (\<lambda>f. map lower_byte (textproto_TrimString f) = map lower_byte t) (strings_Split (CHR '','') v)) vs"

definition upgradeType :: "Header \<Rightarrow> string" where
  "upgradeType h =
     (if HeaderValuesContainsToken (h ''Connection'') ''Upgrade'' then Header_Get h ''Upgrade'' else [])"

definition IsPrint :: "string \<Rightarrow> bool" where
  "IsPrint s = list_all (\<lambda>c. 32 \<le> (of_char c :: nat) \<and> (of_char c :: nat) \<le> 126) s"

fun join_commas :: "string list \<Rightarrow> string" where
  "join_commas [] = []"
| "join_commas [v] = v"
| "join_commas (v # vs) = v @ '', '' @ join_commas vs"

definition forwarded_for :: "string \<Rightarrow> Header \<Rightarrow> Header" where
  "forwarded_for remote h =
     (case net_SplitHostPort remote of
        Inl _ \<Rightarrow> h
      | Inr (ip, _) \<Rightarrow>
          (let prior = h ''X-Forwarded-For''
           in Header_Set ''X-Forwarded-For'' (if prior \<noteq> [] then join_commas prior @ '', '' @ ip else ip) h))"

text \<open>The headers of the outgoing request, for a director that does nothing.\<close>

definition rp_headers :: "string \<Rightarrow> Header \<Rightarrow> Header" where
  "rp_headers remote h =
     (let upType = upgradeType h;
          h1 = removeHopByHopHeaders h;
          h2 = (if HeaderValuesContainsToken (h ''Te'') ''trailers'' then Header_Set ''Te'' ''trailers'' h1 else h1);
          h3 = (if upType \<noteq> [] then Header_Set ''Upgrade'' upType (Header_Set ''Connection'' ''Upgrade'' h2) else h2);
          h4 = forwarded_for remote h3
      in if h4 ''User-Agent'' = [] then Header_Set ''User-Agent'' [] h4 else h4)"

definition rp_outreq :: "'s Request \<Rightarrow> 's Request" where
  "rp_outreq r =
     r\<lparr>rq_Header := rp_headers (rq_RemoteAddr r) (rq_Header r),
       rq_Body := (if rq_ContentLength r = 0 then None else rq_Body r)\<rparr>"

section \<open>Facts\<close>

lemma Header_Set_same [simp]: "Header_Set k v h (CanonicalHeaderKey k) = [v]"
  by (simp add: Header_Set_def)

lemma Header_Del_same [simp]: "Header_Del k h (CanonicalHeaderKey k) = []"
  by (simp add: Header_Del_def)

lemma Header_Set_other: "c \<noteq> CanonicalHeaderKey k \<Longrightarrow> Header_Set k v h c = h c"
  by (simp add: Header_Set_def)

lemma fold_Header_Del:
  "fold Header_Del ks h c = (if c \<in> CanonicalHeaderKey ` set ks then [] else h c)"
  by (induction ks arbitrary: h) (auto simp: Header_Del_def)

lemma read_limited_stream:
  assumes "read_limited n b = (Inr buf, rest)"
  shows "multi_reader buf rest = b" and "length buf \<le> n"
  using assms by (auto simp: read_limited_def multi_reader_def split: prod.splits if_splits option.splits)

lemma read_limited_short:
  assumes "read_limited n b = (Inr buf, rest)" and "length buf < n"
  shows "b = (buf, None)" and "rest = ([], None)"
  using assms by (auto simp: read_limited_def split: prod.splits if_splits option.splits)

text \<open>
  A key that is none of the fixed ones survives \<open>ReverseProxy\<close> exactly if the \<open>Connection\<close> header
  does not list it.
\<close>

definition rp_fixed :: "string list" where
  "rp_fixed = [''Connection'', ''Proxy-Connection'', ''Keep-Alive'', ''Proxy-Authenticate'',
     ''Proxy-Authorization'', ''Te'', ''Trailer'', ''Transfer-Encoding'', ''Upgrade'', ''X-Forwarded-For'', ''User-Agent'']"

lemma canonical_fixed: "map CanonicalHeaderKey rp_fixed = rp_fixed"
  by code_simp

lemma rp_headers_other:
  assumes "k \<notin> set rp_fixed"
  shows "rp_headers remote h k =
    (if k \<in> CanonicalHeaderKey ` set (connection_options h) then [] else h k)"
proof -
  have c: "CanonicalHeaderKey ''Te'' = ''Te''" "CanonicalHeaderKey ''Upgrade'' = ''Upgrade''"
    "CanonicalHeaderKey ''Connection'' = ''Connection''" "CanonicalHeaderKey ''X-Forwarded-For'' = ''X-Forwarded-For''"
    "CanonicalHeaderKey ''User-Agent'' = ''User-Agent''"
    and hop: "CanonicalHeaderKey ` set hopHeaders = set hopHeaders"
    using canonical_fixed by (auto simp: rp_fixed_def hopHeaders_def)
  have n: "k \<noteq> ''Te''" "k \<noteq> ''Upgrade''" "k \<noteq> ''Connection''" "k \<noteq> ''X-Forwarded-For''"
    "k \<noteq> ''User-Agent''" "k \<notin> set hopHeaders"
    using assms unfolding rp_fixed_def hopHeaders_def by auto
  have "forwarded_for remote h' k = h' k" for h'
    using n by (simp add: forwarded_for_def Header_Set_def c Let_def split: sum.splits)
  then show ?thesis
    using n by (simp add: rp_headers_def Let_def Header_Set_def c removeHopByHopHeaders_def fold_Header_Del hop)
qed

end
