(* ===== verification/Metrics.thy ===== *)
theory Metrics
  imports Prelude
begin

text \<open>
  Package \<open>internal/metrics\<close>.  The Prometheus client is outside the repository, so a
  \<open>Metrics\<close> value is modelled by what the package asks of that client: the descriptors it
  registers, in order, and the log of calls it makes on its collectors.  A nil
  \<open>*Metrics\<close> is \<open>None\<close>; every method on it does nothing.  The theorems show that no name is
  registered twice and that every call passes as many label values as the collector declares,
  the two conditions under which the client panics.
\<close>

section \<open>Collectors and calls\<close>

text \<open>The collector fields of the struct, by their names in the source.\<close>

datatype collector =
    SessionsCreated | SessionsRefreshed | SessionsReaped | EnsureDuration | EnsureFailures
  | SessionLifetime | SessionIdle
  | ActiveConns | ConnDuration | Requests | RequestLatency | Bytes
  | Lookups | UnknownClients
  | BackendDialFailures | ProxyErrors | BackendDeleteFailures

datatype buckets =
    NoBuckets
  | Buckets "int list" \<comment> \<open>upper bounds in milliseconds\<close>
  | ExponentialBuckets int int nat
  | DefBuckets

record descriptor =
  d_name :: string
  d_labels :: "string list"
  d_buckets :: buckets

text \<open>A call on a collector; the label values are the arguments of \<open>WithLabelValues\<close>.\<close>

datatype mcall =
    Inc collector "string list"
  | Dec collector "string list"
  | Add collector "string list" int
  | Observe collector "string list" duration
  | SetGauge string "string list" int

record Metrics =
  reg :: "string list"
  calls :: "mcall list"

definition OutcomeSuccess :: string where "OutcomeSuccess = ''success''"
definition OutcomeFailure :: string where "OutcomeFailure = ''failure''"
definition DirClientToBackend :: string where "DirClientToBackend = ''c2b''"
definition DirBackendToClient :: string where "DirBackendToClient = ''b2c''"
definition LookupCacheHit :: string where "LookupCacheHit = ''cache_hit''"
definition LookupAPIFallback :: string where "LookupAPIFallback = ''api_fallback''"
definition LookupMiss :: string where "LookupMiss = ''miss''"

section \<open>New\<close>

definition desc :: "string \<Rightarrow> string list \<Rightarrow> buckets \<Rightarrow> descriptor" where
  "desc n ls b = \<lparr>d_name = n, d_labels = ls, d_buckets = b\<rparr>"

text \<open>The options \<open>New\<close> builds each collector with.\<close>

fun descriptor_of :: "collector \<Rightarrow> descriptor" where
  "descriptor_of SessionsCreated = desc ''playwright_sessions_created_total'' [''backend'', ''outcome''] NoBuckets"
| "descriptor_of SessionsRefreshed = desc ''playwright_sessions_refreshed_total'' [''backend'', ''outcome''] NoBuckets"
| "descriptor_of SessionsReaped = desc ''playwright_sessions_reaped_total'' [''reason''] NoBuckets"
| "descriptor_of EnsureDuration = desc ''playwright_session_ensure_duration_seconds'' [''backend'', ''outcome'']
     (Buckets [250, 500, 1000, 2000, 5000, 10000, 20000, 30000, 60000, 120000])"
| "descriptor_of EnsureFailures = desc ''playwright_session_ensure_failures_total'' [''backend''] NoBuckets"
| "descriptor_of SessionLifetime = desc ''playwright_session_lifetime_seconds'' [''backend''] (ExponentialBuckets 10 2 12)"
| "descriptor_of SessionIdle = desc ''playwright_session_idle_seconds'' [] (ExponentialBuckets 30 2 10)"
| "descriptor_of ActiveConns = desc ''playwright_active_connections'' [] NoBuckets"
| "descriptor_of ConnDuration = desc ''playwright_connection_duration_seconds'' [''protocol''] (ExponentialBuckets 1 2 14)"
| "descriptor_of Requests = desc ''playwright_requests_total'' [''protocol'', ''code''] NoBuckets"
| "descriptor_of RequestLatency = desc ''playwright_request_duration_seconds'' [''protocol''] DefBuckets"
| "descriptor_of Bytes = desc ''playwright_bytes_transferred_total'' [''direction''] NoBuckets"
| "descriptor_of Lookups = desc ''playwright_lookups_total'' [''result''] NoBuckets"
| "descriptor_of UnknownClients = desc ''playwright_unknown_client_total'' [] NoBuckets"
| "descriptor_of BackendDialFailures = desc ''playwright_backend_dial_failures_total'' [] NoBuckets"
| "descriptor_of ProxyErrors = desc ''playwright_proxy_errors_total'' [''kind''] NoBuckets"
| "descriptor_of BackendDeleteFailures = desc ''playwright_backend_delete_failures_total'' [] NoBuckets"

text \<open>The order in which \<open>New\<close> registers them.\<close>

definition registered :: "collector list" where
  "registered =
     [SessionsCreated, SessionsRefreshed, SessionsReaped, EnsureDuration, EnsureFailures,
      SessionLifetime, SessionIdle, ActiveConns, ConnDuration,
      Requests, RequestLatency, Bytes, Lookups, UnknownClients,
      BackendDialFailures, ProxyErrors, BackendDeleteFailures]"

text \<open>
  \<open>New\<close>: the runtime and process collectors (by the names of their constructors), the
  \<open>build_info\<close> gauge with its labels set to 1, then the collectors of the struct.
\<close>

definition New_Metrics :: "string \<Rightarrow> string \<Rightarrow> string \<Rightarrow> Metrics option" where
  "New_Metrics backend version commit =
     Some \<lparr>reg = [''GoCollector'', ''ProcessCollector'', ''playwright_build_info'']
             @ map (d_name \<circ> descriptor_of) registered,
           calls = [SetGauge ''playwright_build_info'' [version, commit, backend] 1]\<rparr>"

definition Registry :: "Metrics option \<Rightarrow> string list option" where
  "Registry m = map_option reg m"

definition register :: "string \<Rightarrow> Metrics option \<Rightarrow> Metrics option" where
  "register n m = map_option (\<lambda>x. x\<lparr>reg := reg x @ [n]\<rparr>) m"

definition RegisterSessionsActive :: "Metrics option \<Rightarrow> Metrics option" where
  "RegisterSessionsActive m = register ''playwright_sessions_active'' m"

definition RegisterRegisteredPods :: "Metrics option \<Rightarrow> Metrics option" where
  "RegisterRegisteredPods m = register ''playwright_registered_pods'' m"

section \<open>Methods\<close>

text \<open>One call on the client, unless the receiver is nil.\<close>

definition emit :: "mcall \<Rightarrow> Metrics option \<Rightarrow> Metrics option" where
  "emit c m = map_option (\<lambda>x. x\<lparr>calls := calls x @ [c]\<rparr>) m"

definition SessionCreated :: "string \<Rightarrow> string \<Rightarrow> Metrics option \<Rightarrow> Metrics option" where
  "SessionCreated backend outcome m = emit (Inc SessionsCreated [backend, outcome]) m"

definition SessionRefreshed :: "string \<Rightarrow> string \<Rightarrow> Metrics option \<Rightarrow> Metrics option" where
  "SessionRefreshed backend outcome m = emit (Inc SessionsRefreshed [backend, outcome]) m"

definition SessionReaped :: "string \<Rightarrow> Metrics option \<Rightarrow> Metrics option" where
  "SessionReaped reason m = emit (Inc SessionsReaped [reason]) m"

definition ObserveEnsure :: "string \<Rightarrow> string \<Rightarrow> duration \<Rightarrow> Metrics option \<Rightarrow> Metrics option" where
  "ObserveEnsure backend outcome d m = emit (Observe EnsureDuration [backend, outcome] d) m"

definition EnsureFailed :: "string \<Rightarrow> Metrics option \<Rightarrow> Metrics option" where
  "EnsureFailed backend m = emit (Inc EnsureFailures [backend]) m"

definition ObserveLifetime :: "string \<Rightarrow> duration \<Rightarrow> Metrics option \<Rightarrow> Metrics option" where
  "ObserveLifetime backend d m = emit (Observe SessionLifetime [backend] d) m"

definition ObserveIdle :: "duration \<Rightarrow> Metrics option \<Rightarrow> Metrics option" where
  "ObserveIdle d m = emit (Observe SessionIdle [] d) m"

definition ConnOpened_metric :: "Metrics option \<Rightarrow> Metrics option" where
  "ConnOpened_metric m = emit (Inc ActiveConns []) m"

definition ConnClosed_metric :: "string \<Rightarrow> duration \<Rightarrow> Metrics option \<Rightarrow> Metrics option" where
  "ConnClosed_metric protocol d m = emit (Observe ConnDuration [protocol] d) (emit (Dec ActiveConns []) m)"

definition CountRequest :: "string \<Rightarrow> string \<Rightarrow> Metrics option \<Rightarrow> Metrics option" where
  "CountRequest protocol code m = emit (Inc Requests [protocol, code]) m"

definition RecordRequest :: "string \<Rightarrow> string \<Rightarrow> duration \<Rightarrow> Metrics option \<Rightarrow> Metrics option" where
  "RecordRequest protocol code d m =
     emit (Observe RequestLatency [protocol] d) (emit (Inc Requests [protocol, code]) m)"

definition AddBytes :: "string \<Rightarrow> int \<Rightarrow> Metrics option \<Rightarrow> Metrics option" where
  "AddBytes direction n m = (if n \<le> 0 then m else emit (Add Bytes [direction] n) m)"

definition Lookup_metric :: "string \<Rightarrow> Metrics option \<Rightarrow> Metrics option" where
  "Lookup_metric result m = emit (Inc Lookups [result]) m"

definition UnknownClient :: "Metrics option \<Rightarrow> Metrics option" where
  "UnknownClient m = emit (Inc UnknownClients []) m"

definition BackendDialFailure :: "Metrics option \<Rightarrow> Metrics option" where
  "BackendDialFailure m = emit (Inc BackendDialFailures []) m"

definition ProxyError :: "string \<Rightarrow> Metrics option \<Rightarrow> Metrics option" where
  "ProxyError kind m = emit (Inc ProxyErrors [kind]) m"

definition BackendDeleteFailure :: "Metrics option \<Rightarrow> Metrics option" where
  "BackendDeleteFailure m = emit (Inc BackendDeleteFailures []) m"

lemmas metric_defs = SessionCreated_def SessionRefreshed_def SessionReaped_def ObserveEnsure_def
  EnsureFailed_def ObserveLifetime_def ObserveIdle_def ConnOpened_metric_def ConnClosed_metric_def
  CountRequest_def RecordRequest_def AddBytes_def Lookup_metric_def UnknownClient_def
  BackendDialFailure_def ProxyError_def BackendDeleteFailure_def

section \<open>The client never panics\<close>

text \<open>
  \<open>WithLabelValues\<close> panics unless it gets one value per declared label, and a counter's
  \<open>Add\<close> panics on a negative amount.
\<close>

fun call_ok :: "mcall \<Rightarrow> bool" where
  "call_ok (Inc c ls) = (length ls = length (d_labels (descriptor_of c)))"
| "call_ok (Dec c ls) = (length ls = length (d_labels (descriptor_of c)))"
| "call_ok (Add c ls n) = (length ls = length (d_labels (descriptor_of c)) \<and> 0 \<le> n)"
| "call_ok (Observe c ls d) = (length ls = length (d_labels (descriptor_of c)))"
| "call_ok (SetGauge n ls v) = (n = ''playwright_build_info'' \<and> length ls = 3)"

text \<open>\<open>MustRegister\<close> panics on a name that is registered already.\<close>

definition metrics_ok :: "Metrics option \<Rightarrow> bool" where
  "metrics_ok m = (case m of None \<Rightarrow> True | Some x \<Rightarrow> distinct (reg x) \<and> list_all call_ok (calls x))"

lemma metrics_ok_None [simp]: "metrics_ok None"
  by (simp add: metrics_ok_def)

lemma metrics_ok_emit: "call_ok c \<Longrightarrow> metrics_ok m \<Longrightarrow> metrics_ok (emit c m)"
  by (auto simp: metrics_ok_def emit_def split: option.splits)

lemma emit_None [simp]: "emit c None = None"
  by (simp add: emit_def)

text \<open>
  The value a gauge or counter has after the logged calls, as the client documents it: the sum
  of its increments less its decrements.
\<close>

fun call_delta :: "collector \<Rightarrow> mcall \<Rightarrow> int" where
  "call_delta c (Inc d _) = (if d = c then 1 else 0)"
| "call_delta c (Dec d _) = (if d = c then - 1 else 0)"
| "call_delta c (Add d _ n) = (if d = c then n else 0)"
| "call_delta c _ = 0"

definition metric_value :: "collector \<Rightarrow> Metrics option \<Rightarrow> int" where
  "metric_value c m = (case m of None \<Rightarrow> 0 | Some x \<Rightarrow> sum_list (map (call_delta c) (calls x)))"

lemma metric_value_emit:
  "metric_value c (emit k m) = metric_value c m + (case m of None \<Rightarrow> 0 | Some _ \<Rightarrow> call_delta c k)"
  by (auto simp: metric_value_def emit_def split: option.splits)

lemma metric_value_emit_Some:
  "m \<noteq> None \<Longrightarrow> metric_value c (emit k m) = metric_value c m + call_delta c k"
  by (auto simp: metric_value_emit)

lemma emit_is_None [simp]: "emit c m = None \<longleftrightarrow> m = None"
  by (simp add: emit_def)

text \<open>The methods as data, to speak of sequences of calls.\<close>

datatype metric_op =
    MSessionCreated string string | MSessionRefreshed string string | MSessionReaped string
  | MObserveEnsure string string duration | MEnsureFailed string | MObserveLifetime string duration
  | MObserveIdle duration | MConnOpened | MConnClosed string duration | MCountRequest string string
  | MRecordRequest string string duration | MAddBytes string int | MLookup string
  | MUnknownClient | MBackendDialFailure | MProxyError string | MBackendDeleteFailure

fun apply_metric_op :: "metric_op \<Rightarrow> Metrics option \<Rightarrow> Metrics option" where
  "apply_metric_op (MSessionCreated b oc) m = SessionCreated b oc m"
| "apply_metric_op (MSessionRefreshed b oc) m = SessionRefreshed b oc m"
| "apply_metric_op (MSessionReaped r) m = SessionReaped r m"
| "apply_metric_op (MObserveEnsure b oc d) m = ObserveEnsure b oc d m"
| "apply_metric_op (MEnsureFailed b) m = EnsureFailed b m"
| "apply_metric_op (MObserveLifetime b d) m = ObserveLifetime b d m"
| "apply_metric_op (MObserveIdle d) m = ObserveIdle d m"
| "apply_metric_op MConnOpened m = ConnOpened_metric m"
| "apply_metric_op (MConnClosed p d) m = ConnClosed_metric p d m"
| "apply_metric_op (MCountRequest p c) m = CountRequest p c m"
| "apply_metric_op (MRecordRequest p c d) m = RecordRequest p c d m"
| "apply_metric_op (MAddBytes d n) m = AddBytes d n m"
| "apply_metric_op (MLookup r) m = Lookup_metric r m"
| "apply_metric_op MUnknownClient m = UnknownClient m"
| "apply_metric_op MBackendDialFailure m = BackendDialFailure m"
| "apply_metric_op (MProxyError k) m = ProxyError k m"
| "apply_metric_op MBackendDeleteFailure m = BackendDeleteFailure m"

lemma apply_method_ok: "metrics_ok m \<Longrightarrow> metrics_ok (apply_metric_op k m)"
  by (cases k) (auto simp: metric_defs desc_def intro!: metrics_ok_emit)

lemma New_Metrics_ok:
  "metrics_ok (RegisterRegisteredPods (RegisterSessionsActive (New_Metrics b v c)))"
  by (simp add: metrics_ok_def New_Metrics_def RegisterRegisteredPods_def RegisterSessionsActive_def
      register_def registered_def desc_def)

text \<open>
  Building the metrics, installing the two scrape-time gauges once each (as the session
  manager and the identify index do) and then calling any sequence of the package's methods
  never triggers a panic of the Prometheus client: all registered names differ and every call
  carries one value per declared label and no negative amount.
\<close>

theorem metrics_never_panic:
  "metrics_ok (fold apply_metric_op ks (RegisterRegisteredPods (RegisterSessionsActive (New_Metrics b v c))))"
proof -
  have "metrics_ok m \<Longrightarrow> metrics_ok (fold apply_metric_op ks m)" for m
    by (induction ks arbitrary: m) (simp_all add: apply_method_ok)
  then show ?thesis using New_Metrics_ok by blast
qed

end
