(* ===== verification/Backend.thy ===== *)
theory Backend
  imports Go_Lib
begin

text \<open>
  Package \<open>internal/backend\<close>, file \<open>backend.go\<close>: the \<open>Endpoint\<close> a backend hands to the
  proxy with its two dial addresses, and the \<open>Backend\<close> interface.  The interface appears twice:
  as a record of operations over a world (\<open>Backend_ops\<close>, what the session manager is given) and
  as the locale \<open>endpoint_backend\<close>, over the results \<open>Ensure\<close> can give for an id, with the law its
  clients rely on: an endpoint has the shape the backend promises for that playwright-id.
\<close>

section \<open>Endpoint\<close>

record Endpoint =
  Host :: string
  TargetActor :: string
  Port :: int
  MCPPort :: int

definition zero_Endpoint :: Endpoint where
  "zero_Endpoint = \<lparr>Host = '''', TargetActor = '''', Port = 0, MCPPort = 0\<rparr>"

definition host_port :: "string \<Rightarrow> int \<Rightarrow> string" where
  "host_port h p = h @ '':'' @ strconv_Itoa p"

definition Addr :: "Endpoint \<Rightarrow> string" where
  "Addr e = host_port (Host e) (Port e)"

definition MCPAddr :: "Endpoint \<Rightarrow> string" where
  "MCPAddr e =
     (let port = MCPPort e;
          port = (if port = 0 then Port e else port)
      in host_port (Host e) port)"

section \<open>The interface\<close>

record 'w Backend_ops =
  Ensure :: "string \<Rightarrow> ('w, Endpoint result) io"
  Delete :: "string \<Rightarrow> ('w, err option) io"
  List :: "('w, string list result) io"

text \<open>The results \<open>Ensure\<close> can give for an id, in some state of the world.\<close>

definition ensure_results :: "(string \<Rightarrow> ('w, Endpoint result) io) \<Rightarrow> string \<Rightarrow> Endpoint result \<Rightarrow> bool" where
  "ensure_results ensure pid r \<longleftrightarrow> (\<exists>w. fst (ensure pid w) = r)"

locale endpoint_backend =
  fixes results :: "string \<Rightarrow> Endpoint result \<Rightarrow> bool"
    and shape :: "string \<Rightarrow> Endpoint \<Rightarrow> bool"
  assumes results_shape: "results pid (Inr ep) \<Longrightarrow> shape pid ep"

lemma endpoint_backend_io:
  assumes "\<And>pid w ep. fst (ensure pid w) = Inr ep \<Longrightarrow> shape pid ep"
  shows "endpoint_backend (ensure_results ensure) shape"
  using assms by (auto simp: endpoint_backend_def ensure_results_def)

section \<open>Resource names\<close>

text \<open>
  Each backend derives the name of its resource from the playwright-id.  The law its clients
  rely on: distinct ids have distinct resources.
\<close>

locale resource_naming =
  fixes name_of :: "string \<Rightarrow> string"
  assumes name_inj: "name_of a = name_of b \<Longrightarrow> a = b"
begin

lemma name_neq: "a \<noteq> b \<Longrightarrow> name_of a \<noteq> name_of b"
  using name_inj by blast

lemma distinct_names: "distinct ids \<Longrightarrow> distinct (map name_of ids)"
  by (simp add: distinct_map inj_on_def name_inj)

end

section \<open>Addresses\<close>

lemma Itoa_no_punct:
  "0 \<le> p \<Longrightarrow> \<forall>c \<in> {CHR '':'', CHR ''['', CHR '']''}. c \<notin> set (strconv_Itoa p)"
  using dec_digits_punct [of "nat p"] by (simp add: strconv_Itoa_def)

lemma host_port_split:
  assumes "\<forall>c \<in> {CHR '':'', CHR ''['', CHR '']''}. c \<notin> set h" and "0 \<le> p"
  shows "net_SplitHostPort (host_port h p) = Inr (h, strconv_Itoa p)"
  using SplitHostPort_plain [of h "strconv_Itoa p"] assms Itoa_no_punct [of p]
  by (simp add: host_port_def)

lemma host_port_colon:
  assumes "CHR '':'' \<in> set h" and "hd h \<noteq> CHR ''[''" and "0 \<le> p"
  shows "net_SplitHostPort (host_port h p) = Inl TooManyColons"
proof -
  have "last_index (CHR '':'') (h @ CHR '':'' # strconv_Itoa p) = Some (length h)"
    using Itoa_no_punct [OF assms(3)] by (intro last_index_last) auto
  moreover have "hd (h @ CHR '':'' # strconv_Itoa p) \<noteq> CHR ''[''"
    using assms by (cases h) auto
  ultimately show ?thesis
    using assms by (simp add: net_SplitHostPort_def host_port_def)
qed

text \<open>
  Dial addresses of an IPv4 or DNS-named endpoint: \<open>net.SplitHostPort\<close> reads back the host
  and the decimal port from both addresses, the WebSocket address always with the native port and
  the MCP address with the MCP port, or with the native port when no MCP port is configured.
\<close>

theorem endpoint_addresses_split:
  assumes "\<forall>c \<in> {CHR '':'', CHR ''['', CHR '']''}. c \<notin> set (Host e)"
    and "0 \<le> Port e" and "0 \<le> MCPPort e"
  shows "net_SplitHostPort (Addr e) = Inr (Host e, strconv_Itoa (Port e)) \<and>
    net_SplitHostPort (MCPAddr e) =
      Inr (Host e, strconv_Itoa (if MCPPort e = 0 then Port e else MCPPort e))"
  using host_port_split [OF assms(1)] assms(2,3) by (simp add: Addr_def MCPAddr_def Let_def)

theorem endpoint_addresses_split_witness:
  "net_SplitHostPort (Addr \<lparr>Host = ''10.0.0.1'', TargetActor = '''', Port = 9222, MCPPort = 9223\<rparr>)
     = Inr (''10.0.0.1'', strconv_Itoa 9222) \<and>
   net_SplitHostPort (MCPAddr \<lparr>Host = ''10.0.0.1'', TargetActor = '''', Port = 9222, MCPPort = 9223\<rparr>)
     = Inr (''10.0.0.1'', strconv_Itoa 9223)"
  using endpoint_addresses_split
    [of "\<lparr>Host = ''10.0.0.1'', TargetActor = '''', Port = 9222, MCPPort = 9223\<rparr>"] by simp

text \<open>
  An IPv6 pod address makes both dial addresses unusable: \<open>Addr\<close> and \<open>MCPAddr\<close> join with
  a bare colon instead of \<open>net.JoinHostPort\<close>, and \<open>net.SplitHostPort\<close>, which every dial goes
  through, rejects the result with too many colons.
\<close>

theorem ipv6_endpoint_undialable:
  assumes "CHR '':'' \<in> set (Host e)" and "hd (Host e) \<noteq> CHR ''[''"
    and "0 \<le> Port e" and "0 \<le> MCPPort e"
  shows "net_SplitHostPort (Addr e) = Inl TooManyColons \<and>
    net_SplitHostPort (MCPAddr e) = Inl TooManyColons"
  using host_port_colon [OF assms(1,2)] assms(3,4) by (simp add: Addr_def MCPAddr_def Let_def)

theorem ipv6_endpoint_undialable_witness:
  "net_SplitHostPort (Addr \<lparr>Host = ''fd00::7'', TargetActor = '''', Port = 9222, MCPPort = 0\<rparr>)
     = Inl TooManyColons \<and>
   net_SplitHostPort (MCPAddr \<lparr>Host = ''fd00::7'', TargetActor = '''', Port = 9222, MCPPort = 0\<rparr>)
     = Inl TooManyColons"
  using ipv6_endpoint_undialable
    [of "\<lparr>Host = ''fd00::7'', TargetActor = '''', Port = 9222, MCPPort = 0\<rparr>"] by simp

end
