(* ===== verification/Session.thy ===== *)
theory Session
  imports Metrics Backend "HOL-Library.Word"
begin

text \<open>
  Package \<open>internal/session\<close>: the map from playwright-id to sandbox session, the goroutine that
  resolves a session through the backend, the idle reaper and the refresh of a stale session.

  A \<open>*Session\<close> is an address into \<open>heap\<close>, so that pointer comparison
  (\<open>m.sessions[id] == sess\<close>) is comparison of addresses.  The channel \<open>ready\<close> is the flag that
  says it is closed; closing it twice panics, which is \<open>None\<close> in the result of \<open>resolve\<close>.
  Beside the fields of \<open>Manager\<close> the record keeps the goroutines the code starts:
  \<open>resolving\<close> lists the sessions with a \<open>resolve\<close> in flight and \<open>victims\<close> is the local
  variable of \<open>reapOnce\<close> between its locked scan and its calls of \<open>Delete\<close>.

  Every critical section under \<open>m.mu\<close> is one definition.  The operations that block or call the
  backend between critical sections are compositions of those, and \<open>mgr_step\<close> interleaves the
  critical sections of any number of callers.  Readings of \<open>time.Now\<close> are arguments.
\<close>

section \<open>State\<close>

record Session =
  sID :: string
  sEndpoint :: Endpoint
  created :: instant
  lastActive :: instant
  activeConn :: "32 word"
  ready :: bool
  serr :: "err option"

type_synonym sref = nat

record Manager =
  backendKind :: string
  ensureTimeout :: duration
  idleTTL :: duration
  mmetrics :: "Metrics option"
  sessions :: "string \<rightharpoonup> sref"
  lastRefresh :: "string \<rightharpoonup> instant"
  heap :: "sref \<rightharpoonup> Session"
  fresh :: sref
  resolving :: "sref list"
  victims :: "sref list"

definition refreshCooldown :: duration where
  "refreshCooldown = 2 * Second"

definition New_Manager :: "string \<Rightarrow> duration \<Rightarrow> duration \<Rightarrow> Metrics option \<Rightarrow> Manager" where
  "New_Manager kind timeout ttl m =
     \<lparr>backendKind = kind, ensureTimeout = timeout, idleTTL = ttl,
      mmetrics = RegisterSessionsActive m,
      sessions = Map.empty, lastRefresh = Map.empty,
      heap = Map.empty, fresh = 0, resolving = [], victims = []\<rparr>"

section \<open>Methods of a session\<close>

definition upd_session :: "sref \<Rightarrow> (Session \<Rightarrow> Session) \<Rightarrow> Manager \<Rightarrow> Manager" where
  "upd_session r f m = (case heap m r of None \<Rightarrow> m | Some s \<Rightarrow> m\<lparr>heap := (heap m)(r \<mapsto> f s)\<rparr>)"

definition MarkActive :: "instant \<Rightarrow> Session \<Rightarrow> Session" where
  "MarkActive now s = s\<lparr>lastActive := now\<rparr>"

definition ConnOpened :: "instant \<Rightarrow> Session \<Rightarrow> Session" where
  "ConnOpened now s = MarkActive now (s\<lparr>activeConn := activeConn s + 1\<rparr>)"

definition ConnClosed :: "instant \<Rightarrow> Session \<Rightarrow> Session" where
  "ConnClosed now s = MarkActive now (s\<lparr>activeConn := activeConn s - 1\<rparr>)"

definition ActiveConns :: "Session \<Rightarrow> int" where
  "ActiveConns s = sint (activeConn s)"

definition LastActive :: "Session \<Rightarrow> instant" where
  "LastActive s = lastActive s"

section \<open>Operations of the manager\<close>

definition activeCount :: "Manager \<Rightarrow> nat" where
  "activeCount m = card (dom (sessions m))"

text \<open>A new session object whose resolution is started: \<open>&Session{...}\<close> and \<open>go m.resolve\<close>.\<close>

definition start_session :: "string \<Rightarrow> instant \<Rightarrow> instant \<Rightarrow> Manager \<Rightarrow> sref \<times> Manager" where
  "start_session pid c a m =
     (fresh m,
      m\<lparr>heap := (heap m)(fresh m \<mapsto>
          \<lparr>sID = pid, sEndpoint = zero_Endpoint, created = c, lastActive = a,
           activeConn = 0, ready = False, serr = None\<rparr>),
        fresh := fresh m + 1,
        sessions := (sessions m)(pid \<mapsto> fresh m),
        resolving := resolving m @ [fresh m]\<rparr>)"

fun reconcile_ids :: "instant \<Rightarrow> string list \<Rightarrow> Manager \<Rightarrow> Manager" where
  "reconcile_ids now [] m = m"
| "reconcile_ids now (pid # ids) m =
     reconcile_ids now ids
       (case sessions m pid of Some _ \<Rightarrow> m | None \<Rightarrow> snd (start_session pid now now m))"

definition Reconcile :: "instant \<Rightarrow> string list result \<Rightarrow> Manager \<Rightarrow> err option \<times> Manager" where
  "Reconcile now listed m =
     (case listed of Inl e \<Rightarrow> (Some e, m) | Inr ids \<Rightarrow> (None, reconcile_ids now ids m))"

text \<open>\<open>Get\<close> up to its \<open>select\<close>: find or start the session.\<close>

definition Get_enter :: "instant \<Rightarrow> instant \<Rightarrow> string \<Rightarrow> Manager \<Rightarrow> sref \<times> Manager" where
  "Get_enter c a pid m =
     (case sessions m pid of Some r \<Rightarrow> (r, m) | None \<Rightarrow> start_session pid c a m)"

text \<open>The ready case of the \<open>select\<close>: a failed session is dropped if it is still the current one.\<close>

definition Get_ready :: "string \<Rightarrow> sref \<Rightarrow> Manager \<Rightarrow> sref result \<times> Manager" where
  "Get_ready pid r m =
     (case heap m r of
        None \<Rightarrow> (Inr r, m)
      | Some s \<Rightarrow>
          (case serr s of
             Some e \<Rightarrow>
               (Inl e, if sessions m pid = Some r then m\<lparr>sessions := (sessions m)(pid := None)\<rparr> else m)
           | None \<Rightarrow> (Inr r, m)))"

text \<open>
  \<open>Get\<close>.  The argument \<open>wait\<close> is what happens while the caller blocks in the \<open>select\<close>: the
  steps of the other goroutines, and which case fires (\<open>None\<close> for the closed channel,
  \<open>Some e\<close> for \<open>ctx.Done()\<close> with \<open>ctx.Err() = e\<close>).
\<close>

type_synonym waiter = "sref \<Rightarrow> Manager \<Rightarrow> err option \<times> Manager"

definition Get :: "waiter \<Rightarrow> instant \<Rightarrow> instant \<Rightarrow> string \<Rightarrow> Manager \<Rightarrow> sref result \<times> Manager" where
  "Get wait c a pid m =
     (let (r, m1) = Get_enter c a pid m;
          (fired, m2) = wait r m1
      in case fired of
           None \<Rightarrow> Get_ready pid r m2
         | Some e \<Rightarrow> (Inl e, m2))"

text \<open>
  \<open>resolve\<close> after \<open>Ensure\<close> returned: publish the outcome, count it and close the channel.
  \<open>None\<close> is the panic of closing a closed channel.
\<close>

definition record_failure :: "duration \<Rightarrow> Manager \<Rightarrow> Manager" where
  "record_failure elapsed m =
     m\<lparr>mmetrics := SessionCreated (backendKind m) OutcomeFailure
         (EnsureFailed (backendKind m)
           (ObserveEnsure (backendKind m) OutcomeFailure elapsed (mmetrics m)))\<rparr>"

definition record_success :: "duration \<Rightarrow> Manager \<Rightarrow> Manager" where
  "record_success elapsed m =
     m\<lparr>mmetrics := SessionCreated (backendKind m) OutcomeSuccess
         (ObserveEnsure (backendKind m) OutcomeSuccess elapsed (mmetrics m))\<rparr>"

definition close_ready :: "sref \<Rightarrow> Manager \<Rightarrow> Manager option" where
  "close_ready r m =
     (case heap m r of
        None \<Rightarrow> None
      | Some s \<Rightarrow>
          if ready s then None
          else Some (m\<lparr>heap := (heap m)(r \<mapsto> s\<lparr>ready := True\<rparr>), resolving := remove1 r (resolving m)\<rparr>))"

definition resolve :: "sref \<Rightarrow> instant \<Rightarrow> instant \<Rightarrow> Endpoint result \<Rightarrow> Manager \<Rightarrow> Manager option" where
  "resolve r start stop res m =
     (case res of
        Inl e \<Rightarrow> close_ready r (record_failure (stop - start) (upd_session r (\<lambda>s. s\<lparr>serr := Some e\<rparr>) m))
      | Inr ep \<Rightarrow> close_ready r (record_success (stop - start) (upd_session r (\<lambda>s. s\<lparr>sEndpoint := ep\<rparr>) m)))"

text \<open>
  The locked scan of \<open>reapOnce\<close>.  Go visits the keys of the map in an unspecified order, which
  is the argument \<open>order\<close>.
\<close>

definition reapable :: "instant \<Rightarrow> Session \<Rightarrow> bool" where
  "reapable cutoff s \<longleftrightarrow> ready s \<and> \<not> ActiveConns s > 0 \<and> \<not> LastActive s > cutoff"

definition reap_visit :: "instant \<Rightarrow> string \<Rightarrow> Manager \<Rightarrow> Manager" where
  "reap_visit cutoff pid m =
     (case sessions m pid of
        None \<Rightarrow> m
      | Some r \<Rightarrow>
          (case heap m r of
             None \<Rightarrow> m
           | Some s \<Rightarrow>
               if reapable cutoff s
               then m\<lparr>victims := victims m @ [r], sessions := (sessions m)(pid := None),
                      lastRefresh := (lastRefresh m)(pid := None)\<rparr>
               else m))"

definition reap_scan :: "instant \<Rightarrow> string list \<Rightarrow> Manager \<Rightarrow> Manager" where
  "reap_scan now order m = fold (reap_visit (now - idleTTL m)) order (m\<lparr>victims := []\<rparr>)"

text \<open>One turn of the loop over the victims, with the result of \<open>Delete\<close>.\<close>

definition reap_delete :: "instant \<Rightarrow> err option \<Rightarrow> Manager \<Rightarrow> Manager" where
  "reap_delete now res m =
     (case victims m of
        [] \<Rightarrow> m
      | r # rs \<Rightarrow>
          (let m1 = m\<lparr>victims := rs\<rparr>
           in case heap m r of
                None \<Rightarrow> m1
              | Some s \<Rightarrow>
                  (case res of
                     Some e \<Rightarrow> m1\<lparr>mmetrics := BackendDeleteFailure (mmetrics m)\<rparr>
                   | None \<Rightarrow>
                       m1\<lparr>mmetrics := ObserveLifetime (backendKind m) (now - created s)
                           (ObserveIdle (now - LastActive s)
                             (SessionReaped ''idle'' (mmetrics m)))\<rparr>)))"

text \<open>The whole loop over the victims, one \<open>Delete\<close> of the backend after the other.\<close>

fun reap_deletes ::
  "instant \<Rightarrow> (string \<Rightarrow> ('w, err option) io) \<Rightarrow> nat \<Rightarrow> Manager \<Rightarrow> 'w \<Rightarrow> Manager \<times> 'w" where
  "reap_deletes now del 0 m w = (m, w)"
| "reap_deletes now del (Suc n) m w =
     (case victims m of
        [] \<Rightarrow> (m, w)
      | r # _ \<Rightarrow>
          (let pid = (case heap m r of None \<Rightarrow> '''' | Some s \<Rightarrow> sID s);
               (res, w1) = del pid w
           in reap_deletes now del n (reap_delete now res m) w1))"

definition reapOnce ::
  "instant \<Rightarrow> instant \<Rightarrow> string list \<Rightarrow> (string \<Rightarrow> ('w, err option) io) \<Rightarrow> Manager \<Rightarrow> 'w \<Rightarrow> Manager \<times> 'w" where
  "reapOnce now now' order del m w =
     (let m1 = reap_scan now order m in reap_deletes now' del (length (victims m1)) m1 w)"

text \<open>\<open>Refresh\<close> up to its call of \<open>Get\<close>, and what it does next.\<close>

datatype refresh_action = ReturnCached sref | GetUncounted | GetCounted

definition Refresh_enter :: "instant \<Rightarrow> instant \<Rightarrow> sref \<Rightarrow> string \<Rightarrow> Manager \<Rightarrow> refresh_action \<times> Manager" where
  "Refresh_enter now now' stale pid m =
     (if (case lastRefresh m pid of None \<Rightarrow> False | Some prev \<Rightarrow> now - prev < refreshCooldown)
      then (case sessions m pid of
              Some cur \<Rightarrow> (ReturnCached cur, m)
            | None \<Rightarrow> (GetUncounted, m))
      else
        (let m1 = (if sessions m pid = Some stale then m\<lparr>sessions := (sessions m)(pid := None)\<rparr> else m)
         in (GetCounted, m1\<lparr>lastRefresh := (lastRefresh m)(pid \<mapsto> now')\<rparr>)))"

definition Refresh ::
  "waiter \<Rightarrow> instant \<Rightarrow> instant \<Rightarrow> sref \<Rightarrow> string \<Rightarrow> Manager \<Rightarrow> sref result \<times> Manager" where
  "Refresh wait now now' stale pid m =
     (case Refresh_enter now now' stale pid m of
        (ReturnCached cur, m1) \<Rightarrow> (Inr cur, m1)
      | (GetUncounted, m1) \<Rightarrow> Get wait now' now' pid m1
      | (GetCounted, m1) \<Rightarrow>
          (case Get wait now' now' pid m1 of
             (Inl e, m2) \<Rightarrow>
               (Inl e, m2\<lparr>mmetrics := SessionRefreshed (backendKind m2) OutcomeFailure (mmetrics m2)\<rparr>)
           | (Inr r, m2) \<Rightarrow>
               (Inr r, m2\<lparr>mmetrics := SessionRefreshed (backendKind m2) OutcomeSuccess (mmetrics m2)\<rparr>)))"

section \<open>Interleavings\<close>

text \<open>
  One critical section of some goroutine.  \<open>ens pid res\<close> says that the backend's \<open>Ensure\<close> can
  return \<open>res\<close> for \<open>pid\<close>.  \<open>Refresh\<close> is called with a session a \<open>Get\<close> returned, hence one
  that is ready and has no error.
\<close>

inductive mgr_step :: "(string \<Rightarrow> Endpoint result \<Rightarrow> bool) \<Rightarrow> Manager \<Rightarrow> Manager \<Rightarrow> bool"
  for ens :: "string \<Rightarrow> Endpoint result \<Rightarrow> bool" where
  get_enter: "mgr_step ens m (snd (Get_enter c a pid m))"
| get_ready: "heap m r = Some s \<Longrightarrow> ready s \<Longrightarrow> mgr_step ens m (snd (Get_ready (sID s) r m))"
| resolved: "r \<in> set (resolving m) \<Longrightarrow> heap m r = Some s \<Longrightarrow> ens (sID s) res \<Longrightarrow>
    resolve r t t' res m = Some m' \<Longrightarrow> mgr_step ens m m'"
| reconcile: "mgr_step ens m (snd (Reconcile now listed m))"
| scan: "victims m = [] \<Longrightarrow> distinct order \<Longrightarrow> set order = dom (sessions m) \<Longrightarrow>
    mgr_step ens m (reap_scan now order m)"
| deleted: "mgr_step ens m (reap_delete now res m)"
| refresh: "heap m r = Some s \<Longrightarrow> ready s \<Longrightarrow> serr s = None \<Longrightarrow>
    mgr_step ens m (snd (Refresh_enter t t' r (sID s) m))"
| counted: "mgr_step ens m (m\<lparr>mmetrics := mx\<rparr>)"
| active: "mgr_step ens m (upd_session r (MarkActive now) m)"
| opened: "mgr_step ens m (upd_session r (ConnOpened now) m)"
| closed: "mgr_step ens m (upd_session r (ConnClosed now) m)"

inductive mgr_reach :: "(string \<Rightarrow> Endpoint result \<Rightarrow> bool) \<Rightarrow> Manager \<Rightarrow> bool"
  for ens :: "string \<Rightarrow> Endpoint result \<Rightarrow> bool" where
  init: "mgr_reach ens (New_Manager kind timeout ttl mx)"
| step: "mgr_reach ens m \<Longrightarrow> mgr_step ens m m' \<Longrightarrow> mgr_reach ens m'"

end
