(* ===== verification/Session_Inv.thy ===== *)
theory Session_Inv
  imports Session
begin

text \<open>
  The invariant of the session manager and its preservation by every critical section, in the
  order of the operations of \<open>Session\<close>; \<open>reach_inv\<close> carries it to every reachable state.
\<close>

section \<open>The invariant\<close>

text \<open>
  What holds of a session object: until its channel is closed it is unpublished (no endpoint, no
  error), its resolution is in flight and it is the current session of its id; once closed it
  carries a result of \<open>Ensure\<close> for its own id, with a zero endpoint if that is an error.
\<close>

definition outcome :: "Session \<Rightarrow> Endpoint result" where
  "outcome s = (case serr s of None \<Rightarrow> Inr (sEndpoint s) | Some e \<Rightarrow> Inl e)"

definition session_ok :: "(string \<Rightarrow> Endpoint result \<Rightarrow> bool) \<Rightarrow> Manager \<Rightarrow> sref \<Rightarrow> Session \<Rightarrow> bool" where
  "session_ok ens m r s \<longleftrightarrow>
     r < fresh m \<and>
     (ready s \<longrightarrow> ens (sID s) (outcome s)) \<and>
     (serr s \<noteq> None \<longrightarrow> sEndpoint s = zero_Endpoint) \<and>
     (\<not> ready s \<longrightarrow> r \<in> set (resolving m) \<and> sessions m (sID s) = Some r \<and>
           serr s = None \<and> sEndpoint s = zero_Endpoint)"

definition mgr_inv :: "(string \<Rightarrow> Endpoint result \<Rightarrow> bool) \<Rightarrow> Manager \<Rightarrow> bool" where
  "mgr_inv ens m \<longleftrightarrow>
     (\<forall>r s. heap m r = Some s \<longrightarrow> session_ok ens m r s) \<and>
     (\<forall>pid r. sessions m pid = Some r \<longrightarrow> (\<exists>s. heap m r = Some s \<and> sID s = pid)) \<and>
     distinct (resolving m) \<and>
     (\<forall>r \<in> set (resolving m). \<exists>s. heap m r = Some s \<and> \<not> ready s) \<and>
     (\<forall>r \<in> set (victims m). \<exists>s. heap m r = Some s \<and> ready s) \<and>
     finite (dom (sessions m))"

lemma mgr_invI:
  assumes "\<And>r s. heap m r = Some s \<Longrightarrow> session_ok ens m r s"
    and "\<And>pid r. sessions m pid = Some r \<Longrightarrow> \<exists>s. heap m r = Some s \<and> sID s = pid"
    and "distinct (resolving m)"
    and "\<And>r. r \<in> set (resolving m) \<Longrightarrow> \<exists>s. heap m r = Some s \<and> \<not> ready s"
    and "\<And>r. r \<in> set (victims m) \<Longrightarrow> \<exists>s. heap m r = Some s \<and> ready s"
    and "finite (dom (sessions m))"
  shows "mgr_inv ens m"
  using assms by (simp add: mgr_inv_def)

lemma inv_heap: "mgr_inv ens m \<Longrightarrow> heap m r = Some s \<Longrightarrow> session_ok ens m r s"
  by (simp add: mgr_inv_def)

lemma inv_sessions: "mgr_inv ens m \<Longrightarrow> sessions m pid = Some r \<Longrightarrow> \<exists>s. heap m r = Some s \<and> sID s = pid"
  by (simp add: mgr_inv_def)

lemma inv_resolving: "mgr_inv ens m \<Longrightarrow> r \<in> set (resolving m) \<Longrightarrow> \<exists>s. heap m r = Some s \<and> \<not> ready s"
  by (simp add: mgr_inv_def)

lemma inv_victims: "mgr_inv ens m \<Longrightarrow> r \<in> set (victims m) \<Longrightarrow> \<exists>s. heap m r = Some s \<and> ready s"
  by (simp add: mgr_inv_def)

lemma inv_distinct: "mgr_inv ens m \<Longrightarrow> distinct (resolving m)"
  by (simp add: mgr_inv_def)

lemma inv_finite: "mgr_inv ens m \<Longrightarrow> finite (dom (sessions m))"
  by (simp add: mgr_inv_def)

lemma inv_fresh: "mgr_inv ens m \<Longrightarrow> heap m r = Some s \<Longrightarrow> r < fresh m"
  by (drule (1) inv_heap) (simp add: session_ok_def)

lemma inv_fresh_None: "mgr_inv ens m \<Longrightarrow> heap m (fresh m) = None"
  using inv_fresh by (cases "heap m (fresh m)") blast+

lemma inv_unready_current:
  "mgr_inv ens m \<Longrightarrow> heap m r = Some s \<Longrightarrow> \<not> ready s \<Longrightarrow> sessions m (sID s) = Some r"
  by (drule (1) inv_heap) (simp add: session_ok_def)

lemma inv_init [inv_intros]: "mgr_inv ens (New_Manager kind timeout ttl mx)"
  by (simp add: mgr_inv_def New_Manager_def)

text \<open>Fields the invariant does not read.\<close>

lemma inv_frame:
  assumes "mgr_inv ens m"
    and "heap m' = heap m" "sessions m' = sessions m" "fresh m' = fresh m"
    and "resolving m' = resolving m" "set (victims m') \<subseteq> set (victims m)"
  shows "mgr_inv ens m'"
  using assms unfolding mgr_inv_def session_ok_def by (simp add: subset_iff)

lemma inv_metrics [inv_intros]: "mgr_inv ens m \<Longrightarrow> mgr_inv ens (m\<lparr>mmetrics := mx\<rparr>)"
  by (erule inv_frame) simp_all

lemma inv_lastRefresh [inv_intros]: "mgr_inv ens m \<Longrightarrow> mgr_inv ens (m\<lparr>lastRefresh := lr\<rparr>)"
  by (erule inv_frame) simp_all

lemma inv_start_session [inv_intros]:
  assumes inv: "mgr_inv ens m" and new: "sessions m pid = None"
  shows "mgr_inv ens (snd (start_session pid c a m))"
proof (rule mgr_invI)
  fix r s
  assume h: "heap (snd (start_session pid c a m)) r = Some s"
  show "session_ok ens (snd (start_session pid c a m)) r s"
  proof (cases "r = fresh m")
    case True
    with h show ?thesis
      by (auto simp: start_session_def session_ok_def)
  next
    case False
    with h have "heap m r = Some s" by (simp add: start_session_def)
    with inv have "session_ok ens m r s" by (rule inv_heap)
    with new show ?thesis
      by (auto simp: start_session_def session_ok_def split: if_splits)
  qed
next
  show "distinct (resolving (snd (start_session pid c a m)))"
    using inv_distinct [OF inv] inv_resolving [OF inv, of "fresh m"] inv_fresh_None [OF inv]
    by (auto simp: start_session_def)
  show "finite (dom (sessions (snd (start_session pid c a m))))"
    using inv_finite [OF inv] by (simp add: start_session_def)
qed (use inv_sessions [OF inv] inv_resolving [OF inv] inv_victims [OF inv] inv_fresh [OF inv] in
    \<open>fastforce simp: start_session_def split: if_splits\<close>)+

lemma inv_reconcile_ids [inv_intros]: "mgr_inv ens m \<Longrightarrow> mgr_inv ens (reconcile_ids now ids m)"
  by (induction ids arbitrary: m) (auto split: option.splits intro: inv_start_session)

lemma inv_Get_enter [inv_intros]: "mgr_inv ens m \<Longrightarrow> mgr_inv ens (snd (Get_enter c a pid m))"
  by (auto simp: Get_enter_def split: option.splits intro: inv_start_session)

text \<open>Dropping the entry of an id is safe when its session is ready.\<close>

lemma inv_drop [inv_intros]:
  assumes inv: "mgr_inv ens m" and r: "sessions m pid = Some r" "heap m r = Some s" "ready s"
  shows "mgr_inv ens (m\<lparr>sessions := (sessions m)(pid := None)\<rparr>)"
proof (rule mgr_invI)
  fix r' s'
  assume h: "heap (m\<lparr>sessions := (sessions m)(pid := None)\<rparr>) r' = Some s'"
  then have "session_ok ens m r' s'" using inv by (simp add: inv_heap)
  moreover have "\<not> ready s' \<Longrightarrow> sID s' \<noteq> pid"
    using inv_unready_current [OF inv, of r' s'] h r by auto
  ultimately show "session_ok ens (m\<lparr>sessions := (sessions m)(pid := None)\<rparr>) r' s'"
    by (auto simp: session_ok_def)
next
  show "finite (dom (sessions (m\<lparr>sessions := (sessions m)(pid := None)\<rparr>)))"
    using inv_finite [OF inv] by (simp add: map_upd_None_dom)
qed (use inv inv_sessions inv_distinct inv_resolving inv_victims in \<open>auto split: if_splits\<close>)

lemma inv_Get_ready [inv_intros]:
  assumes "mgr_inv ens m" and "heap m r = Some s" and "ready s"
  shows "mgr_inv ens (snd (Get_ready (sID s) r m))"
  using assms by (auto simp: Get_ready_def split: option.splits intro: inv_drop)

text \<open>Updates of a session that keep its id, its channel and its published outcome.\<close>

lemma inv_upd_session [inv_intros]:
  assumes inv: "mgr_inv ens m"
    and f: "\<And>s. sID (f s) = sID s" "\<And>s. ready (f s) = ready s"
      "\<And>s. serr (f s) = serr s" "\<And>s. sEndpoint (f s) = sEndpoint s"
  shows "mgr_inv ens (upd_session r f m)"
proof (cases "heap m r")
  case None
  with inv show ?thesis by (simp add: upd_session_def)
next
  case (Some s)
  let ?m = "m\<lparr>heap := (heap m)(r \<mapsto> f s)\<rparr>"
  have o: "outcome (f s) = outcome s"
    by (simp add: outcome_def f cong: option.case_cong)
  have "mgr_inv ens ?m"
  proof (rule mgr_invI)
    fix r' s'
    assume "heap ?m r' = Some s'"
    then show "session_ok ens ?m r' s'"
      using inv_heap [OF inv, of r'] inv_heap [OF inv Some] f o
      by (auto simp: session_ok_def split: if_splits)
  next
    fix pid r'
    assume "sessions ?m pid = Some r'"
    then show "\<exists>s. heap ?m r' = Some s \<and> sID s = pid"
      using inv_sessions [OF inv, of pid r'] Some f by auto
  next
    fix r' assume "r' \<in> set (resolving ?m)"
    then show "\<exists>s. heap ?m r' = Some s \<and> \<not> ready s"
      using inv_resolving [OF inv, of r'] Some f by auto
  next
    fix r' assume "r' \<in> set (victims ?m)"
    then show "\<exists>s. heap ?m r' = Some s \<and> ready s"
      using inv_victims [OF inv, of r'] Some f by auto
  qed (use inv inv_distinct inv_finite in auto)
  with Some show ?thesis by (simp add: upd_session_def)
qed

lemma inv_active [inv_intros]: "mgr_inv ens m \<Longrightarrow> mgr_inv ens (upd_session r (MarkActive now) m)"
  by (erule inv_upd_session) (simp_all add: MarkActive_def)

lemma inv_opened [inv_intros]: "mgr_inv ens m \<Longrightarrow> mgr_inv ens (upd_session r (ConnOpened now) m)"
  by (erule inv_upd_session) (simp_all add: ConnOpened_def MarkActive_def)

lemma inv_closed [inv_intros]: "mgr_inv ens m \<Longrightarrow> mgr_inv ens (upd_session r (ConnClosed now) m)"
  by (erule inv_upd_session) (simp_all add: ConnClosed_def MarkActive_def)

text \<open>Publishing an outcome and closing the channel.\<close>

definition publish :: "Endpoint result \<Rightarrow> Session \<Rightarrow> Session" where
  "publish res s = (case res of Inl e \<Rightarrow> s\<lparr>serr := Some e, ready := True\<rparr>
                              | Inr ep \<Rightarrow> s\<lparr>sEndpoint := ep, ready := True\<rparr>)"

lemma publish_simps [simp]: "sID (publish res s) = sID s" "ready (publish res s)"
  by (simp_all add: publish_def split: sum.splits)

lemma resolve_effect:
  assumes "heap m r = Some s" and "\<not> ready s"
  shows "\<exists>mx. resolve r t t' res m = Some (m\<lparr>mmetrics := mx,
           heap := (heap m)(r \<mapsto> publish res s), resolving := remove1 r (resolving m)\<rparr>)"
  using assms
  by (cases res)
    (auto simp: resolve_def close_ready_def upd_session_def record_failure_def record_success_def
      publish_def intro!: exI)

lemma resolve_panics: "heap m r = Some s \<Longrightarrow> ready s \<Longrightarrow> resolve r t t' res m = None"
  by (cases res)
    (auto simp: resolve_def close_ready_def upd_session_def record_failure_def record_success_def)

lemma inv_publish:
  assumes inv: "mgr_inv ens m" and s: "heap m r = Some s" "\<not> ready s" and ens: "ens (sID s) res"
  shows "mgr_inv ens (m\<lparr>heap := (heap m)(r \<mapsto> publish res s), resolving := remove1 r (resolving m)\<rparr>)"
    (is "mgr_inv ens ?m")
proof (rule mgr_invI)
  note ok = inv_heap [OF inv s(1)]
  fix r' s'
  assume h: "heap ?m r' = Some s'"
  show "session_ok ens ?m r' s'"
  proof (cases "r' = r")
    case True
    with h ok s ens show ?thesis
      by (cases res) (auto simp: session_ok_def publish_def outcome_def)
  next
    case False
    with h inv_heap [OF inv, of r' s'] show ?thesis
      by (auto simp: session_ok_def)
  qed
next
  fix pid r'
  assume "sessions ?m pid = Some r'"
  then show "\<exists>s. heap ?m r' = Some s \<and> sID s = pid"
    using inv_sessions [OF inv, of pid r'] s by auto
next
  show "distinct (resolving ?m)" using inv_distinct [OF inv] by simp
next
  fix r' assume "r' \<in> set (resolving ?m)"
  then show "\<exists>s. heap ?m r' = Some s \<and> \<not> ready s"
    using inv_resolving [OF inv, of r'] inv_distinct [OF inv] by auto
next
  fix r' assume "r' \<in> set (victims ?m)"
  then show "\<exists>s. heap ?m r' = Some s \<and> ready s"
    using inv_victims [OF inv, of r'] by auto
next
  show "finite (dom (sessions ?m))" using inv_finite [OF inv] by simp
qed

lemma inv_resolve [inv_intros]:
  assumes inv: "mgr_inv ens m" and "r \<in> set (resolving m)" and s: "heap m r = Some s"
    and "ens (sID s) res" and res: "resolve r t t' res m = Some m'"
  shows "mgr_inv ens m'"
proof -
  have "\<not> ready s" using resolve_panics [OF s] res by force
  with resolve_effect [OF s this, of t t' res] res obtain mx where
    m': "m' = m\<lparr>mmetrics := mx, heap := (heap m)(r \<mapsto> publish res s), resolving := remove1 r (resolving m)\<rparr>"
    by auto
  have "mgr_inv ens (m\<lparr>heap := (heap m)(r \<mapsto> publish res s), resolving := remove1 r (resolving m)\<rparr>)"
    using inv s \<open>\<not> ready s\<close> assms(4) by (rule inv_publish)
  then show ?thesis unfolding m' by (rule inv_frame) simp_all
qed

text \<open>The reaper.\<close>

lemma inv_reap_visit [inv_intros]: "mgr_inv ens m \<Longrightarrow> mgr_inv ens (reap_visit cutoff pid m)"
proof (cases "sessions m pid")
  case None
  assume "mgr_inv ens m"
  with None show ?thesis by (simp add: reap_visit_def)
next
  case (Some r)
  assume inv: "mgr_inv ens m"
  then obtain s where s: "heap m r = Some s" using inv_sessions Some by blast
  show ?thesis
  proof (cases "reapable cutoff s")
    case False
    with Some s inv show ?thesis by (simp add: reap_visit_def)
  next
    case True
    then have "ready s" by (simp add: reapable_def)
    with inv Some s have d: "mgr_inv ens (m\<lparr>sessions := (sessions m)(pid := None)\<rparr>)"
      by (rule inv_drop)
    have "mgr_inv ens (m\<lparr>victims := victims m @ [r], sessions := (sessions m)(pid := None),
        lastRefresh := (lastRefresh m)(pid := None)\<rparr>)"
      using d s \<open>ready s\<close> unfolding mgr_inv_def session_ok_def by auto
    with Some s True show ?thesis by (simp add: reap_visit_def)
  qed
qed

lemma inv_reap_fold [inv_intros]: "mgr_inv ens m \<Longrightarrow> mgr_inv ens (fold (reap_visit cutoff) order m)"
  by (induction order arbitrary: m) (auto intro: inv_reap_visit)

lemma inv_reap_scan [inv_intros]: "mgr_inv ens m \<Longrightarrow> mgr_inv ens (reap_scan now order m)"
  unfolding reap_scan_def by (rule inv_reap_fold, erule inv_frame) simp_all

lemma inv_reap_delete [inv_intros]: "mgr_inv ens m \<Longrightarrow> mgr_inv ens (reap_delete now res m)"
  by (erule inv_frame) (auto simp: reap_delete_def Let_def split: list.splits option.splits)

lemma inv_Refresh_enter [inv_intros]:
  assumes inv: "mgr_inv ens m" and s: "heap m r = Some s" "ready s"
  shows "mgr_inv ens (snd (Refresh_enter t t' r (sID s) m))"
proof -
  have "mgr_inv ens (m\<lparr>sessions := (sessions m)(sID s := None)\<rparr>)" if "sessions m (sID s) = Some r"
    using inv that s by (rule inv_drop)
  then have "mgr_inv ens ((m\<lparr>sessions := (sessions m)(sID s := None)\<rparr>)\<lparr>lastRefresh := lr\<rparr>)"
    if "sessions m (sID s) = Some r" for lr
    using that by (blast intro: inv_lastRefresh)
  with inv show ?thesis
    by (auto simp: Refresh_enter_def Let_def split: option.splits intro: inv_lastRefresh)
qed

lemma inv_step: "mgr_step ens m m' \<Longrightarrow> mgr_inv ens m \<Longrightarrow> mgr_inv ens m'"
proof (induction rule: mgr_step.induct)
  case (reconcile m now listed)
  then show ?case by (auto simp: Reconcile_def split: sum.splits intro: inv_intros)
qed (auto intro: inv_intros)

lemma reach_inv: "mgr_reach ens m \<Longrightarrow> mgr_inv ens m"
  by (induction rule: mgr_reach.induct) (auto intro: inv_init inv_step)

end
