(* ===== verification/Session_Get.thy ===== *)
theory Session_Get
  imports Session_Inv
begin

text \<open>
  Resolution and \<open>Get\<close>: single flight, no double close, where endpoints come from, what a
  successful \<open>Get\<close> returns under interference, and the retry after a failed \<open>Ensure\<close>.
\<close>

section \<open>What a step keeps of a session object\<close>

definition keeps :: "Session \<Rightarrow> Session \<Rightarrow> bool" where
  "keeps s s' \<longleftrightarrow> sID s' = sID s \<and> (ready s \<longrightarrow> ready s' \<and> outcome s' = outcome s)"

definition heap_keeps :: "Manager \<Rightarrow> Manager \<Rightarrow> bool" where
  "heap_keeps m m' \<longleftrightarrow> (\<forall>r s. heap m r = Some s \<longrightarrow> (\<exists>s'. heap m' r = Some s' \<and> keeps s s'))"

lemma keeps_refl [simp]: "keeps s s"
  by (simp add: keeps_def)

lemma keeps_trans: "keeps s t \<Longrightarrow> keeps t u \<Longrightarrow> keeps s u"
  by (auto simp: keeps_def)

lemma heap_keeps_same: "heap m' = heap m \<Longrightarrow> heap_keeps m m'"
  by (simp add: heap_keeps_def)

lemma heap_keeps_trans: "heap_keeps m n \<Longrightarrow> heap_keeps n k \<Longrightarrow> heap_keeps m k"
  unfolding heap_keeps_def by (meson keeps_trans)

lemma heap_keeps_upd:
  "heap m' = (heap m)(r \<mapsto> s') \<Longrightarrow> heap m r = Some s \<Longrightarrow> keeps s s' \<Longrightarrow> heap_keeps m m'"
  by (simp add: heap_keeps_def)

lemma heap_keeps_new: "heap m' = (heap m)(r \<mapsto> s') \<Longrightarrow> heap m r = None \<Longrightarrow> heap_keeps m m'"
  by (auto simp: heap_keeps_def)

lemma heap_keeps_upd_session: "(\<And>s. keeps s (f s)) \<Longrightarrow> heap_keeps m (upd_session r f m)"
  by (auto simp: upd_session_def heap_keeps_def split: option.splits)

lemma keeps_activity [simp]:
  "keeps s (MarkActive now s)" "keeps s (ConnOpened now s)" "keeps s (ConnClosed now s)"
  by (simp_all add: keeps_def outcome_def MarkActive_def ConnOpened_def ConnClosed_def
      split: option.splits)

lemma heap_keeps_start: "mgr_inv ens m \<Longrightarrow> heap_keeps m (snd (start_session pid c a m))"
  using inv_fresh_None [of ens m] by (intro heap_keeps_new) (auto simp: start_session_def)

lemma heap_keeps_reconcile: "mgr_inv ens m \<Longrightarrow> heap_keeps m (reconcile_ids now ids m)"
proof (induction ids arbitrary: m)
  case Nil
  then show ?case by (simp add: heap_keeps_same)
next
  case (Cons pid ids)
  show ?case
  proof (cases "sessions m pid")
    case None
    with Cons.prems have "mgr_inv ens (snd (start_session pid now now m))"
      by (rule inv_start_session)
    from Cons.IH [OF this] heap_keeps_start [OF Cons.prems] None show ?thesis
      by (auto intro: heap_keeps_trans)
  next
    case Some
    with Cons show ?thesis by simp
  qed
qed

lemma heap_reap_visit [simp]: "heap (reap_visit cutoff pid m) = heap m"
  by (simp add: reap_visit_def split: option.splits)

lemma heap_reap_fold [simp]: "heap (fold (reap_visit cutoff) order m) = heap m"
  by (induction order arbitrary: m) simp_all

lemma heap_reap_scan [simp]: "heap (reap_scan now order m) = heap m"
  by (simp add: reap_scan_def)

lemma heap_reap_delete [simp]: "heap (reap_delete now res m) = heap m"
  by (simp add: reap_delete_def Let_def split: list.splits option.splits)

lemma heap_Refresh_enter [simp]: "heap (snd (Refresh_enter t t' r pid m)) = heap m"
  by (simp add: Refresh_enter_def Let_def split: option.splits)

lemma heap_Get_ready [simp]: "heap (snd (Get_ready pid r m)) = heap m"
  by (simp add: Get_ready_def split: option.splits)

lemma step_keeps: "mgr_step ens m m' \<Longrightarrow> mgr_inv ens m \<Longrightarrow> heap_keeps m m'"
proof (induction rule: mgr_step.induct)
  case (get_enter m c a pid)
  then show ?case
    by (auto simp: Get_enter_def heap_keeps_same intro: heap_keeps_start split: option.splits)
next
  case (resolved r m s res t t' m')
  then have "\<not> ready s" using resolve_panics [of m r s t t' res] by auto
  moreover from resolve_effect [OF resolved(2) this, of t t' res] resolved(4)
  have "heap m' = (heap m)(r \<mapsto> publish res s)" by auto
  ultimately show ?case using resolved(2)
    by (intro heap_keeps_upd) (auto simp: keeps_def)
next
  case (reconcile m now listed)
  then show ?case
    by (auto simp: Reconcile_def heap_keeps_same intro: heap_keeps_reconcile split: sum.splits)
qed (auto intro: heap_keeps_same heap_keeps_upd_session)

lemma steps_keep: "(mgr_step ens)\<^sup>*\<^sup>* m m' \<Longrightarrow> mgr_inv ens m \<Longrightarrow> heap_keeps m m' \<and> mgr_inv ens m'"
  by (induction rule: rtranclp_induct)
    (auto simp: heap_keeps_same intro: heap_keeps_trans step_keeps inv_step)

lemma steps_reach: "(mgr_step ens)\<^sup>*\<^sup>* m m' \<Longrightarrow> mgr_reach ens m \<Longrightarrow> mgr_reach ens m'"
  by (induction rule: rtranclp_induct) (auto intro: mgr_reach.step)

section \<open>Resolution\<close>

text \<open>
  C6.  Single flight: in every interleaving of the manager's critical sections at most one
  \<open>Ensure\<close> call is in flight for a playwright-id, as the \<open>Backend\<close> interface promises its
  implementations.
\<close>

theorem ensure_singleflight:
  assumes "mgr_reach ens m"
  shows "length (filter (\<lambda>r. map_option sID (heap m r) = Some pid) (resolving m)) \<le> 1"
proof -
  have inv: "mgr_inv ens m" using assms by (rule reach_inv)
  let ?fl = "filter (\<lambda>r. map_option sID (heap m r) = Some pid) (resolving m)"
  have "distinct ?fl" using inv_distinct [OF inv] by simp
  moreover have "set ?fl \<subseteq> {the (sessions m pid)}"
    using inv_resolving [OF inv] inv_unready_current [OF inv] by fastforce
  ultimately show ?thesis
    by (metis card_mono distinct_card finite.emptyI finite.insertI is_singletonI is_singleton_altdef)
qed

lemma reach_one_flight:
  "mgr_reach ens (snd (Get_enter 0 0 ''a'' (New_Manager ''sandboxclaim'' 30 600 None)))"
  by (rule mgr_reach.step [OF mgr_reach.init mgr_step.get_enter])

theorem ensure_singleflight_witness:
  "length (filter (\<lambda>r. map_option sID
      (heap (snd (Get_enter 0 0 ''a'' (New_Manager ''sandboxclaim'' 30 600 None))) r) = Some ''a'')
    (resolving (snd (Get_enter 0 0 ''a'' (New_Manager ''sandboxclaim'' 30 600 None))))) \<le> 1"
  by (rule ensure_singleflight [OF reach_one_flight [of "\<lambda>_ _. True"]])

text \<open>
  A \<open>resolve\<close> in flight never panics by closing a closed channel, and a session whose
  channel is still open always has a \<open>resolve\<close> in flight that will close it, so no caller of
  \<open>Get\<close> waits on a channel nobody closes.
\<close>

theorem resolve_never_panics:
  assumes "mgr_reach ens m"
  shows "(\<forall>r \<in> set (resolving m). \<forall>t t' res. resolve r t t' res m \<noteq> None) \<and>
    (\<forall>r s. heap m r = Some s \<and> \<not> ready s \<longrightarrow> r \<in> set (resolving m))"
proof -
  have inv: "mgr_inv ens m" using assms by (rule reach_inv)
  have "resolve r t t' res m \<noteq> None" if "r \<in> set (resolving m)" for r t t' res
    using inv_resolving [OF inv that] resolve_effect [of m r _ t t' res] by fastforce
  moreover have "r \<in> set (resolving m)" if "heap m r = Some s" "\<not> ready s" for r s
    using inv_heap [OF inv that(1)] that(2) by (simp add: session_ok_def)
  ultimately show ?thesis by blast
qed

theorem resolve_never_panics_witness:
  "resolve 0 5 9 (Inl ErrDeadline)
     (snd (Get_enter 0 0 ''a'' (New_Manager ''sandboxclaim'' 30 600 None))) \<noteq> None"
proof -
  have "0 \<in> set (resolving (snd (Get_enter 0 0 ''a'' (New_Manager ''sandboxclaim'' 30 600 None))))"
    by (simp add: Get_enter_def New_Manager_def start_session_def)
  with resolve_never_panics [OF reach_one_flight [of "\<lambda>_ _. True"]] show ?thesis by blast
qed

text \<open>
  Provenance of endpoints: in every reachable state the session stored for a playwright-id
  belongs to that id, and once its channel is closed without an error its endpoint is a result
  that \<open>Ensure\<close> gave for that very id, never for another one.
\<close>

theorem session_endpoint_provenance:
  assumes "mgr_reach ens m" and "sessions m pid = Some r" and "heap m r = Some s"
  shows "sID s = pid \<and> (ready s \<and> serr s = None \<longrightarrow> ens pid (Inr (sEndpoint s)))"
proof -
  have inv: "mgr_inv ens m" using assms(1) by (rule reach_inv)
  from inv_sessions [OF inv assms(2)] assms(3) have "sID s = pid" by auto
  with inv_heap [OF inv assms(3)] show ?thesis
    by (auto simp: session_ok_def outcome_def)
qed

theorem session_endpoint_provenance_witness:
  "mgr_reach (\<lambda>pid res. res = Inr zero_Endpoint \<and> pid = ''a'')
     (snd (Get_enter 0 0 ''a'' (New_Manager ''sandboxclaim'' 30 600 None))) \<and>
   (\<exists>s. heap (snd (Get_enter 0 0 ''a'' (New_Manager ''sandboxclaim'' 30 600 None))) 0 = Some s \<and>
     sID s = ''a'')"
proof -
  let ?m = "snd (Get_enter 0 0 ''a'' (New_Manager ''sandboxclaim'' 30 600 None))"
  have "sessions ?m ''a'' = Some 0" and "heap ?m 0 \<noteq> None"
    by (simp_all add: Get_enter_def New_Manager_def start_session_def)
  with session_endpoint_provenance [OF reach_one_flight] reach_one_flight show ?thesis by blast
qed

section \<open>Get\<close>

text \<open>
  What a caller may rely on while it blocks in the \<open>select\<close> of \<open>Get\<close>: other goroutines only run
  critical sections of the manager, and the ready case fires only on a closed channel.
\<close>

definition waiter_ok :: "(string \<Rightarrow> Endpoint result \<Rightarrow> bool) \<Rightarrow> waiter \<Rightarrow> bool" where
  "waiter_ok ens wait \<longleftrightarrow>
     (\<forall>r m f m'. wait r m = (f, m') \<longrightarrow> (mgr_step ens)\<^sup>*\<^sup>* m m' \<and>
        (f = None \<longrightarrow> (\<exists>s. heap m' r = Some s \<and> ready s)))"

lemma Get_enter_current:
  assumes "mgr_inv ens m" and "Get_enter c a pid m = (r, m1)"
  shows "\<exists>s. heap m1 r = Some s \<and> sID s = pid"
  using assms inv_sessions [of ens m pid r]
  by (auto simp: Get_enter_def start_session_def split: option.splits)

lemma Get_ready_Inr: "Get_ready pid r m = (Inr r', m') \<Longrightarrow> heap m r = Some s \<Longrightarrow> r' = r \<and> m' = m \<and> serr s = None"
  by (auto simp: Get_ready_def split: option.splits)

lemma Get_Inr:
  assumes "mgr_reach ens m" and "waiter_ok ens wait" and "Get wait c a pid m = (Inr r, m')"
  shows "mgr_reach ens m' \<and>
    (\<exists>s. heap m' r = Some s \<and> sID s = pid \<and> ready s \<and> serr s = None \<and> ens pid (Inr (sEndpoint s)))"
proof -
  obtain r1 m1 where e: "Get_enter c a pid m = (r1, m1)" by fastforce
  obtain f m2 where w: "wait r1 m1 = (f, m2)" by fastforce
  from assms(3) e w have f: "f = None" and g: "Get_ready pid r1 m2 = (Inr r, m')"
    by (auto simp: Get_def split: option.splits)
  from e have "mgr_step ens m m1" using mgr_step.get_enter [of ens m c a pid] by simp
  with assms(1) have reach1: "mgr_reach ens m1" by (rule mgr_reach.step)
  from assms(2) w f obtain s where st: "(mgr_step ens)\<^sup>*\<^sup>* m1 m2"
    and s: "heap m2 r1 = Some s" "ready s" unfolding waiter_ok_def by metis
  have reach2: "mgr_reach ens m2" using st reach1 by (rule steps_reach)
  from Get_ready_Inr [OF g s(1)] have eq: "r = r1" "m' = m2" and no: "serr s = None" by auto
  from Get_enter_current [OF reach_inv [OF assms(1)] e] steps_keep [OF st reach_inv [OF reach1]] s
  have "sID s = pid" unfolding heap_keeps_def keeps_def by fastforce
  moreover have "ens (sID s) (outcome s)"
    using inv_heap [OF reach_inv [OF reach2] s(1)] s(2) by (simp add: session_ok_def)
  ultimately show ?thesis using reach2 s no eq by (auto simp: outcome_def)
qed

text \<open>
  C8.  When \<open>Get\<close> succeeds, under any interleaving with other goroutines, it returns a session of
  the requested playwright-id whose channel is closed, which has no error, and whose endpoint is
  a result of \<open>Ensure\<close> for that id.
\<close>

theorem Get_returns_resolved_session:
  assumes "mgr_reach ens m" and "waiter_ok ens wait" and "Get wait c a pid m = (Inr r, m')"
  shows "\<exists>s. heap m' r = Some s \<and> sID s = pid \<and> ready s \<and> serr s = None \<and> ens pid (Inr (sEndpoint s))"
  using Get_Inr [OF assms] by blast

text \<open>A waiter for examples: a session still being resolved is resolved with the given endpoint.\<close>

definition resolve_waiter :: "Endpoint \<Rightarrow> waiter" where
  "resolve_waiter ep r m =
     (case heap m r of
        Some s \<Rightarrow>
          if ready s then (None, m)
          else if r \<in> set (resolving m) then
            (case resolve r 0 0 (Inr ep) m of Some m' \<Rightarrow> (None, m') | None \<Rightarrow> (Some ErrCanceled, m))
          else (Some ErrCanceled, m)
      | None \<Rightarrow> (Some ErrCanceled, m))"

lemma resolve_waiter_ok: "waiter_ok (\<lambda>_ res. res = Inr ep) (resolve_waiter ep)"
proof -
  have "(mgr_step (\<lambda>_ res. res = Inr ep))\<^sup>*\<^sup>* m m' \<and> (f = None \<longrightarrow> (\<exists>s. heap m' r = Some s \<and> ready s))"
    if w: "resolve_waiter ep r m = (f, m')" for r m f m'
  proof (cases "\<exists>s. heap m r = Some s \<and> \<not> ready s \<and> r \<in> set (resolving m)")
    case True
    then obtain s where s: "heap m r = Some s" "\<not> ready s" "r \<in> set (resolving m)" by blast
    from resolve_effect [OF s(1,2), of 0 0 "Inr ep"] obtain mx where
      res: "resolve r 0 0 (Inr ep) m = Some (m\<lparr>mmetrics := mx,
         heap := (heap m)(r \<mapsto> publish (Inr ep) s), resolving := remove1 r (resolving m)\<rparr>)" by blast
    with w s have eq: "f = None" "m' = m\<lparr>mmetrics := mx,
         heap := (heap m)(r \<mapsto> publish (Inr ep) s), resolving := remove1 r (resolving m)\<rparr>"
      by (auto simp: resolve_waiter_def)
    have "mgr_step (\<lambda>_ res. res = Inr ep) m m'"
      unfolding eq by (rule mgr_step.resolved [OF s(3,1) _ res]) simp
    then show ?thesis by (auto simp: eq)
  next
    case False
    with w show ?thesis by (auto simp: resolve_waiter_def split: option.splits if_splits)
  qed
  then show ?thesis unfolding waiter_ok_def by blast
qed

definition ep_example :: Endpoint where
  "ep_example = \<lparr>Host = ''10.0.0.1'', TargetActor = '''', Port = 9222, MCPPort = 0\<rparr>"

lemma Get_example:
  "fst (Get (resolve_waiter ep_example) 0 0 ''a'' (New_Manager ''sandboxclaim'' 30 600 None)) = Inr 0"
  by (simp add: Get_def Get_enter_def start_session_def New_Manager_def resolve_waiter_def
      resolve_def close_ready_def upd_session_def record_success_def Get_ready_def)

theorem Get_returns_resolved_session_witness:
  "\<exists>s. heap (snd (Get (resolve_waiter ep_example) 0 0 ''a'' (New_Manager ''sandboxclaim'' 30 600 None))) 0
      = Some s \<and> sID s = ''a'' \<and> ready s \<and> serr s = None \<and> Inr (sEndpoint s) = (Inr ep_example :: Endpoint result)"
proof -
  let ?g = "Get (resolve_waiter ep_example) 0 0 ''a'' (New_Manager ''sandboxclaim'' 30 600 None)"
  have "?g = (Inr 0, snd ?g)" using Get_example by (metis prod.collapse)
  from Get_returns_resolved_session [OF mgr_reach.init resolve_waiter_ok this] show ?thesis by simp
qed

text \<open>
  Retry after a failure: a caller that finds the current session failed gets its error and
  drops it, and the next caller for the id starts a new session with a new \<open>Ensure\<close>.
\<close>

theorem failed_session_is_retried:
  assumes "sessions m pid = Some r" and "heap m r = Some s" and "serr s = Some e"
  shows "fst (Get_ready pid r m) = Inl e \<and>
    (let (r', m') = Get_enter c a pid (snd (Get_ready pid r m))
     in r' = fresh m \<and> sessions m' pid = Some r' \<and> r' \<in> set (resolving m'))"
  using assms by (simp add: Get_ready_def Get_enter_def start_session_def)

definition failed_example :: Manager where
  "failed_example = (New_Manager ''isola'' 30 600 None)
     \<lparr>sessions := [''a'' \<mapsto> 0], fresh := 1,
      heap := [0 \<mapsto> \<lparr>sID = ''a'', sEndpoint = zero_Endpoint, created = 0, lastActive = 0,
                     activeConn = 0, ready = True, serr = Some ErrDeadline\<rparr>]\<rparr>"

theorem failed_session_is_retried_witness:
  "fst (Get_ready ''a'' 0 failed_example) = Inl ErrDeadline \<and>
    (let (r', m') = Get_enter 7 7 ''a'' (snd (Get_ready ''a'' 0 failed_example))
     in r' = fresh failed_example \<and> sessions m' ''a'' = Some r' \<and> r' \<in> set (resolving m'))"
  by (rule failed_session_is_retried, simp add: failed_example_def, simp add: failed_example_def, simp)

end
