(* ===== verification/Session_Reap.thy ===== *)
theory Session_Reap
  imports Session_Get
begin

text \<open>
  The idle reaper and \<open>Refresh\<close>: which sessions the scan removes, that each victim is deleted
  once, that open connections protect a session, that the cooldown bounds re-resolution, and two
  races the code allows.
\<close>

section \<open>The reaper\<close>

definition doomed :: "instant \<Rightarrow> Manager \<Rightarrow> string \<Rightarrow> bool" where
  "doomed cutoff m pid \<longleftrightarrow>
     (\<exists>r s. sessions m pid = Some r \<and> heap m r = Some s \<and> reapable cutoff s)"

lemma reap_visit_doomed:
  "reap_visit cutoff pid m =
     (if doomed cutoff m pid
      then m\<lparr>victims := victims m @ [the (sessions m pid)], sessions := (sessions m)(pid := None),
             lastRefresh := (lastRefresh m)(pid := None)\<rparr>
      else m)"
  by (auto simp: reap_visit_def doomed_def split: option.splits)

lemma doomed_other: "p \<noteq> pid \<Longrightarrow> doomed cutoff (reap_visit cutoff pid m) p = doomed cutoff m p"
  by (auto simp: doomed_def reap_visit_def split: option.splits)

lemma sessions_reap_visit:
  "sessions (reap_visit cutoff pid m) = (\<lambda>p. if p = pid \<and> doomed cutoff m pid then None else sessions m p)"
  by (auto simp: reap_visit_doomed fun_eq_iff)

lemma reap_fold:
  assumes "distinct order"
  shows "sessions (fold (reap_visit cutoff) order m) =
      (\<lambda>p. if p \<in> set order \<and> doomed cutoff m p then None else sessions m p) \<and>
    lastRefresh (fold (reap_visit cutoff) order m) =
      (\<lambda>p. if p \<in> set order \<and> doomed cutoff m p then None else lastRefresh m p) \<and>
    victims (fold (reap_visit cutoff) order m) =
      victims m @ map (the \<circ> sessions m) (filter (doomed cutoff m) order)"
  using assms
proof (induction order arbitrary: m)
  case Nil
  then show ?case by simp
next
  case (Cons pid order)
  let ?m = "reap_visit cutoff pid m"
  from Cons.prems have pid: "pid \<notin> set order" and "distinct order" by auto
  note IH = Cons.IH [OF \<open>distinct order\<close>, of ?m]
  have d: "p \<in> set order \<Longrightarrow> doomed cutoff ?m p = doomed cutoff m p" for p
    using pid by (intro doomed_other) auto
  have f: "filter (doomed cutoff ?m) order = filter (doomed cutoff m) order"
    using d by (intro filter_cong) auto
  have s: "map (the \<circ> sessions ?m) (filter (doomed cutoff m) order) =
      map (the \<circ> sessions m) (filter (doomed cutoff m) order)"
    using pid by (intro map_cong) (auto simp: sessions_reap_visit)
  show ?case
    using IH d f s pid
    by (auto simp: fun_eq_iff reap_visit_doomed split: if_splits)
qed

lemma reap_scan_effect:
  assumes "distinct order" and "set order = dom (sessions m)"
  shows "sessions (reap_scan now order m) =
      (\<lambda>p. if doomed (now - idleTTL m) m p then None else sessions m p)"
    and "lastRefresh (reap_scan now order m) =
      (\<lambda>p. if doomed (now - idleTTL m) m p then None else lastRefresh m p)"
    and "victims (reap_scan now order m) =
      map (the \<circ> sessions m) (filter (doomed (now - idleTTL m) m) order)"
proof -
  have d: "doomed (now - idleTTL m) (m\<lparr>victims := []\<rparr>) = doomed (now - idleTTL m) m"
    by (auto simp: doomed_def fun_eq_iff)
  have o: "p \<in> set order" if "doomed (now - idleTTL m) m p" for p
    using that assms(2) by (auto simp: doomed_def)
  note f = reap_fold [OF assms(1), of "now - idleTTL m" "m\<lparr>victims := []\<rparr>"]
  show "sessions (reap_scan now order m) =
      (\<lambda>p. if doomed (now - idleTTL m) m p then None else sessions m p)"
    using f o by (auto simp: reap_scan_def d fun_eq_iff)
  show "lastRefresh (reap_scan now order m) =
      (\<lambda>p. if doomed (now - idleTTL m) m p then None else lastRefresh m p)"
    using f o by (auto simp: reap_scan_def d fun_eq_iff)
  show "victims (reap_scan now order m) =
      map (the \<circ> sessions m) (filter (doomed (now - idleTTL m) m) order)"
    using f by (simp add: reap_scan_def d comp_def)
qed

text \<open>
  C9.  The reaper takes exactly the idle sessions, whatever order Go visits the map in: after the
  locked scan an id is gone from the map if and only if its session was resolved, had no open
  connection and was last active no later than \<open>idleTTL\<close> ago; every other session stays, and
  the victims are the removed sessions.
\<close>

theorem reaper_takes_exactly_idle_sessions:
  assumes "mgr_reach ens m" and "distinct order" and "set order = dom (sessions m)"
    and "sessions m pid = Some r" and "heap m r = Some s"
  shows "(sessions (reap_scan now order m) pid = None \<longleftrightarrow>
      ready s \<and> ActiveConns s \<le> 0 \<and> LastActive s \<le> now - idleTTL m) \<and>
    (sessions (reap_scan now order m) pid \<noteq> None \<longrightarrow> sessions (reap_scan now order m) pid = Some r) \<and>
    (r \<in> set (victims (reap_scan now order m)) \<longleftrightarrow>
      ready s \<and> ActiveConns s \<le> 0 \<and> LastActive s \<le> now - idleTTL m)"
proof -
  have inv: "mgr_inv ens m" using assms(1) by (rule reach_inv)
  have id: "sID s = pid" using inv_sessions [OF inv assms(4)] assms(5) by auto
  let ?c = "now - idleTTL m"
  have d: "doomed ?c m pid \<longleftrightarrow> ready s \<and> ActiveConns s \<le> 0 \<and> LastActive s \<le> ?c"
    using assms(4,5) by (auto simp: doomed_def reapable_def)
  have uniq: "p = pid" if "sessions m p = Some r" for p
    using inv_sessions [OF inv that] assms(5) id by auto
  have "r \<in> set (victims (reap_scan now order m)) \<longleftrightarrow> doomed ?c m pid"
  proof
    assume "r \<in> set (victims (reap_scan now order m))"
    then obtain p where "doomed ?c m p" and "the (sessions m p) = r"
      unfolding reap_scan_effect(3) [OF assms(2,3)] by auto
    then show "doomed ?c m pid" using uniq by (auto simp: doomed_def)
  next
    assume dm: "doomed ?c m pid"
    moreover have "pid \<in> set order" using assms(3,4) by auto
    ultimately have "pid \<in> set (filter (doomed ?c m) order)" by simp
    then have "the (sessions m pid) \<in> set (victims (reap_scan now order m))"
      unfolding reap_scan_effect(3) [OF assms(2,3)] by force
    then show "r \<in> set (victims (reap_scan now order m))" using assms(4) by simp
  qed
  then show ?thesis
    using d assms(4) by (simp add: reap_scan_effect(1) [OF assms(2,3)])
qed

section \<open>reapOnce\<close>

lemma reap_deletes_effect:
  assumes "n = length (victims m)" and "\<forall>r \<in> set (victims m). heap m r \<noteq> None"
  shows "snd (reap_deletes now del n m w) =
      fold (\<lambda>pid w. snd (del pid w)) (map (\<lambda>r. sID (the (heap m r))) (victims m)) w \<and>
    victims (fst (reap_deletes now del n m w)) = [] \<and>
    sessions (fst (reap_deletes now del n m w)) = sessions m \<and>
    (mmetrics m \<noteq> None \<longrightarrow>
      metric_value SessionsReaped (mmetrics (fst (reap_deletes now del n m w))) +
      metric_value BackendDeleteFailures (mmetrics (fst (reap_deletes now del n m w))) =
      metric_value SessionsReaped (mmetrics m) + metric_value BackendDeleteFailures (mmetrics m)
        + int n)"
  using assms
proof (induction n arbitrary: m w)
  case 0
  then show ?case by simp
next
  case (Suc n)
  then obtain r rs where v: "victims m = r # rs" by (cases "victims m") auto
  with Suc.prems obtain s where s: "heap m r = Some s" by auto
  obtain res w1 where del: "del (sID s) w = (res, w1)" by fastforce
  let ?m = "reap_delete now res m"
  have m': "victims ?m = rs" "heap ?m = heap m" "sessions ?m = sessions m"
    using v s by (simp_all add: reap_delete_def Let_def split: option.splits)
  have mx: "mmetrics m \<noteq> None \<Longrightarrow> mmetrics ?m \<noteq> None \<and>
      metric_value SessionsReaped (mmetrics ?m) + metric_value BackendDeleteFailures (mmetrics ?m) =
      metric_value SessionsReaped (mmetrics m) + metric_value BackendDeleteFailures (mmetrics m) + 1"
    using v s by (cases res) (simp_all add: reap_delete_def Let_def metric_defs metric_value_emit_Some)
  from Suc.IH [of ?m w1] Suc.prems v m' mx show ?case
    by (simp add: v s del)
qed

lemma reapOnce_effect:
  assumes "mgr_reach ens m" and "distinct order" and "set order = dom (sessions m)"
  shows "snd (reapOnce now now' order del m w) =
      fold (\<lambda>pid w. snd (del pid w)) (filter (doomed (now - idleTTL m) m) order) w \<and>
    sessions (fst (reapOnce now now' order del m w)) = sessions (reap_scan now order m) \<and>
    (mmetrics m \<noteq> None \<longrightarrow>
      metric_value SessionsReaped (mmetrics (fst (reapOnce now now' order del m w))) +
      metric_value BackendDeleteFailures (mmetrics (fst (reapOnce now now' order del m w))) =
      metric_value SessionsReaped (mmetrics m) + metric_value BackendDeleteFailures (mmetrics m)
        + int (length (filter (doomed (now - idleTTL m) m) order)))"
proof -
  let ?m = "reap_scan now order m"
  have inv: "mgr_inv ens m" using assms(1) by (rule reach_inv)
  have "mgr_inv ens ?m" using inv by (rule inv_reap_scan)
  then have a: "\<forall>r \<in> set (victims ?m). heap ?m r \<noteq> None" using inv_victims by fastforce
  have ids: "map (\<lambda>r. sID (the (heap ?m r))) (victims ?m) = filter (doomed (now - idleTTL m) m) order"
    unfolding reap_scan_effect(3) [OF assms(2,3)] map_map
    by (rule map_idI) (use inv_sessions [OF inv] in \<open>fastforce simp: doomed_def\<close>)
  have mm: "mmetrics (fold (reap_visit c) xs k) = mmetrics k" for c xs k
    by (induction xs arbitrary: k) (simp_all add: reap_visit_doomed)
  have "mmetrics ?m = mmetrics m"
    by (simp add: reap_scan_def mm)
  moreover have "length (victims ?m) = length (filter (doomed (now - idleTTL m) m) order)"
    unfolding reap_scan_effect(3) [OF assms(2,3)] by simp
  ultimately show ?thesis
    using reap_deletes_effect [OF refl a, of now' del w] ids
    by (simp add: reapOnce_def Let_def)
qed

text \<open>
  One run of the reaper calls \<open>Delete\<close> exactly once for the id of each victim, in the order
  of the scan, counts each of them either as reaped or as a delete failure, and leaves the session
  map as the scan left it whatever \<open>Delete\<close> returns.
\<close>

theorem reapOnce_deletes_each_victim_once:
  assumes "mgr_reach ens m" and "distinct order" and "set order = dom (sessions m)"
  shows "snd (reapOnce now now' order del m w) =
      fold (\<lambda>pid w. snd (del pid w)) (filter (doomed (now - idleTTL m) m) order) w \<and>
    sessions (fst (reapOnce now now' order del m w)) = sessions (reap_scan now order m) \<and>
    (mmetrics m \<noteq> None \<longrightarrow>
      metric_value SessionsReaped (mmetrics (fst (reapOnce now now' order del m w))) +
      metric_value BackendDeleteFailures (mmetrics (fst (reapOnce now now' order del m w))) =
      metric_value SessionsReaped (mmetrics m) + metric_value BackendDeleteFailures (mmetrics m)
        + int (length (filter (doomed (now - idleTTL m) m) order)))"
  using assms by (rule reapOnce_effect)

section \<open>Examples\<close>

text \<open>One client called \<open>Get\<close> at time 0; the idle limit is 600.\<close>

definition one_session :: "Endpoint \<Rightarrow> Manager" where
  "one_session ep = snd (Get (resolve_waiter ep) 0 0 ''a''
     (New_Manager ''isola'' 30 600 (Some \<lparr>reg = [], calls = []\<rparr>)))"

definition one_session_cell :: "Endpoint \<Rightarrow> Session" where
  "one_session_cell ep = \<lparr>sID = ''a'', sEndpoint = ep, created = 0, lastActive = 0,
     activeConn = 0, ready = True, serr = None\<rparr>"

lemmas mgr_eval = Get_def Get_enter_def start_session_def New_Manager_def resolve_waiter_def
  resolve_def close_ready_def upd_session_def record_success_def Get_ready_def
  Refresh_enter_def refreshCooldown_def Second_def

lemma one_session_simps [simp]:
  "sessions (one_session ep) = [''a'' \<mapsto> 0]" "heap (one_session ep) = [0 \<mapsto> one_session_cell ep]"
  "idleTTL (one_session ep) = 600" "victims (one_session ep) = []" "lastRefresh (one_session ep) = Map.empty"
  "fresh (one_session ep) = 1" "resolving (one_session ep) = []"
  by (simp_all add: one_session_def one_session_cell_def mgr_eval fun_eq_iff)

lemma reach_one_session: "mgr_reach (\<lambda>_ res. res = Inr ep) (one_session ep)"
proof -
  let ?g = "Get (resolve_waiter ep) 0 0 ''a'' (New_Manager ''isola'' 30 600 (Some \<lparr>reg = [], calls = []\<rparr>))"
  have "?g = (Inr 0, snd ?g)" by (simp add: mgr_eval)
  from Get_Inr [OF mgr_reach.init resolve_waiter_ok this] show ?thesis
    unfolding one_session_def by blast
qed

theorem reaper_takes_exactly_idle_sessions_witness:
  "sessions (reap_scan 1000 [''a''] (one_session ep_example)) ''a'' = None"
proof -
  have d: "set [''a''] = dom (sessions (one_session ep_example))" by simp
  show ?thesis
    using reaper_takes_exactly_idle_sessions [OF reach_one_session [of ep_example] _ d, of "''a''" 0
        "one_session_cell ep_example" 1000]
    by (simp add: one_session_cell_def ActiveConns_def LastActive_def)
qed

theorem reapOnce_deletes_each_victim_once_witness:
  "snd (reapOnce 1000 1000 [''a''] (\<lambda>pid w. (None, pid # w)) (one_session ep_example) []) = [''a'']"
proof -
  have d: "set [''a''] = dom (sessions (one_session ep_example))" by simp
  show ?thesis
    using reapOnce_deletes_each_victim_once [OF reach_one_session [of ep_example] _ d, of 1000 1000
        "\<lambda>pid w. (None, pid # w)" "[]"]
    by (simp add: doomed_def one_session_cell_def reapable_def ActiveConns_def LastActive_def)
qed

section \<open>Open connections\<close>

datatype conn_event = Opened instant | Closed instant

fun conn_apply :: "conn_event \<Rightarrow> Session \<Rightarrow> Session" where
  "conn_apply (Opened now) s = ConnOpened now s"
| "conn_apply (Closed now) s = ConnClosed now s"

fun conn_net :: "conn_event list \<Rightarrow> int" where
  "conn_net [] = 0"
| "conn_net (Opened _ # es) = conn_net es + 1"
| "conn_net (Closed _ # es) = conn_net es - 1"

lemma activeConn_fold: "activeConn (fold conn_apply es s) = activeConn s + of_int (conn_net es)"
  by (induction es arbitrary: s rule: conn_net.induct)
    (simp_all add: ConnOpened_def ConnClosed_def MarkActive_def)

lemma sint_small: "- (2 ^ 31) \<le> k \<Longrightarrow> k < 2 ^ 31 \<Longrightarrow> sint (of_int k :: 32 word) = k"
  by (simp add: signed_of_int signed_take_bit_int_eq_self)

text \<open>
  C10.  A session with connections in use is never reaped: after any sequence of \<open>ConnOpened\<close> and
  \<open>ConnClosed\<close> calls that leaves between 1 and \<open>2^31 - 1\<close> connections open (the range of the
  32-bit counter), the scan keeps the session in the map however long it has been silent.
\<close>

theorem open_connections_prevent_reaping:
  assumes "mgr_reach ens m" and "distinct order" and "set order = dom (sessions m)"
    and "sessions m pid = Some r" and "heap m r = Some (fold conn_apply es s)"
    and "activeConn s = 0" and "0 < conn_net es" and "conn_net es < 2 ^ 31"
  shows "sessions (reap_scan now order m) pid = Some r"
proof -
  have "ActiveConns (fold conn_apply es s) = conn_net es"
    using assms(6-8) by (simp add: ActiveConns_def activeConn_fold sint_small)
  with assms(4,5,7) have "\<not> doomed (now - idleTTL m) m pid"
    by (simp add: doomed_def reapable_def)
  with assms(4) show ?thesis by (simp add: reap_scan_effect(1) [OF assms(2,3)])
qed

theorem open_connections_prevent_reaping_witness:
  "sessions (reap_scan 1000000 [''a'']
      (upd_session 0 (ConnOpened 3) (one_session ep_example))) ''a'' = Some 0"
proof (rule open_connections_prevent_reaping)
  show "mgr_reach (\<lambda>_ res. res = Inr ep_example) (upd_session 0 (ConnOpened 3) (one_session ep_example))"
    by (rule mgr_reach.step [OF reach_one_session mgr_step.opened])
  show "heap (upd_session 0 (ConnOpened 3) (one_session ep_example)) 0 =
      Some (fold conn_apply [Opened 3] (one_session_cell ep_example))"
    by (simp add: upd_session_def)
qed (simp_all add: upd_session_def one_session_cell_def)

section \<open>Refresh\<close>

text \<open>
  Calls of \<open>Refresh\<close> for one id, each with its two readings of the clock, its stale session and
  the state it runs in.  Between two calls other goroutines run any critical sections that leave the
  manager's record of the last refresh of the id alone.
\<close>

type_synonym refresh_call = "instant \<times> instant \<times> sref \<times> Manager"

definition counted_call :: "string \<Rightarrow> refresh_call \<Rightarrow> bool" where
  "counted_call pid = (\<lambda>(now, now', stale, m). fst (Refresh_enter now now' stale pid m) = GetCounted)"

definition calm_step :: "(string \<Rightarrow> Endpoint result \<Rightarrow> bool) \<Rightarrow> string \<Rightarrow> Manager \<Rightarrow> Manager \<Rightarrow> bool" where
  "calm_step ens pid m m' \<longleftrightarrow> mgr_step ens m m' \<and> lastRefresh m' pid = lastRefresh m pid"

fun refresh_trace :: "(string \<Rightarrow> Endpoint result \<Rightarrow> bool) \<Rightarrow> string \<Rightarrow> refresh_call list \<Rightarrow> bool" where
  "refresh_trace ens pid [] = True"
| "refresh_trace ens pid [(now, now', stale, m)] = (now \<le> now')"
| "refresh_trace ens pid ((now, now', stale, m) # (t, t', stale', m') # cs) =
     (now \<le> now' \<and> now' \<le> t \<and> (calm_step ens pid)\<^sup>*\<^sup>* (snd (Refresh_enter now now' stale pid m)) m' \<and>
      refresh_trace ens pid ((t, t', stale', m') # cs))"

lemma calm_steps: "(calm_step ens pid)\<^sup>*\<^sup>* m m' \<Longrightarrow> lastRefresh m' pid = lastRefresh m pid"
  by (induction rule: rtranclp_induct) (simp_all add: calm_step_def)

lemma lastRefresh_reconcile: "lastRefresh (reconcile_ids now ids m) = lastRefresh m"
  by (induction ids arbitrary: m) (simp_all add: start_session_def split: option.splits)

text \<open>
  The critical sections that do not: a counted \<open>Refresh\<close> of the id, and a scan of the reaper that takes its
  session.
\<close>

lemma lastRefresh_step:
  assumes "mgr_step ens m m'" and "lastRefresh m' pid \<noteq> lastRefresh m pid"
  shows "(\<exists>now order. m' = reap_scan now order m \<and> doomed (now - idleTTL m) m pid) \<or>
    (\<exists>t t' r. m' = snd (Refresh_enter t t' r pid m) \<and> fst (Refresh_enter t t' r pid m) = GetCounted)"
  using assms
proof (cases rule: mgr_step.cases)
  case (scan order now)
  then show ?thesis using assms(2) reap_scan_effect(2) [OF scan(3,4), of now] by (auto split: if_splits)
next
  case (refresh r s t t')
  with assms(2) have "sID s = pid \<and> fst (Refresh_enter t t' r (sID s) m) = GetCounted"
    by (auto simp: Refresh_enter_def Let_def split: if_splits option.splits)
  with refresh show ?thesis by blast
next
  case (resolved r s res t t')
  with assms(2) show ?thesis
    by (auto simp: resolve_def close_ready_def record_failure_def record_success_def upd_session_def
        split: sum.splits option.splits if_splits)
next
  case (reconcile now listed)
  with assms(2) show ?thesis by (auto simp: Reconcile_def lastRefresh_reconcile split: sum.splits)
next
  case (deleted now res)
  with assms(2) show ?thesis by (auto simp: reap_delete_def Let_def split: list.splits option.splits)
qed (auto simp: Get_enter_def Get_ready_def start_session_def upd_session_def split: option.splits if_splits)

lemma Refresh_enter_counted:
  "fst (Refresh_enter now now' stale pid m) = GetCounted \<Longrightarrow>
     lastRefresh (snd (Refresh_enter now now' stale pid m)) pid = Some now'"
  "fst (Refresh_enter now now' stale pid m) \<noteq> GetCounted \<Longrightarrow>
     snd (Refresh_enter now now' stale pid m) = m"
  by (auto simp: Refresh_enter_def Let_def split: option.splits if_splits)

lemma Refresh_enter_cooldown:
  "lastRefresh m pid = Some t \<Longrightarrow> now - t < refreshCooldown \<Longrightarrow>
     fst (Refresh_enter now now' stale pid m) \<noteq> GetCounted"
  by (auto simp: Refresh_enter_def split: option.splits)

lemma cooldown_blocks:
  assumes "refresh_trace ens pid cs" and "cs \<noteq> [] \<longrightarrow> lastRefresh (snd (snd (snd (hd cs)))) pid = Some t"
    and "\<forall>c \<in> set cs. fst c - t < refreshCooldown"
  shows "filter (counted_call pid) cs = []"
  using assms
proof (induction ens pid cs rule: refresh_trace.induct)
  case (3 ens pid now now' stale m t1 t1' stale' m' cs)
  have n: "fst (Refresh_enter now now' stale pid m) \<noteq> GetCounted"
    using "3.prems" by (intro Refresh_enter_cooldown) auto
  have "(calm_step ens pid)\<^sup>*\<^sup>* (snd (Refresh_enter now now' stale pid m)) m'" using "3.prems"(1) by simp
  from calm_steps [OF this] "3.prems"(2) have "lastRefresh m' pid = Some t"
    using Refresh_enter_counted(2) [OF n] by simp
  with "3.IH" "3.prems" n show ?case by (simp add: counted_call_def)
qed (auto simp: counted_call_def dest: Refresh_enter_cooldown)

lemma counted_at_most_once:
  assumes "refresh_trace ens pid (c # cs)" and "\<forall>d \<in> set (c # cs). fst d - fst c < refreshCooldown"
  shows "length (filter (counted_call pid) (c # cs)) \<le> 1"
  using assms
proof (induction cs arbitrary: c)
  case Nil
  then show ?case by simp
next
  case (Cons d cs)
  obtain now now' stale m where c: "c = (now, now', stale, m)" by (cases c) auto
  obtain t t' stale' m' where d: "d = (t, t', stale', m')" by (cases d) auto
  from Cons.prems(1) have le: "now \<le> now'" "now' \<le> t" and tr: "refresh_trace ens pid (d # cs)"
    and steps: "(calm_step ens pid)\<^sup>*\<^sup>* (snd (Refresh_enter now now' stale pid m)) m'"
    by (auto simp: c d)
  note lr = calm_steps [OF steps]
  show ?case
  proof (cases "counted_call pid c")
    case True
    then have "lastRefresh m' pid = Some now'"
      using lr Refresh_enter_counted(1) by (simp add: counted_call_def c)
    moreover have "\<forall>x \<in> set (d # cs). fst x - now' < refreshCooldown"
      using Cons.prems(2) le by (fastforce simp: c)
    ultimately have "filter (counted_call pid) (d # cs) = []"
      using tr by (intro cooldown_blocks [where t = now']) (auto simp: d)
    with True show ?thesis by simp
  next
    case False
    have "\<forall>x \<in> set (d # cs). fst x - fst d < refreshCooldown"
      using Cons.prems(2) le by (fastforce simp: c d)
    with Cons.IH [OF tr] False show ?thesis by simp
  qed
qed

lemma uncounted_Refresh:
  assumes "fst (Refresh_enter now now' stale pid m) \<noteq> GetCounted"
  shows "case sessions m pid of
      Some cur \<Rightarrow> Refresh wait now now' stale pid m = (Inr cur, m)
    | None \<Rightarrow> Refresh wait now now' stale pid m = Get wait now' now' pid m \<and>
        Get_enter now' now' pid m = start_session pid now' now' m"
  using assms by (auto simp: Refresh_enter_def Refresh_def Get_enter_def Let_def split: option.splits if_splits)

text \<open>
  C17.  What the refresh cooldown bounds.  Take consecutive calls of \<open>Refresh\<close> for one id that all start within
  \<open>refreshCooldown\<close> (2 s) of the first one, on a clock that does not go back, while other goroutines run any
  critical sections between them but these two: a \<open>Refresh\<close> of the same id that is not among the calls and
  drops it, and a scan of the reaper that takes the session of the id (they alone change the record of the last
  refresh).  Then at most one of the calls drops the session and resolves it anew.  Every other call changes
  nothing in its critical section: if the map has a session of the id, it returns that session without
  waiting; if not, it goes on to \<open>Get\<close>, which starts a new \<open>Ensure\<close> although the cooldown has not passed.
\<close>

theorem refresh_at_most_once_per_cooldown:
  assumes "refresh_trace ens pid (c # cs)" and "\<forall>d \<in> set (c # cs). fst d - fst c < refreshCooldown"
  shows "length (filter (counted_call pid) (c # cs)) \<le> 1 \<and>
    (\<forall>(now, now', stale, m) \<in> set (c # cs). \<not> counted_call pid (now, now', stale, m) \<longrightarrow>
       snd (Refresh_enter now now' stale pid m) = m \<and>
       (case sessions m pid of
          Some cur \<Rightarrow> Refresh wait now now' stale pid m = (Inr cur, m)
        | None \<Rightarrow> Refresh wait now now' stale pid m = Get wait now' now' pid m \<and>
            Get_enter now' now' pid m = start_session pid now' now' m))"
proof (intro conjI ballI)
  show "length (filter (counted_call pid) (c # cs)) \<le> 1" by (rule counted_at_most_once [OF assms])
  fix d assume "d \<in> set (c # cs)"
  obtain now now' stale m where d: "d = (now, now', stale, m)" by (cases d) auto
  show "case d of (now, now', stale, m) \<Rightarrow> \<not> counted_call pid (now, now', stale, m) \<longrightarrow>
       snd (Refresh_enter now now' stale pid m) = m \<and>
       (case sessions m pid of
          Some cur \<Rightarrow> Refresh wait now now' stale pid m = (Inr cur, m)
        | None \<Rightarrow> Refresh wait now now' stale pid m = Get wait now' now' pid m \<and>
            Get_enter now' now' pid m = start_session pid now' now' m)"
    using uncounted_Refresh [of now now' stale pid m wait] Refresh_enter_counted(2) [of now now' stale pid m]
    by (simp add: d counted_call_def)
qed

text \<open>Two calls a second apart: the first drops the session, the second finds none and starts an \<open>Ensure\<close>.\<close>

theorem refresh_at_most_once_per_cooldown_witness:
  "\<forall>wait. let m = one_session ep_example; m' = snd (Refresh_enter 5 5 0 ''a'' m) in
   counted_call ''a'' (5, 5, 0, m) \<and> \<not> counted_call ''a'' (6, 6, 0, m') \<and>
   length (filter (counted_call ''a'') [(5, 5, 0, m), (6, 6, 0, m')]) \<le> 1 \<and>
   Refresh wait 6 6 0 ''a'' m' = Get wait 6 6 ''a'' m' \<and> Get_enter 6 6 ''a'' m' = start_session ''a'' 6 6 m'"
proof
  fix wait
  define m where "m = one_session ep_example"
  define m' where "m' = snd (Refresh_enter 5 5 0 ''a'' m)"
  have r: "lastRefresh m = Map.empty" "sessions m ''a'' = Some 0" by (simp_all add: m_def)
  have s: "sessions m' ''a'' = None" "lastRefresh m' ''a'' = Some 5" using r by (simp_all add: m'_def Refresh_enter_def)
  have c: "counted_call ''a'' (5, 5, 0, m)" using r by (simp add: counted_call_def Refresh_enter_def)
  have n: "\<not> counted_call ''a'' (6, 6, 0, m')"
    using s by (simp add: counted_call_def Refresh_enter_def refreshCooldown_def Second_def)
  have "refresh_trace (\<lambda>_ _. True) ''a'' [(5, 5, 0, m), (6, 6, 0, m')]" by (simp add: m'_def)
  note t = refresh_at_most_once_per_cooldown [OF this, of wait]
  have "Refresh wait 6 6 0 ''a'' m' = Get wait 6 6 ''a'' m' \<and> Get_enter 6 6 ''a'' m' = start_session ''a'' 6 6 m'"
    and "length (filter (counted_call ''a'') [(5, 5, 0, m), (6, 6, 0, m')]) \<le> 1"
    using t n s(1) by (simp_all add: refreshCooldown_def Second_def)
  with c n show "let m = one_session ep_example; m' = snd (Refresh_enter 5 5 0 ''a'' m) in
   counted_call ''a'' (5, 5, 0, m) \<and> \<not> counted_call ''a'' (6, 6, 0, m') \<and>
   length (filter (counted_call ''a'') [(5, 5, 0, m), (6, 6, 0, m')]) \<le> 1 \<and>
   Refresh wait 6 6 0 ''a'' m' = Get wait 6 6 ''a'' m' \<and> Get_enter 6 6 ''a'' m' = start_session ''a'' 6 6 m'"
    by (simp add: Let_def m_def [symmetric] m'_def [symmetric])
qed

section \<open>Two races\<close>

text \<open>A second client refreshes the same stale session while the first one waits for \<open>Ensure\<close>.\<close>

definition refresh_race :: "Endpoint \<Rightarrow> Manager" where
  "refresh_race ep = snd (Get_enter 5 5 ''a'' (snd (Refresh_enter 5 5 0 ''a'' (one_session ep))))"

lemma reach_refresh_race: "mgr_reach (\<lambda>_ res. res = Inr ep) (refresh_race ep)"
proof -
  have "mgr_step (\<lambda>_ res. res = Inr ep) (one_session ep)
      (snd (Refresh_enter 5 5 0 (sID (one_session_cell ep)) (one_session ep)))"
    by (rule mgr_step.refresh) (simp_all add: one_session_cell_def)
  then have "mgr_step (\<lambda>_ res. res = Inr ep) (one_session ep)
      (snd (Refresh_enter 5 5 0 ''a'' (one_session ep)))"
    by (simp add: one_session_cell_def)
  then show ?thesis unfolding refresh_race_def
    by (blast intro: mgr_reach.step reach_one_session mgr_step.get_enter)
qed

text \<open>
  C38.  Within the cooldown \<open>Refresh\<close> does not wait for the resolution in flight: in a reachable
  state, with a stale session that \<open>Get\<close> had returned, it hands back a session that is still
  being resolved, whose endpoint is the zero value with dial address \<open>:0\<close>, although the comment
  promises that concurrent callers collapse onto the one re-\<open>Ensure\<close> through the ready channel.
\<close>

theorem refresh_returns_unresolved_session:
  "\<exists>m stale s0. mgr_reach (\<lambda>_ res. res = Inr ep) m \<and>
     heap m stale = Some s0 \<and> ready s0 \<and> serr s0 = None \<and>
     (\<forall>wait. \<exists>r s. Refresh wait 6 6 stale (sID s0) m = (Inr r, m) \<and> heap m r = Some s \<and>
        \<not> ready s \<and> sEndpoint s = zero_Endpoint \<and> Addr (sEndpoint s) = '':0'')"
proof -
  have z: "Addr zero_Endpoint = '':0''" by code_simp
  have h: "heap (refresh_race ep) 0 = Some (one_session_cell ep)"
    "heap (refresh_race ep) 1 = Some \<lparr>sID = ''a'', sEndpoint = zero_Endpoint, created = 5,
       lastActive = 5, activeConn = 0, ready = False, serr = None\<rparr>"
    by (simp_all add: refresh_race_def mgr_eval)
  have "Refresh wait 6 6 0 ''a'' (refresh_race ep) = (Inr 1, refresh_race ep)" for wait
    by (simp add: refresh_race_def mgr_eval Refresh_def)
  with h z reach_refresh_race [of ep] show ?thesis
    by (intro exI [of _ "refresh_race ep"] exI [of _ 0] exI [of _ "one_session_cell ep"])
      (auto simp: one_session_cell_def)
qed

definition reap_race :: "Endpoint \<Rightarrow> Manager" where
  "reap_race ep = snd (Get (resolve_waiter ep) 1000 1000 ''a'' (reap_scan 1000 [''a''] (one_session ep)))"

text \<open>
  The reaper deletes outside its lock: there is a reachable state in which a client holds a
  freshly resolved session for an id while the \<open>Delete\<close> for the same id, decided before that
  session existed, is still to be executed, so the backend may tear down the sandbox the new
  session points to.
\<close>

theorem reap_delete_races_with_new_session:
  "\<exists>m r old r' s. mgr_reach (\<lambda>_ res. res = Inr ep) m \<and>
     victims m = [r] \<and> heap m r = Some old \<and>
     sessions m (sID old) = Some r' \<and> r' \<noteq> r \<and> heap m r' = Some s \<and> ready s \<and> serr s = None"
proof -
  let ?e = "\<lambda>(_::string) res. res = (Inr ep :: Endpoint result)"
  let ?m = "reap_scan 1000 [''a''] (one_session ep)"
  have d: "set [''a''] = dom (sessions (one_session ep))" by simp
  have v: "victims ?m = [0]" "sessions ?m = Map.empty" "fresh ?m = 1" "resolving ?m = []"
    using reap_scan_effect [OF _ d, of 1000]
    by (simp_all add: reap_scan_def reap_visit_doomed doomed_def one_session_cell_def
        reapable_def ActiveConns_def LastActive_def fun_eq_iff)
  have "mgr_reach ?e ?m"
    by (rule mgr_reach.step [OF reach_one_session mgr_step.scan]) simp_all
  moreover have g: "Get (resolve_waiter ep) 1000 1000 ''a'' ?m = (Inr 1, reap_race ep)"
    by (simp add: reap_race_def mgr_eval v)
  ultimately have reach: "mgr_reach ?e (reap_race ep)"
    using Get_Inr resolve_waiter_ok by blast
  have "victims (reap_race ep) = [0]" "sessions (reap_race ep) ''a'' = Some 1"
    "heap (reap_race ep) 0 = Some (one_session_cell ep)"
    "heap (reap_race ep) 1 = Some \<lparr>sID = ''a'', sEndpoint = ep, created = 1000, lastActive = 1000,
       activeConn = 0, ready = True, serr = None\<rparr>"
    by (simp_all add: reap_race_def mgr_eval v)
  with reach show ?thesis
    by (intro exI [of _ "reap_race ep"] exI [of _ 0] exI [of _ "one_session_cell ep"] exI [of _ 1] exI)
      (auto simp: one_session_cell_def)
qed

text \<open>
  \<open>Get\<close> does not protect the session it returns: a resolved session that has been idle for too long is
  handed to a caller as it is, without marking it active, and a scan of the reaper that runs before the caller
  marks it takes the session and has its sandbox deleted under the caller.
\<close>

theorem reaper_takes_session_just_returned:
  assumes "mgr_reach ens m" and "distinct order" and "set order = dom (sessions m)"
    and "sessions m pid = Some r" and "heap m r = Some s" and "ready s" and "serr s = None"
    and "ActiveConns s \<le> 0" and "LastActive s \<le> now - idleTTL m"
  shows "Get (\<lambda>_ m. (None, m)) c a pid m = (Inr r, m) \<and> sessions (reap_scan now order m) pid = None \<and>
    r \<in> set (victims (reap_scan now order m))"
proof -
  have "doomed (now - idleTTL m) m pid" using assms(4-9) by (auto simp: doomed_def reapable_def)
  moreover have "pid \<in> set order" using assms(3,4) by auto
  ultimately show ?thesis
    using assms(4-7) reap_scan_effect [OF assms(2,3), of now] by (force simp: Get_def Get_enter_def Get_ready_def)
qed

end
