(* ===== verification/Identify.thy ===== *)
theory Identify
  imports Metrics
begin

text \<open>
  Package \<open>internal/identify\<close>: the index from pod IP to playwright-id that a pod informer keeps,
  and \<open>Lookup\<close> with its fallback to the Kubernetes API.

  The Kubernetes client and the informer are outside the repository.  The informer appears as the
  sequence of events it delivers to the handlers, the client as the function \<open>listPods\<close> over an
  external world.  What other goroutines do to the index while \<open>Lookup\<close> runs an API call or
  sleeps is given by \<open>during\<close> and \<open>sleep\<close>.  Log output is not modelled.
\<close>

section \<open>State\<close>

text \<open>The fields of \<open>corev1.Pod\<close> the package reads.\<close>

record Pod =
  pod_name :: string
  pod_labels :: "string \<rightharpoonup> string"
  pod_IP :: string

record Index =
  labelKey :: string
  byPodIP :: "string \<rightharpoonup> string"
  idx_ready :: bool
  idx_client :: bool \<comment> \<open>whether the client is not nil\<close>
  idx_namespace :: string
  diagnosedIPs :: "string \<rightharpoonup> instant"
  idx_metrics :: "Metrics option"

definition diagnosticTTL :: duration where
  "diagnosticTTL = 10 * Minute"

definition New_Index :: "string \<Rightarrow> bool \<Rightarrow> string \<Rightarrow> Metrics option \<Rightarrow> Index" where
  "New_Index key client ns m =
     \<lparr>labelKey = key, byPodIP = Map.empty, idx_ready = False, idx_client = client,
      idx_namespace = ns, diagnosedIPs = Map.empty, idx_metrics = RegisterRegisteredPods m\<rparr>"

definition registeredCount :: "Index \<Rightarrow> nat" where
  "registeredCount i = card (dom (byPodIP i))"

text \<open>Indexing a label map with a missing key gives the empty string.\<close>

definition label_value :: "string \<Rightarrow> Pod \<Rightarrow> string" where
  "label_value k p = (case pod_labels p k of None \<Rightarrow> '''' | Some v \<Rightarrow> v)"

section \<open>Informer events\<close>

text \<open>What a handler gets: a pod, a tombstone around some object, or an object of another type.\<close>

datatype obj = PodObj Pod | Tombstone "Pod option" | OtherObj

definition upsertFromObj :: "obj \<Rightarrow> Index \<Rightarrow> Index" where
  "upsertFromObj ob i =
     (case ob of
        PodObj pod \<Rightarrow>
          (let pid = label_value (labelKey i) pod
           in if pid = '''' then i
              else if pod_IP pod = '''' then i
              else i\<lparr>byPodIP := (byPodIP i)(pod_IP pod \<mapsto> pid)\<rparr>)
      | _ \<Rightarrow> i)"

definition deletePod :: "Pod \<Rightarrow> Index \<Rightarrow> Index" where
  "deletePod pod i =
     (if pod_IP pod = '''' then i else i\<lparr>byPodIP := (byPodIP i)(pod_IP pod := None)\<rparr>)"

definition deleteFromObj :: "obj \<Rightarrow> Index \<Rightarrow> Index" where
  "deleteFromObj ob i =
     (case ob of
        PodObj pod \<Rightarrow> deletePod pod i
      | Tombstone (Some pod) \<Rightarrow> deletePod pod i
      | Tombstone None \<Rightarrow> i
      | OtherObj \<Rightarrow> i)"

text \<open>The three handlers \<open>Run\<close> installs.\<close>

datatype event = AddEv obj | UpdateEv obj obj | DeleteEv obj

fun handle_event :: "event \<Rightarrow> Index \<Rightarrow> Index" where
  "handle_event (AddEv ob) i = upsertFromObj ob i"
| "handle_event (UpdateEv _ ob) i = upsertFromObj ob i"
| "handle_event (DeleteEv ob) i = deleteFromObj ob i"

text \<open>
  \<open>Run\<close> up to its final wait: the result of \<open>AddEventHandler\<close>, the events of the initial list, how many of
  them the handlers have handled when \<open>WaitForCacheSync\<close> returns, and whether it succeeded.  It waits for
  \<open>inf.HasSynced\<close>, which says that the informer's store has the list; the handlers run in a goroutine of
  their own and may be behind, so the number is arbitrary.  The result: the error, the index, and the events that are
  still to be handled, by \<open>handle_event\<close>, which only a successful installation of the handlers leaves.
\<close>

definition Run :: "err option \<Rightarrow> event list \<Rightarrow> nat \<Rightarrow> bool \<Rightarrow> Index \<Rightarrow> err option \<times> Index \<times> event list" where
  "Run handlerErr evs n synced i =
     (case handlerErr of
        Some e \<Rightarrow> (Some (ErrWrap ''add event handler'' e), i, [])
      | None \<Rightarrow>
          (let i1 = fold handle_event (take n evs) i;
               rest = drop n evs
           in if \<not> synced then (Some (ErrMsg ''pod cache sync failed''), i1, rest)
              else (None, i1\<lparr>idx_ready := True\<rparr>, rest)))"

definition Ready :: "Index \<Rightarrow> bool" where
  "Ready i = idx_ready i"

section \<open>Diagnostics\<close>

definition claimDiagnostic :: "instant \<Rightarrow> string \<Rightarrow> Index \<Rightarrow> bool \<times> Index" where
  "claimDiagnostic now ip i =
     (case diagnosedIPs i ip of
        Some expiry \<Rightarrow>
          if expiry > now then (False, i)
          else (True, i\<lparr>diagnosedIPs := (diagnosedIPs i)(ip \<mapsto> now + diagnosticTTL)\<rparr>)
      | None \<Rightarrow> (True, i\<lparr>diagnosedIPs := (diagnosedIPs i)(ip \<mapsto> now + diagnosticTTL)\<rparr>))"

text \<open>The function \<open>claimDiagnostic\<close> schedules with \<open>time.AfterFunc\<close>.\<close>

definition expireDiagnostic :: "string \<Rightarrow> instant \<Rightarrow> Index \<Rightarrow> Index" where
  "expireDiagnostic ip expiresAt i =
     (case diagnosedIPs i ip of
        Some current \<Rightarrow>
          if current = expiresAt then i\<lparr>diagnosedIPs := (diagnosedIPs i)(ip := None)\<rparr> else i
      | None \<Rightarrow> i)"

definition releaseDiagnostic :: "string \<Rightarrow> Index \<Rightarrow> Index" where
  "releaseDiagnostic ip i = i\<lparr>diagnosedIPs := (diagnosedIPs i)(ip := None)\<rparr>"

section \<open>Lookup\<close>

text \<open>
  What \<open>Lookup\<close> uses of the outside: \<open>listPods ns selector field\<close> is the client's \<open>List\<close> with
  an optional label selector and a field selector.
\<close>

record 'w lookup_env =
  listPods :: "string \<Rightarrow> string option \<Rightarrow> string \<Rightarrow> ('w, Pod list result) io"
  clock :: "'w \<Rightarrow> instant"
  during :: "Index \<Rightarrow> 'w \<Rightarrow> Index"
  sleep :: "duration \<Rightarrow> Index \<Rightarrow> 'w \<Rightarrow> Index \<times> 'w"

definition lookupCache :: "string \<Rightarrow> Index \<Rightarrow> string option" where
  "lookupCache ip i = byPodIP i ip"

definition lookupViaAPI :: "'w lookup_env \<Rightarrow> string \<Rightarrow> Index \<Rightarrow> 'w \<Rightarrow> string option \<times> Index \<times> 'w" where
  "lookupViaAPI env ip i w =
     (case listPods env (idx_namespace i) (Some (labelKey i)) (''status.podIP='' @ ip) w of
        (Inl e, w1) \<Rightarrow> (None, during env i w1, w1)
      | (Inr (pod # _), w1) \<Rightarrow>
          (let pid = label_value (labelKey i) pod;
               i1 = during env i w1
           in if pid = '''' then (None, snd (claimDiagnostic (clock env w1) ip i1), w1)
              else (Some pid, i1, w1))
      | (Inr [], w1) \<Rightarrow>
          (let (claimed, i1) = claimDiagnostic (clock env w1) ip (during env i w1)
           in if \<not> claimed then (None, i1, w1)
              else (case listPods env (idx_namespace i) None (''status.podIP='' @ ip) w1 of
                      (Inl e, w2) \<Rightarrow> (None, releaseDiagnostic ip (during env i1 w2), w2)
                    | (Inr _, w2) \<Rightarrow> (None, during env i1 w2, w2))))"

definition count_lookup :: "string \<Rightarrow> Index \<Rightarrow> Index" where
  "count_lookup result i = i\<lparr>idx_metrics := Lookup_metric result (idx_metrics i)\<rparr>"

text \<open>The polling loop with the number of rounds left.\<close>

fun lookup_loop :: "'w lookup_env \<Rightarrow> string \<Rightarrow> nat \<Rightarrow> Index \<Rightarrow> 'w \<Rightarrow> string option \<times> Index \<times> 'w" where
  "lookup_loop env ip 0 i w = (None, count_lookup LookupMiss i, w)"
| "lookup_loop env ip (Suc n) i w =
     (case lookupCache ip i of
        Some pid \<Rightarrow> (Some pid, count_lookup LookupCacheHit i, w)
      | None \<Rightarrow>
          (case lookupViaAPI env ip i w of
             (Some pid, i1, w1) \<Rightarrow>
               (Some pid, count_lookup LookupAPIFallback (i1\<lparr>byPodIP := (byPodIP i1)(ip \<mapsto> pid)\<rparr>), w1)
           | (None, i1, w1) \<Rightarrow>
               (case sleep env (100 * Millisecond) i1 w1 of
                  (i2, w2) \<Rightarrow> lookup_loop env ip n i2 w2)))"

definition Lookup :: "'w lookup_env \<Rightarrow> string \<Rightarrow> Index \<Rightarrow> 'w \<Rightarrow> string option \<times> Index \<times> 'w" where
  "Lookup env ip i w =
     (case lookupCache ip i of
        Some pid \<Rightarrow> (Some pid, count_lookup LookupCacheHit i, w)
      | None \<Rightarrow>
          if \<not> idx_client i \<or> idx_namespace i = '''' then (None, count_lookup LookupMiss i, w)
          else lookup_loop env ip 100 i w)"

section \<open>The index follows the events\<close>

text \<open>The effect an event has on one address: none, an id, or removal.\<close>

definition event_effect :: "string \<Rightarrow> string \<Rightarrow> event \<Rightarrow> string option option" where
  "event_effect key ip ev =
     (let ups = (\<lambda>ob. case ob of
            PodObj p \<Rightarrow> if label_value key p \<noteq> '''' \<and> pod_IP p \<noteq> '''' \<and> pod_IP p = ip
                        then Some (Some (label_value key p)) else None
          | _ \<Rightarrow> None);
          del = (\<lambda>p. if pod_IP p \<noteq> '''' \<and> pod_IP p = ip then Some None else None)
      in case ev of
           AddEv ob \<Rightarrow> ups ob
         | UpdateEv _ ob \<Rightarrow> ups ob
         | DeleteEv (PodObj p) \<Rightarrow> del p
         | DeleteEv (Tombstone (Some p)) \<Rightarrow> del p
         | DeleteEv _ \<Rightarrow> None)"

lemma labelKey_handle [simp]: "labelKey (handle_event ev i) = labelKey i"
  by (cases ev)
    (simp_all add: upsertFromObj_def deleteFromObj_def deletePod_def Let_def split: obj.splits option.splits)

lemma handle_event_effect:
  "byPodIP (handle_event ev i) ip =
     (case event_effect (labelKey i) ip ev of None \<Rightarrow> byPodIP i ip | Some v \<Rightarrow> v)"
  by (cases ev)
    (auto simp: event_effect_def upsertFromObj_def deleteFromObj_def deletePod_def Let_def
      split: obj.splits option.splits)

text \<open>The specification: the last event that concerns an address decides it.\<close>

fun last_effect :: "string \<Rightarrow> string \<Rightarrow> event list \<Rightarrow> string option option" where
  "last_effect key ip [] = None"
| "last_effect key ip (ev # evs) =
     (case last_effect key ip evs of Some v \<Rightarrow> Some v | None \<Rightarrow> event_effect key ip ev)"

lemma last_event_wins:
  "byPodIP (fold handle_event evs i) ip =
     (case last_effect (labelKey i) ip evs of None \<Rightarrow> byPodIP i ip | Some v \<Rightarrow> v)"
  by (induction evs arbitrary: i) (auto simp: handle_event_effect split: option.splits)

text \<open>
  The index refines the stream of informer events: after any sequence of add, update and
  delete events an address is mapped exactly as the last event that concerns it says (an upsert
  of a pod with that address and a non-empty label, or a deletion of a pod or tombstone with that
  address), and as before if none does.
\<close>

theorem index_follows_last_event:
  "byPodIP (fold handle_event evs i) ip =
     (case last_effect (labelKey i) ip evs of None \<Rightarrow> byPodIP i ip | Some v \<Rightarrow> v)"
  by (rule last_event_wins)

section \<open>Correctness of Lookup\<close>

text \<open>
  \<open>T ip pid\<close> says that pod IP \<open>ip\<close> may stand for \<open>pid\<close>.  The index is sound for \<open>T\<close> when all
  its entries are; the environment is sound when other goroutines keep that and the API lists,
  for the selectors \<open>Lookup\<close> uses, only pods whose label \<open>T\<close> allows.
\<close>

definition idx_sound :: "(string \<Rightarrow> string \<Rightarrow> bool) \<Rightarrow> Index \<Rightarrow> bool" where
  "idx_sound T i \<longleftrightarrow> (\<forall>ip pid. byPodIP i ip = Some pid \<longrightarrow> T ip pid)"

definition env_sound :: "(string \<Rightarrow> string \<Rightarrow> bool) \<Rightarrow> 'w lookup_env \<Rightarrow> bool" where
  "env_sound T env \<longleftrightarrow>
     (\<forall>i w. idx_sound T i \<longrightarrow> idx_sound T (during env i w)) \<and>
     (\<forall>d i w. idx_sound T i \<longrightarrow> idx_sound T (fst (sleep env d i w))) \<and>
     (\<forall>ns key ip w pods w' p. listPods env ns (Some key) (''status.podIP='' @ ip) w = (Inr pods, w') \<and>
        p \<in> set pods \<and> label_value key p \<noteq> '''' \<longrightarrow> T ip (label_value key p))"

lemma byPodIP_claim [simp]: "byPodIP (snd (claimDiagnostic now ip i)) = byPodIP i"
  by (simp add: claimDiagnostic_def split: option.splits)

lemma byPodIP_release [simp]: "byPodIP (releaseDiagnostic ip i) = byPodIP i"
  by (simp add: releaseDiagnostic_def)

lemma byPodIP_count [simp]: "byPodIP (count_lookup r i) = byPodIP i"
  by (simp add: count_lookup_def)

lemma idx_sound_byPodIP: "byPodIP i' = byPodIP i \<Longrightarrow> idx_sound T i \<Longrightarrow> idx_sound T i'"
  by (simp add: idx_sound_def)

lemma env_during: "env_sound T env \<Longrightarrow> idx_sound T i \<Longrightarrow> idx_sound T (during env i w)"
  by (simp add: env_sound_def)

lemma lookupViaAPI_sound:
  assumes "env_sound T env" and "idx_sound T i" and "lookupViaAPI env ip i w = (res, i', w')"
  shows "idx_sound T i' \<and> (\<forall>pid. res = Some pid \<longrightarrow> T ip pid \<and> pid \<noteq> '''')"
proof -
  let ?l = "listPods env (idx_namespace i) (Some (labelKey i)) (''status.podIP='' @ ip) w"
  consider (err) e w1 where "?l = (Inl e, w1)" | (none) w1 where "?l = (Inr [], w1)"
    | (pod) p ps w1 where "?l = (Inr (p # ps), w1)"
    by (metis list.exhaust old.sum.exhaust surj_pair)
  then show ?thesis
  proof cases
    case err
    then show ?thesis using assms by (auto simp: lookupViaAPI_def env_during)
  next
    case (pod p ps w1)
    then have "label_value (labelKey i) p \<noteq> '''' \<longrightarrow> T ip (label_value (labelKey i) p)"
      using assms(1) unfolding env_sound_def by (metis list.set_intros(1))
    with pod show ?thesis
      using assms by (auto simp: lookupViaAPI_def env_during Let_def split: if_splits
          intro: idx_sound_byPodIP [of _ "during env i w1"])
  next
    case (none w1)
    obtain cl i1 where c: "claimDiagnostic (clock env w1) ip (during env i w1) = (cl, i1)" by fastforce
    then have "idx_sound T i1"
      using assms byPodIP_claim [of "clock env w1" ip "during env i w1"]
      by (auto simp: env_during intro: idx_sound_byPodIP)
    then show ?thesis
      using assms c none by (auto simp: lookupViaAPI_def env_during
          intro: idx_sound_byPodIP [of _ "during env i1 _"] split: if_splits prod.splits sum.splits)
  qed
qed

lemma lookup_loop_sound:
  "env_sound T env \<Longrightarrow> idx_sound T i \<Longrightarrow> lookup_loop env ip n i w = (res, i', w') \<Longrightarrow>
     idx_sound T i' \<and> (\<forall>pid. res = Some pid \<longrightarrow> T ip pid \<and> byPodIP i' ip = Some pid)"
proof (induction n arbitrary: i w)
  case 0
  then show ?case by (auto intro: idx_sound_byPodIP)
next
  case (Suc n)
  show ?case
  proof (cases "lookupCache ip i")
    case (Some pid)
    with Suc.prems show ?thesis
      by (auto simp: lookupCache_def idx_sound_def)
  next
    case None
    obtain r i1 w1 where api: "lookupViaAPI env ip i w = (r, i1, w1)" by (metis prod_cases3)
    note s = lookupViaAPI_sound [OF Suc.prems(1,2) api]
    show ?thesis
    proof (cases r)
      case (Some pid)
      with None api Suc.prems(3) s show ?thesis by (auto simp: idx_sound_def split: if_splits)
    next
      case rn: None
      obtain i2 w2 where sl: "sleep env (100 * Millisecond) i1 w1 = (i2, w2)" by fastforce
      with s Suc.prems(1) have "idx_sound T i2" unfolding env_sound_def by (metis fst_conv)
      from Suc.IH [OF Suc.prems(1) this, of w2] show ?thesis
        using None rn api sl Suc.prems(3) by simp
    qed
  qed
qed

text \<open>
  C31.  Lookup is sound and caches: if every entry of the index and every labelled pod the API
  lists for the address is right about an address, and other goroutines keep the index right, then
  the id \<open>Lookup\<close> returns is right, the index stays right, and it now holds that id, so the next
  lookup of the address is answered from the cache without any API call.
\<close>

theorem Lookup_sound_and_cached:
  fixes env :: "'w lookup_env"
  assumes "env_sound T env" and "idx_sound T i" and "Lookup env ip i w = (Some pid, i', w')"
  shows "T ip pid \<and> idx_sound T i' \<and>
    (\<forall>(env' :: 'w lookup_env) w2. Lookup env' ip i' w2 = (Some pid, count_lookup LookupCacheHit i', w2))"
proof -
  have "T ip pid \<and> idx_sound T i' \<and> byPodIP i' ip = Some pid"
  proof (cases "lookupCache ip i")
    case (Some p)
    with assms show ?thesis by (auto simp: Lookup_def lookupCache_def idx_sound_def)
  next
    case None
    with assms have "lookup_loop env ip 100 i w = (Some pid, i', w')"
      by (auto simp: Lookup_def split: if_splits)
    from lookup_loop_sound [OF assms(1,2) this] show ?thesis by simp
  qed
  then show ?thesis by (simp add: Lookup_def lookupCache_def)
qed

text \<open>An API that knows one labelled pod, for examples; the world is the time slept.\<close>

definition example_env :: "instant lookup_env" where
  "example_env = \<lparr>
     listPods = (\<lambda>ns sel field w. (Inr (if field = ''status.podIP=10.0.0.7'' \<and> sel \<noteq> None
        then [\<lparr>pod_name = ''p'', pod_labels = [''playwright-id'' \<mapsto> ''alpha''], pod_IP = ''10.0.0.7''\<rparr>]
        else []), w)),
     clock = (\<lambda>w. w), during = (\<lambda>i w. i), sleep = (\<lambda>d i w. (i, w + d))\<rparr>"

definition example_index :: Index where
  "example_index = New_Index ''playwright-id'' True ''ns'' None"

lemma example_lookup:
  "Lookup example_env ''10.0.0.7'' example_index 0 =
     (Some ''alpha'', example_index\<lparr>byPodIP := [''10.0.0.7'' \<mapsto> ''alpha'']\<rparr>, 0)"
  by (simp add: Lookup_def lookupCache_def example_index_def New_Index_def numeral_eq_Suc
      lookupViaAPI_def example_env_def label_value_def count_lookup_def Lookup_metric_def
      RegisterRegisteredPods_def register_def)

theorem Lookup_sound_and_cached_witness:
  "fst (Lookup example_env ''10.0.0.7''
     (example_index\<lparr>byPodIP := [''10.0.0.7'' \<mapsto> ''alpha'']\<rparr>) 0) = Some ''alpha''"
proof -
  let ?T = "\<lambda>ip pid. ip = ''10.0.0.7'' \<and> pid = ''alpha''"
  have "env_sound ?T example_env"
    by (auto simp: env_sound_def example_env_def label_value_def split: if_splits)
  moreover have "idx_sound ?T example_index"
    by (simp add: idx_sound_def example_index_def New_Index_def)
  ultimately show ?thesis
    using Lookup_sound_and_cached [OF _ _ example_lookup, of ?T] by simp
qed

lemma lookup_loop_miss_waits:
  assumes sl: "\<And>d i w i' w'. sleep env d i w = (i', w') \<Longrightarrow> clock env w + d \<le> clock env w'"
    and li: "\<And>ns s f w r w'. listPods env ns s f w = (r, w') \<Longrightarrow> clock env w \<le> clock env w'"
  shows "lookup_loop env ip n i w = (None, i', w') \<Longrightarrow>
    clock env w + int n * (100 * Millisecond) \<le> clock env w'"
proof (induction n arbitrary: i w)
  case 0
  then show ?case by simp
next
  case (Suc n)
  obtain r i1 w1 where api: "lookupViaAPI env ip i w = (r, i1, w1)" by (metis prod_cases3)
  have "clock env w \<le> clock env w1"
    using api by (auto simp: lookupViaAPI_def Let_def split: prod.splits sum.splits list.splits if_splits
        dest!: li)
  moreover obtain i2 w2 where s2: "sleep env (100 * Millisecond) i1 w1 = (i2, w2)" by fastforce
  moreover from Suc.prems api s2 have "lookup_loop env ip n i2 w2 = (None, i', w')"
    by (auto split: option.splits)
  ultimately show ?case
    using Suc.IH [of i2 w2] sl [OF s2] by (simp add: algebra_simps)
qed

text \<open>
  How long a caller that cannot be identified is held: on an index with an API client, if
  \<open>Sleep(d)\<close> lasts at least \<open>d\<close> and no API call turns the clock back, a lookup that fails has
  waited at least 10 s (100 rounds of 100 ms), not the "up to ~3 s" of the function's comment.
\<close>

theorem Lookup_miss_holds_caller_10s:
  assumes "\<And>d i w i' w'. sleep env d i w = (i', w') \<Longrightarrow> clock env w + d \<le> clock env w'"
    and "\<And>ns s f w r w'. listPods env ns s f w = (r, w') \<Longrightarrow> clock env w \<le> clock env w'"
    and "idx_client i" and "idx_namespace i \<noteq> ''''" and "Lookup env ip i w = (None, i', w')"
  shows "clock env w + 10 * Second \<le> clock env w'"
proof -
  from assms(3-5) have "lookup_loop env ip 100 i w = (None, i', w')"
    by (auto simp: Lookup_def split: option.splits)
  from lookup_loop_miss_waits [OF assms(1,2) this] show ?thesis
    by (simp add: duration_defs)
qed

definition empty_env :: "instant lookup_env" where
  "empty_env = \<lparr>listPods = (\<lambda>ns sel field w. (Inr [], w)), clock = (\<lambda>w. w),
     during = (\<lambda>i w. i), sleep = (\<lambda>d i w. (i, w + d))\<rparr>"

lemma empty_env_misses:
  "byPodIP i ip = None \<Longrightarrow> fst (lookup_loop empty_env ip n i w) = None"
proof (induction n arbitrary: i w)
  case 0
  then show ?case by simp
next
  case (Suc n)
  have api: "lookupViaAPI empty_env ip i w = (None, snd (claimDiagnostic w ip i), w)"
    by (simp add: lookupViaAPI_def empty_env_def case_prod_beta)
  have "byPodIP (snd (claimDiagnostic w ip i)) ip = None" using Suc.prems by simp
  moreover have "sleep empty_env d i w = (i, w + d)" for d i w by (simp add: empty_env_def)
  ultimately show ?case using Suc by (simp add: lookupCache_def api)
qed

theorem Lookup_miss_holds_caller_10s_witness:
  "10 * Second \<le> snd (snd (Lookup empty_env ''10.9.9.9'' example_index 0))"
proof -
  have "fst (Lookup empty_env ''10.9.9.9'' example_index 0) = None"
    using empty_env_misses [of example_index "''10.9.9.9''" 100 0]
    by (simp add: Lookup_def lookupCache_def example_index_def New_Index_def)
  then obtain i' w' where l: "Lookup empty_env ''10.9.9.9'' example_index 0 = (None, i', w')"
    by (metis prod.collapse)
  have "clock empty_env 0 + 10 * Second \<le> clock empty_env w'"
    by (rule Lookup_miss_holds_caller_10s [OF _ _ _ _ l])
      (auto simp: empty_env_def example_index_def New_Index_def)
  then show ?thesis by (simp add: l) (simp add: empty_env_def)
qed

section \<open>Diagnostics are bounded\<close>

text \<open>
  Diagnostics for an unresolved address are issued once per 10 minutes: after one claim every
  further claim for that address before its expiry is refused and changes nothing, the scheduled
  expiry removes exactly that claim and no claim for another address or of another instant, and a
  claim at or after the expiry succeeds again.
\<close>

theorem diagnostic_claimed_once_per_TTL:
  assumes "claimDiagnostic now ip i = (True, i')"
  shows "(\<forall>t. t < now + diagnosticTTL \<longrightarrow> claimDiagnostic t ip i' = (False, i')) \<and>
    (\<forall>t. now + diagnosticTTL \<le> t \<longrightarrow> fst (claimDiagnostic t ip i')) \<and>
    (\<forall>ip2. diagnosedIPs (expireDiagnostic ip (now + diagnosticTTL) i') ip2 =
        (if ip2 = ip then None else diagnosedIPs i ip2)) \<and>
    (\<forall>x. x \<noteq> now + diagnosticTTL \<longrightarrow> expireDiagnostic ip x i' = i')"
  using assms
  by (auto simp: claimDiagnostic_def expireDiagnostic_def split: option.splits if_splits)

theorem diagnostic_claimed_once_per_TTL_witness:
  "claimDiagnostic 5 ''10.0.0.9'' (snd (claimDiagnostic 0 ''10.0.0.9'' example_index)) =
     (False, snd (claimDiagnostic 0 ''10.0.0.9'' example_index))"
proof -
  have "claimDiagnostic 0 ''10.0.0.9'' example_index =
      (True, snd (claimDiagnostic 0 ''10.0.0.9'' example_index))"
    by (simp add: claimDiagnostic_def example_index_def New_Index_def)
  from diagnostic_claimed_once_per_TTL [OF this] show ?thesis
    by (simp add: diagnosticTTL_def Minute_def)
qed

section \<open>Addresses that change hands\<close>

text \<open>
  A finished pod keeps its address in \<open>status.podIP\<close>, and the handlers do not look at the pod
  they store or remove.  When a new pod has the address of an older labelled pod, an update event
  of the older pod maps the address back to the older pod's id, and a deletion of the older pod
  removes the entry of the new one, whatever else the index holds.
\<close>

theorem reused_address_misattributed:
  assumes "pod_IP old = ip" and "pod_IP new = ip" and "ip \<noteq> ''''"
    and "label_value (labelKey i) old \<noteq> ''''" and "label_value (labelKey i) new \<noteq> ''''"
  shows "byPodIP (fold handle_event [AddEv (PodObj new), UpdateEv ob (PodObj old)] i) ip
      = Some (label_value (labelKey i) old) \<and>
    byPodIP (fold handle_event [AddEv (PodObj new), DeleteEv (PodObj old)] i) ip = None"
  using assms by (auto simp: upsertFromObj_def deleteFromObj_def deletePod_def Let_def)

theorem reused_address_misattributed_witness:
  "let old = \<lparr>pod_name = ''job'', pod_labels = [''playwright-id'' \<mapsto> ''alpha''], pod_IP = ''10.0.0.7''\<rparr>;
       new = \<lparr>pod_name = ''web'', pod_labels = [''playwright-id'' \<mapsto> ''beta''], pod_IP = ''10.0.0.7''\<rparr>
   in byPodIP (fold handle_event [AddEv (PodObj new), UpdateEv OtherObj (PodObj old)] example_index) ''10.0.0.7''
     = Some ''alpha''"
  using reused_address_misattributed
    [of "\<lparr>pod_name = ''job'', pod_labels = [''playwright-id'' \<mapsto> ''alpha''], pod_IP = ''10.0.0.7''\<rparr>"
      "''10.0.0.7''" "\<lparr>pod_name = ''web'', pod_labels = [''playwright-id'' \<mapsto> ''beta''], pod_IP = ''10.0.0.7''\<rparr>"
      example_index OtherObj]
  by (simp add: label_value_def example_index_def New_Index_def Let_def)

end
