(* ===== verification/Proxy.thy ===== *)
theory Proxy
  imports Go_Http Session_Reap Identify
begin

text \<open>
  Package \<open>internal/proxy\<close>: the request handler.  It identifies the caller by its address, gets
  the session of its playwright-id, and forwards the request, either through
  \<open>httputil.ReverseProxy\<close> with one replay after a failed dial (\<open>retryingTransport\<close>), or by
  splicing two connections for a WebSocket.

  The state of a handler is the index, the session manager, the metrics and the rest of the world.
  Everything outside the program is a field of \<open>proxy_env\<close>; \<open>meanwhile\<close> is what the other
  goroutines do to the session manager while the handler waits on the network.
\<close>

section \<open>State\<close>

definition maxReplayBodyBytes :: nat where
  "maxReplayBodyBytes = 1048576"

type_synonym request = "sref Request"
type_synonym conn = nat

record 'w pst =
  p_idx :: Index
  p_mgr :: Manager
  p_mx :: "Metrics option"
  p_w :: 'w

record 'w proxy_env =
  lk_env :: "'w lookup_env"
  pnow :: "'w \<Rightarrow> instant"
  waitFor :: "'w \<Rightarrow> waiter"
  meanwhile :: "'w \<Rightarrow> Manager \<Rightarrow> Manager"
  inner :: "request \<Rightarrow> ('w, Response result) io"
  relay :: "Response \<Rightarrow> ('w, err option) io" \<comment> \<open>copying a response body to the client\<close>
  hijacker :: bool \<comment> \<open>whether the response writer is an \<open>http.Hijacker\<close>\<close>
  dial :: "string \<Rightarrow> ('w, conn result) io"
  writeReq :: "conn \<Rightarrow> request \<Rightarrow> ('w, err option) io"
  readResp :: "conn \<Rightarrow> ('w, Response result) io"
  hijack :: "('w, nat result) io" \<comment> \<open>with the number of bytes already buffered\<close>
  writeClient :: "string \<Rightarrow> ('w, err option) io"
  copyBuffered :: "conn \<Rightarrow> nat \<Rightarrow> ('w, int \<times> err option) io"
  copyToBackend :: "conn \<Rightarrow> ('w, int) io"
  copyToClient :: "conn \<Rightarrow> ('w, int) io"
  errText :: "err \<Rightarrow> string"
  headerText :: "Header \<Rightarrow> string"
  informational :: "'w \<Rightarrow> int list" \<comment> \<open>the 1xx statuses the backend sent before its response\<close>

text \<open>What the client gets.\<close>

datatype reply =
    ErrorReply int string \<comment> \<open>\<open>http.Error\<close>\<close>
  | Relayed int Header body \<comment> \<open>the backend's response\<close>
  | Aborted int Header \<comment> \<open>the response ends with an aborted connection (a panic with \<open>ErrAbortHandler\<close>)\<close>
  | Tunnelled string \<comment> \<open>the connection was hijacked, the handshake written and both sides spliced\<close>
  | Dropped \<comment> \<open>the connection was hijacked and closed\<close>
  | Silent \<comment> \<open>nothing is written\<close>

section \<open>Helpers\<close>

definition isDialFailure :: "err \<Rightarrow> bool" where
  "isDialFailure e = (errors_As_op e = Some ''dial'')"

definition isWebsocketUpgrade :: "request \<Rightarrow> bool" where
  "isWebsocketUpgrade r =
     (let conn = Header_Get (rq_Header r) ''Connection'';
          upg = Header_Get (rq_Header r) ''Upgrade''
      in strings_Contains (strings_ToLower conn) ''upgrade'' \<and> strings_EqualFold upg ''websocket'')"

definition clientIPFromReq :: "request \<Rightarrow> addr_error + string" where
  "clientIPFromReq r = (case net_SplitHostPort (rq_RemoteAddr r) of Inl e \<Rightarrow> Inl e | Inr (host, _) \<Rightarrow> Inr host)"

definition clientIPMust :: "request \<Rightarrow> string" where
  "clientIPMust r = (case clientIPFromReq r of Inl _ \<Rightarrow> [] | Inr ip \<Rightarrow> ip)"

definition routeRequest :: "Endpoint \<Rightarrow> request \<Rightarrow> request" where
  "routeRequest ep r =
     (let r1 = r\<lparr>rq_Host := rq_URLHost r\<rparr>;
          h = Header_Del ''ate-target-actor'' (rq_Header r1);
          h = (if TargetActor ep \<noteq> [] then Header_Set ''ate-target-actor'' (TargetActor ep) h else h)
      in r1\<lparr>rq_Header := h\<rparr>)"

text \<open>
  \<open>statusRecorder\<close>: the first status, whether one was written, whether the wrapped writer is an
  \<open>http.Flusher\<close>, and the calls that reached it.
\<close>

datatype writer_call = WroteHeader int | Flushed

record statusRecorder =
  sr_status :: int
  sr_wroteHeader :: bool
  sr_flusher :: bool
  sr_calls :: "writer_call list"

definition WriteHeader :: "int \<Rightarrow> statusRecorder \<Rightarrow> statusRecorder" where
  "WriteHeader code s =
     (let s = (if \<not> sr_wroteHeader s then s\<lparr>sr_status := code, sr_wroteHeader := True\<rparr> else s)
      in s\<lparr>sr_calls := sr_calls s @ [WroteHeader code]\<rparr>)"

definition Flush :: "statusRecorder \<Rightarrow> statusRecorder" where
  "Flush s = (if sr_flusher s then s\<lparr>sr_calls := sr_calls s @ [Flushed]\<rparr> else s)"

definition endpoint_of :: "sref \<Rightarrow> Manager \<Rightarrow> Endpoint" where
  "endpoint_of r m = (case heap m r of Some s \<Rightarrow> sEndpoint s | None \<Rightarrow> zero_Endpoint)"

definition id_of :: "sref \<Rightarrow> Manager \<Rightarrow> string" where
  "id_of r m = (case heap m r of Some s \<Rightarrow> sID s | None \<Rightarrow> [])"

text \<open>
  \<open>New\<close>: the handler over its session manager, index and metrics, in the world \<open>w\<close>.  The kind of the
  backend is kept by the source and never read.
\<close>

definition New_Handler :: "Manager \<Rightarrow> Index \<Rightarrow> string \<Rightarrow> Metrics option \<Rightarrow> 'w \<Rightarrow> 'w pst" where
  "New_Handler sm idx kind mx w = \<lparr>p_idx = idx, p_mgr = sm, p_mx = mx, p_w = w\<rparr>"

section \<open>Steps of a handler\<close>

definition call :: "'w proxy_env \<Rightarrow> ('w, 'a) io \<Rightarrow> 'w pst \<Rightarrow> 'a \<times> 'w pst" where
  "call env f st =
     (case f (p_w st) of (x, w) \<Rightarrow> (x, st\<lparr>p_w := w, p_mgr := meanwhile env w (p_mgr st)\<rparr>))"

definition count :: "(Metrics option \<Rightarrow> Metrics option) \<Rightarrow> 'w pst \<Rightarrow> 'w pst" where
  "count f st = st\<lparr>p_mx := f (p_mx st)\<rparr>"

definition on_session :: "'w proxy_env \<Rightarrow> sref \<Rightarrow> (instant \<Rightarrow> Session \<Rightarrow> Session) \<Rightarrow> 'w pst \<Rightarrow> 'w pst" where
  "on_session env r f st = st\<lparr>p_mgr := upd_session r (f (pnow env (p_w st))) (p_mgr st)\<rparr>"

definition get_session :: "'w proxy_env \<Rightarrow> string \<Rightarrow> 'w pst \<Rightarrow> sref result \<times> 'w pst" where
  "get_session env pid st =
     (case Get (waitFor env (p_w st)) (pnow env (p_w st)) (pnow env (p_w st)) pid (p_mgr st) of
        (x, m) \<Rightarrow> (x, st\<lparr>p_mgr := m\<rparr>))"

definition refresh_session :: "'w proxy_env \<Rightarrow> sref \<Rightarrow> 'w pst \<Rightarrow> sref result \<times> 'w pst" where
  "refresh_session env r st =
     (case Refresh (waitFor env (p_w st)) (pnow env (p_w st)) (pnow env (p_w st)) r (id_of r (p_mgr st)) (p_mgr st) of
        (x, m) \<Rightarrow> (x, st\<lparr>p_mgr := m\<rparr>))"

section \<open>The HTTP path\<close>

definition RoundTrip :: "'w proxy_env \<Rightarrow> request \<Rightarrow> 'w pst \<Rightarrow> Response result \<times> 'w pst" where
  "RoundTrip env req st =
     (case call env (inner env req) st of
        (Inr resp, st1) \<Rightarrow> (Inr resp, st1)
      | (Inl e, st1) \<Rightarrow>
          if \<not> isDialFailure e then (Inl e, st1)
          else (case rq_sess req of
            None \<Rightarrow> (Inl e, st1)
          | Some r \<Rightarrow>
              if rq_Body req \<noteq> None \<and> rq_GetBody req = None then (Inl e, st1)
              else (case refresh_session env r st1 of
                (Inl _, st2) \<Rightarrow> (Inl e, st2)
              | (Inr r', st2) \<Rightarrow>
                  (let ep = endpoint_of r' (p_mgr st2);
                       req2 = (case rq_GetBody req of
                                 Some b \<Rightarrow> req\<lparr>rq_Body := Some (b, None)\<rparr> | None \<Rightarrow> req);
                       req2 = routeRequest ep (req2\<lparr>rq_URLHost := MCPAddr ep\<rparr>)
                   in call env (inner env req2) st2))))"

definition proxyError :: "'w proxy_env \<Rightarrow> err \<Rightarrow> 'w pst \<Rightarrow> reply \<times> 'w pst" where
  "proxyError env e st =
     (if errors_Is_canceled e then (Silent, st)
      else (ErrorReply 502 (''upstream error: '' @ errText env e), count (ProxyError ''upstream'') st))"

text \<open>
  \<open>httputil.ReverseProxy.ServeHTTP\<close>.  A 101 response goes to the error handler: the response
  writer it is given is the \<open>statusRecorder\<close>, which cannot be hijacked.  If copying the body
  fails, the reverse proxy panics with \<open>ErrAbortHandler\<close>.
\<close>

definition bad_upgrade :: err where
  "bad_upgrade = ErrMsg ''client tried to switch to invalid protocol''"

definition no_hijacker :: err where
  "no_hijacker = ErrMsg ''cannot switch protocols using non-Hijacker ResponseWriter type''"

definition reverse_proxy :: "'w proxy_env \<Rightarrow> request \<Rightarrow> 'w pst \<Rightarrow> reply \<times> 'w pst" where
  "reverse_proxy env req st =
     (if \<not> IsPrint (upgradeType (rq_Header req)) then proxyError env bad_upgrade st
      else (case RoundTrip env (rp_outreq req) st of
        (Inl e, st1) \<Rightarrow> proxyError env e st1
      | (Inr resp, st1) \<Rightarrow>
          if rs_StatusCode resp = 101 then proxyError env no_hijacker st1
          else (case call env (relay env resp) st1 of
            (None, st2) \<Rightarrow> (Relayed (rs_StatusCode resp) (removeHopByHopHeaders (rs_Header resp)) (rs_Body resp), st2)
          | (Some _, st2) \<Rightarrow> (Aborted (rs_StatusCode resp) (removeHopByHopHeaders (rs_Header resp)), st2))))"

text \<open>
  The status the recorder has at the end: \<open>ReverseProxy\<close> writes the informational statuses it is sent,
  then the status of the response or of the error; the flushes in between do not change it.
\<close>

definition recorded_status :: "int list \<Rightarrow> reply \<Rightarrow> int" where
  "recorded_status infos rep =
     sr_status (fold WriteHeader (infos @ (case rep of ErrorReply c _ \<Rightarrow> [c] | Relayed c _ _ \<Rightarrow> [c] | _ \<Rightarrow> []))
       \<lparr>sr_status = 200, sr_wroteHeader = False, sr_flusher = True, sr_calls = []\<rparr>)"

text \<open>The request that is handed to the reverse proxy: its target and its buffered body.\<close>

definition mcp_request :: "Endpoint \<Rightarrow> request \<Rightarrow> request" where
  "mcp_request ep rq =
     (routeRequest ep (rq\<lparr>rq_Scheme := ''http'', rq_URLHost := MCPAddr ep\<rparr>))\<lparr>rq_RequestURI := []\<rparr>"

definition buffer_body :: "request \<Rightarrow> request result" where
  "buffer_body r =
     (case rq_Body r of
        None \<Rightarrow> Inr r
      | Some b \<Rightarrow>
          (case read_limited (maxReplayBodyBytes + 1) b of
             (Inl e, _) \<Rightarrow> Inl e
           | (Inr buf, rest) \<Rightarrow>
               if length buf > maxReplayBodyBytes then Inr (r\<lparr>rq_Body := Some (multi_reader buf rest)\<rparr>)
               else Inr (r\<lparr>rq_Body := Some (buf, None), rq_GetBody := Some buf\<rparr>)))"

definition handleHTTP :: "'w proxy_env \<Rightarrow> request \<Rightarrow> sref \<Rightarrow> 'w pst \<Rightarrow> reply \<times> 'w pst" where
  "handleHTTP env rq r st =
     (case buffer_body (mcp_request (endpoint_of r (p_mgr st)) rq) of
        Inl e \<Rightarrow> (ErrorReply 502 (''reading request body: '' @ errText env e), st)
      | Inr r2 \<Rightarrow>
          (let start = pnow env (p_w st)
           in case reverse_proxy env (r2\<lparr>rq_sess := Some r\<rparr>) st of
                (Aborted c h, st1) \<Rightarrow> (Aborted c h, st1)
              | (rep, st1) \<Rightarrow>
                  (rep, on_session env r MarkActive
                    (count (RecordRequest ''http'' (strconv_Itoa (recorded_status (informational env (p_w st1)) rep)) (pnow env (p_w st1) - start)) st1))))"

section \<open>The WebSocket path\<close>

text \<open>Dialling the backend, with one refresh; the session that is used from then on.\<close>

definition dial_backend :: "'w proxy_env \<Rightarrow> sref \<Rightarrow> 'w pst \<Rightarrow> (conn result \<times> sref) \<times> 'w pst" where
  "dial_backend env r st =
     (case call env (dial env (Addr (endpoint_of r (p_mgr st)))) st of
        (Inr c, st1) \<Rightarrow> ((Inr c, r), st1)
      | (Inl e, st1) \<Rightarrow>
          (case refresh_session env r (count BackendDialFailure st1) of
             (Inl _, st2) \<Rightarrow> ((Inl e, r), st2)
           | (Inr r', st2) \<Rightarrow>
               (case call env (dial env (Addr (endpoint_of r' (p_mgr st2)))) st2 of
                  (Inr c, st3) \<Rightarrow> ((Inr c, r'), st3)
                | (Inl e', st3) \<Rightarrow> ((Inl e', r'), count BackendDialFailure st3))))"

definition ws_request :: "Endpoint \<Rightarrow> request \<Rightarrow> request" where
  "ws_request ep rq =
     (let out = routeRequest ep (rq\<lparr>rq_Scheme := ''http'', rq_URLHost := Addr ep\<rparr>)
      in out\<lparr>rq_Header := Header_Set ''X-Forwarded-For'' (clientIPMust rq) (rq_Header out)\<rparr>)"

definition handshake_bytes :: "'w proxy_env \<Rightarrow> Response \<Rightarrow> string" where
  "handshake_bytes env resp =
     rs_Proto resp @ '' '' @ rs_Status resp @ [CHR 0x0D, CHR 0x0A] @ headerText env (rs_Header resp) @
     [CHR 0x0D, CHR 0x0A]"

text \<open>The goroutine that copies from the client to the backend: the number of bytes it counts.\<close>

definition pump_c2b :: "'w proxy_env \<Rightarrow> conn \<Rightarrow> nat \<Rightarrow> 'w pst \<Rightarrow> int \<times> 'w pst" where
  "pump_c2b env c buffered st =
     (if buffered > 0 then
        (case call env (copyBuffered env c buffered) st of
           ((n, Some _), st1) \<Rightarrow> (n, st1)
         | ((n, None), st1) \<Rightarrow>
             (case call env (copyToBackend env c) st1 of (k, st2) \<Rightarrow> (n + k, st2)))
      else call env (copyToBackend env c) st)"

definition tunnel :: "'w proxy_env \<Rightarrow> conn \<Rightarrow> nat \<Rightarrow> sref \<Rightarrow> 'w pst \<Rightarrow> 'w pst" where
  "tunnel env c buffered r st =
     (let st1 = count ConnOpened_metric (on_session env r ConnOpened st);
          start = pnow env (p_w st1);
          (c2b, st2) = pump_c2b env c buffered st1;
          (b2c, st3) = call env (copyToClient env c) st2
      in count (AddBytes DirBackendToClient b2c)
          (count (AddBytes DirClientToBackend c2b)
            (count (ConnClosed_metric ''ws'' (pnow env (p_w st3) - start))
              (on_session env r ConnClosed st3))))"

definition handleWS :: "'w proxy_env \<Rightarrow> request \<Rightarrow> sref \<Rightarrow> 'w pst \<Rightarrow> reply \<times> 'w pst" where
  "handleWS env rq r0 st =
     (if \<not> hijacker env then (ErrorReply 500 ''server does not support hijacking'', st)
      else case dial_backend env r0 st of
        ((Inl e, _), st1) \<Rightarrow> (ErrorReply 502 (''backend dial failed: '' @ errText env e), st1)
      | ((Inr c, r), st1) \<Rightarrow>
          (case call env (writeReq env c (ws_request (endpoint_of r (p_mgr st1)) rq)) st1 of
             (Some e, st2) \<Rightarrow> (ErrorReply 502 (''backend write failed: '' @ errText env e), st2)
           | (None, st2) \<Rightarrow>
               (case call env (readResp env c) st2 of
                  (Inl e, st3) \<Rightarrow>
                    (ErrorReply 502 (''backend response failed: '' @ errText env e), count (ProxyError ''ws_upstream'') st3)
                | (Inr resp, st3) \<Rightarrow>
                    (let st4 = count (CountRequest ''ws'' (strconv_Itoa (rs_StatusCode resp))) st3
                     in if rs_StatusCode resp \<noteq> 101 then
                          (Relayed (rs_StatusCode resp) (rs_Header resp) (rs_Body resp), snd (call env (relay env resp) st4))
                        else (case call env (hijack env) st4 of
                          (Inl _, st5) \<Rightarrow> (Silent, st5)
                        | (Inr buffered, st5) \<Rightarrow>
                            (case call env (writeClient env (handshake_bytes env resp)) st5 of
                               (Some _, st6) \<Rightarrow> (Dropped, st6)
                             | (None, st6) \<Rightarrow>
                                 (Tunnelled (handshake_bytes env resp), tunnel env c buffered r st6)))))))"

section \<open>The handler\<close>

definition lookup_client :: "'w proxy_env \<Rightarrow> string \<Rightarrow> 'w pst \<Rightarrow> string option \<times> 'w pst" where
  "lookup_client env ip st =
     (case Lookup (lk_env env) ip (p_idx st) (p_w st) of
        (x, i, w) \<Rightarrow> (x, st\<lparr>p_idx := i, p_w := w, p_mgr := meanwhile env w (p_mgr st)\<rparr>))"

definition ServeHTTP :: "'w proxy_env \<Rightarrow> request \<Rightarrow> 'w pst \<Rightarrow> reply \<times> 'w pst" where
  "ServeHTTP env rq st =
     (case clientIPFromReq rq of
        Inl _ \<Rightarrow> (ErrorReply 400 ''cannot determine client IP'', st)
      | Inr ip \<Rightarrow>
          (case lookup_client env ip st of
             (None, st1) \<Rightarrow>
               (ErrorReply 403 (''client pod '' @ ip @ '' not labelled with playwright-id''), count UnknownClient st1)
           | (Some pid, st1) \<Rightarrow>
               (case get_session env pid st1 of
                  (Inl e, st2) \<Rightarrow> (ErrorReply 502 (''session unavailable: '' @ errText env e), st2)
                | (Inr r, st2) \<Rightarrow>
                    (let st3 = on_session env r MarkActive st2
                     in if isWebsocketUpgrade rq then handleWS env rq r st3 else handleHTTP env rq r st3))))"

end
