(* ===== verification/Proxy_Routing.thy ===== *)
theory Proxy_Routing
  imports Proxy
begin

text \<open>
  What a handler does to the session manager and what it sends, for every path through it: all
  its effects on the manager are critical sections of the manager (\<open>mgr_step\<close>), and every request
  that leaves the proxy is routed for the playwright-id the caller was identified with.  The
  relation \<open>adv\<close> carries both through the composition of the steps.
\<close>

section \<open>Steps of the session manager behind a handler\<close>

lemma Get_steps:
  assumes "mgr_reach ens m" and "waiter_ok ens wait"
  shows "(mgr_step ens)\<^sup>*\<^sup>* m (snd (Get wait c a pid m))"
proof -
  obtain r m1 where e: "Get_enter c a pid m = (r, m1)" by fastforce
  obtain f m2 where w: "wait r m1 = (f, m2)" by fastforce
  from e have s1: "mgr_step ens m m1" using mgr_step.get_enter [of ens m c a pid] by simp
  have reach1: "mgr_reach ens m1" using assms(1) s1 by (rule mgr_reach.step)
  from assms(2) w have s2: "(mgr_step ens)\<^sup>*\<^sup>* m1 m2" unfolding waiter_ok_def by metis
  with s1 have s12: "(mgr_step ens)\<^sup>*\<^sup>* m m2" by (rule converse_rtranclp_into_rtranclp)
  show ?thesis
  proof (cases f)
    case None
    with assms(2) w obtain s where s: "heap m2 r = Some s" "ready s" unfolding waiter_ok_def by metis
    from Get_enter_current [OF reach_inv [OF assms(1)] e] steps_keep [OF s2 reach_inv [OF reach1]] s
    have "sID s = pid" unfolding heap_keeps_def keeps_def by fastforce
    then have "mgr_step ens m2 (snd (Get_ready pid r m2))" using mgr_step.get_ready [OF s] by simp
    with s12 None e w show ?thesis by (simp add: Get_def)
  next
    case (Some x)
    with s12 e w show ?thesis by (simp add: Get_def)
  qed
qed

lemma Refresh_steps:
  assumes "mgr_reach ens m" and "waiter_ok ens wait" and "heap m r = Some s" "ready s" "serr s = None"
  shows "(mgr_step ens)\<^sup>*\<^sup>* m (snd (Refresh wait t t' r (sID s) m))"
proof -
  obtain act m1 where e: "Refresh_enter t t' r (sID s) m = (act, m1)" by fastforce
  have s1: "mgr_step ens m m1" using mgr_step.refresh [OF assms(3-5), of ens t t'] e by simp
  have reach1: "mgr_reach ens m1" using assms(1) s1 by (rule mgr_reach.step)
  have g: "(mgr_step ens)\<^sup>*\<^sup>* m m2" if "Get wait t' t' (sID s) m1 = (x, m2)" for x m2
    using Get_steps [OF reach1 assms(2), of t' t' "sID s"] that s1
    by (simp add: converse_rtranclp_into_rtranclp)
  have c: "(mgr_step ens)\<^sup>*\<^sup>* m (m2\<lparr>mmetrics := mx\<rparr>)" if "Get wait t' t' (sID s) m1 = (x, m2)" for x m2 mx
    using g [OF that] mgr_step.counted by (rule rtranclp.rtrancl_into_rtrancl)
  show ?thesis
    using s1 g c unfolding Refresh_def e
    by (auto split: refresh_action.splits prod.splits sum.splits)
qed

lemma Refresh_same_id:
  assumes "mgr_reach ens m" and "waiter_ok ens wait" and "heap m r = Some s" "ready s" "serr s = None"
    and "Refresh wait t t' r (sID s) m = (Inr r', m')"
  shows "\<exists>s'. heap m' r' = Some s' \<and> sID s' = sID s"
proof -
  obtain act m1 where e: "Refresh_enter t t' r (sID s) m = (act, m1)" by fastforce
  have s1: "mgr_step ens m m1" using mgr_step.refresh [OF assms(3-5), of ens t t'] e by simp
  have reach1: "mgr_reach ens m1" using assms(1) s1 by (rule mgr_reach.step)
  have g: "\<exists>s'. heap m2 r2 = Some s' \<and> sID s' = sID s" if "Get wait t' t' (sID s) m1 = (Inr r2, m2)" for r2 m2
    using Get_Inr [OF reach1 assms(2) that] by blast
  have "act = ReturnCached cur \<Longrightarrow> sessions m (sID s) = Some cur \<and> m1 = m" for cur
    using e by (auto simp: Refresh_enter_def Let_def split: option.splits if_splits)
  then show ?thesis
    using assms(6) g inv_sessions [OF reach_inv [OF assms(1)]] unfolding Refresh_def e
    by (fastforce split: refresh_action.splits prod.splits sum.splits)
qed

lemma endpoint_source:
  assumes "mgr_reach ens m" and "heap m r = Some s"
  shows "endpoint_of r m = zero_Endpoint \<or> ens (sID s) (Inr (endpoint_of r m))"
  using inv_heap [OF reach_inv [OF assms(1)] assms(2)] assms(2)
  by (cases "ready s"; cases "serr s") (auto simp: session_ok_def outcome_def endpoint_of_def)

section \<open>What a handler sends\<close>

text \<open>
  \<open>sent\<close> reads from the world the requests that went out; \<open>logs\<close> says that it grows by each request
  given to the transport or written to a connection, and by nothing else.
\<close>

definition quiet :: "('w \<Rightarrow> request list) \<Rightarrow> ('w, 'a) io \<Rightarrow> bool" where
  "quiet sent f \<longleftrightarrow> (\<forall>w. sent (snd (f w)) = sent w)"

definition sends :: "('w \<Rightarrow> request list) \<Rightarrow> ('w, 'a) io \<Rightarrow> request \<Rightarrow> bool" where
  "sends sent f q \<longleftrightarrow> (\<forall>w. sent (snd (f w)) = sent w @ [q])"

definition logs :: "('w \<Rightarrow> request list) \<Rightarrow> 'w proxy_env \<Rightarrow> bool" where
  "logs sent env \<longleftrightarrow>
     (\<forall>q. sends sent (inner env q) q) \<and> (\<forall>c q. sends sent (writeReq env c q) q) \<and>
     (\<forall>r. quiet sent (relay env r)) \<and> (\<forall>a. quiet sent (dial env a)) \<and> (\<forall>c. quiet sent (readResp env c)) \<and>
     quiet sent (hijack env) \<and> (\<forall>b. quiet sent (writeClient env b)) \<and>
     (\<forall>c n. quiet sent (copyBuffered env c n)) \<and> (\<forall>c. quiet sent (copyToBackend env c)) \<and>
     (\<forall>c. quiet sent (copyToClient env c)) \<and>
     (\<forall>ns sel f. quiet sent (listPods (lk_env env) ns sel f)) \<and>
     (\<forall>d i w. sent (snd (sleep (lk_env env) d i w)) = sent w)"

text \<open>The other goroutines only run critical sections of the manager.\<close>

definition others_ok :: "(string \<Rightarrow> Endpoint result \<Rightarrow> bool) \<Rightarrow> 'w proxy_env \<Rightarrow> bool" where
  "others_ok ens env \<longleftrightarrow>
     (\<forall>w. waiter_ok ens (waitFor env w)) \<and> (\<forall>w m. (mgr_step ens)\<^sup>*\<^sup>* m (meanwhile env w m))"

text \<open>A request that is routed for an id.\<close>

definition routed :: "(string \<Rightarrow> Endpoint result \<Rightarrow> bool) \<Rightarrow> string \<Rightarrow> request \<Rightarrow> bool" where
  "routed ens pid q \<longleftrightarrow>
     (\<exists>ep. (ep = zero_Endpoint \<or> ens pid (Inr ep)) \<and>
        rq_URLHost q \<in> {Addr ep, MCPAddr ep} \<and> rq_Host q = rq_URLHost q \<and>
        (rq_Header q ''Ate-Target-Actor'' = [] \<or>
         TargetActor ep \<noteq> [] \<and> rq_Header q ''Ate-Target-Actor'' = [TargetActor ep]))"

definition adv ::
  "(string \<Rightarrow> Endpoint result \<Rightarrow> bool) \<Rightarrow> ('w \<Rightarrow> request list) \<Rightarrow> string \<Rightarrow> 'w pst \<Rightarrow> 'w pst \<Rightarrow> bool" where
  "adv ens sent pid st st' \<longleftrightarrow>
     (mgr_step ens)\<^sup>*\<^sup>* (p_mgr st) (p_mgr st') \<and>
     (\<exists>new. sent (p_w st') = sent (p_w st) @ new \<and> list_all (routed ens pid) new)"

lemma adv_refl: "adv ens sent pid st st"
  by (simp add: adv_def)

lemma adv_trans: "adv ens sent pid st1 st2 \<Longrightarrow> adv ens sent pid st2 st3 \<Longrightarrow> adv ens sent pid st1 st3"
  unfolding adv_def by (fastforce intro: rtranclp_trans)

lemma adv_step:
  "p_w st' = p_w st \<Longrightarrow> (mgr_step ens)\<^sup>*\<^sup>* (p_mgr st) (p_mgr st') \<Longrightarrow> adv ens sent pid st st'"
  by (simp add: adv_def)

lemma adv_reach: "adv ens sent pid st st' \<Longrightarrow> mgr_reach ens (p_mgr st) \<Longrightarrow> mgr_reach ens (p_mgr st')"
  using steps_reach unfolding adv_def by blast

lemma adv_count [intro]: "adv ens sent pid st (count f st)"
  by (rule adv_step) (simp_all add: count_def)

lemma adv_on_session [intro]:
  "adv ens sent pid st (on_session env r MarkActive st)"
  "adv ens sent pid st (on_session env r ConnOpened st)"
  "adv ens sent pid st (on_session env r ConnClosed st)"
  by (rule adv_step; simp add: on_session_def mgr_step.active mgr_step.opened mgr_step.closed r_into_rtranclp)+

lemma adv_call_quiet:
  assumes "others_ok ens env" and "quiet sent f" and "call env f st = (x, st')"
  shows "adv ens sent pid st st'"
proof -
  obtain w where f: "f (p_w st) = (x, w)" and st': "st' = st\<lparr>p_w := w, p_mgr := meanwhile env w (p_mgr st)\<rparr>"
    using assms(3) by (auto simp: call_def split: prod.splits)
  have "sent w = sent (p_w st)" using assms(2) f unfolding quiet_def by (metis snd_conv)
  then show ?thesis using assms(1) by (simp add: adv_def st' others_ok_def)
qed

lemma adv_call_send:
  assumes "others_ok ens env" and "sends sent f q" and "routed ens pid q"
    and "call env f st = (x, st')"
  shows "adv ens sent pid st st'"
proof -
  obtain w where f: "f (p_w st) = (x, w)" and st': "st' = st\<lparr>p_w := w, p_mgr := meanwhile env w (p_mgr st)\<rparr>"
    using assms(4) by (auto simp: call_def split: prod.splits)
  have "sent w = sent (p_w st) @ [q]" using assms(2) f unfolding sends_def by (metis snd_conv)
  then show ?thesis using assms(1,3) by (simp add: adv_def st' others_ok_def)
qed

text \<open>A session that \<open>Get\<close> returned for the id, in the current state.\<close>

definition held :: "string \<Rightarrow> sref \<Rightarrow> 'w pst \<Rightarrow> bool" where
  "held pid r st \<longleftrightarrow> (\<exists>s. heap (p_mgr st) r = Some s \<and> sID s = pid \<and> ready s \<and> serr s = None)"

definition owned :: "string \<Rightarrow> sref \<Rightarrow> 'w pst \<Rightarrow> bool" where
  "owned pid r st \<longleftrightarrow> (\<exists>s. heap (p_mgr st) r = Some s \<and> sID s = pid)"

lemma held_owned: "held pid r st \<Longrightarrow> owned pid r st"
  by (auto simp: held_def owned_def)

lemma adv_keeps:
  assumes "adv ens sent pid st st'" and "mgr_reach ens (p_mgr st)"
  shows "held q r st \<Longrightarrow> held q r st'" "owned q r st \<Longrightarrow> owned q r st'"
proof -
  have k: "heap_keeps (p_mgr st) (p_mgr st')"
    using assms steps_keep reach_inv unfolding adv_def by blast
  show "held q r st \<Longrightarrow> held q r st'"
    using k unfolding held_def heap_keeps_def keeps_def outcome_def
    by (fastforce split: option.splits)
  show "owned q r st \<Longrightarrow> owned q r st'"
    using k unfolding owned_def heap_keeps_def keeps_def by fastforce
qed

lemma adv_get:
  assumes "others_ok ens env" and "mgr_reach ens (p_mgr st)" and "get_session env pid st = (x, st')"
  shows "adv ens sent q st st'" "x = Inr r \<Longrightarrow> held pid r st'"
proof -
  let ?g = "Get (waitFor env (p_w st)) (pnow env (p_w st)) (pnow env (p_w st)) pid (p_mgr st)"
  have w: "waiter_ok ens (waitFor env (p_w st))" using assms(1) by (simp add: others_ok_def)
  have g: "?g = (x, p_mgr st')" "p_w st' = p_w st"
    using assms(3) by (auto simp: get_session_def split: prod.splits)
  show "adv ens sent q st st'"
    using Get_steps [OF assms(2) w] g by (intro adv_step) (metis snd_conv)+
  show "held pid r st'" if "x = Inr r"
    using Get_Inr [OF assms(2) w g(1) [unfolded that]] by (auto simp: held_def)
qed

lemma adv_refresh:
  assumes "others_ok ens env" and "mgr_reach ens (p_mgr st)" and "held pid r st"
    and "refresh_session env r st = (x, st')"
  shows "adv ens sent q st st'" "x = Inr r' \<Longrightarrow> owned pid r' st'"
proof -
  from assms(3) obtain s where s: "heap (p_mgr st) r = Some s" "ready s" "serr s = None" "sID s = pid"
    by (auto simp: held_def)
  let ?g = "Refresh (waitFor env (p_w st)) (pnow env (p_w st)) (pnow env (p_w st)) r (sID s) (p_mgr st)"
  have w: "waiter_ok ens (waitFor env (p_w st))" using assms(1) by (simp add: others_ok_def)
  have g: "?g = (x, p_mgr st')" "p_w st' = p_w st"
    using assms(4) s by (auto simp: refresh_session_def id_of_def split: prod.splits)
  show "adv ens sent q st st'"
    using Refresh_steps [OF assms(2) w s(1-3)] g by (intro adv_step) (metis snd_conv)+
  show "owned pid r' st'" if "x = Inr r'"
    using Refresh_same_id [OF assms(2) w s(1-3) g(1) [unfolded that]] s(4) by (auto simp: owned_def)
qed

section \<open>Requests\<close>

lemma actor_key: "CanonicalHeaderKey ''ate-target-actor'' = ''Ate-Target-Actor''"
  by code_simp

lemma actor_key_free: "''Ate-Target-Actor'' \<notin> set rp_fixed" "''Ate-Target-Actor'' \<noteq> CanonicalHeaderKey ''X-Forwarded-For''"
  by code_simp+

lemma routeRequest_actor:
  "rq_Header (routeRequest ep q) ''Ate-Target-Actor'' = (if TargetActor ep \<noteq> [] then [TargetActor ep] else [])"
  by (simp add: routeRequest_def Let_def Header_Set_def Header_Del_def actor_key)

lemma routeRequest_host:
  "rq_Host (routeRequest ep q) = rq_URLHost q" "rq_URLHost (routeRequest ep q) = rq_URLHost q"
  "rq_sess (routeRequest ep q) = rq_sess q" "rq_Body (routeRequest ep q) = rq_Body q"
  "rq_GetBody (routeRequest ep q) = rq_GetBody q" "rq_RemoteAddr (routeRequest ep q) = rq_RemoteAddr q"
  by (simp_all add: routeRequest_def Let_def)

lemma routedI:
  assumes "ep = zero_Endpoint \<or> ens pid (Inr ep)" and "rq_URLHost q \<in> {Addr ep, MCPAddr ep}"
    and "rq_Host q = rq_URLHost q"
    and "rq_Header q ''Ate-Target-Actor'' = [] \<or> TargetActor ep \<noteq> [] \<and> rq_Header q ''Ate-Target-Actor'' = [TargetActor ep]"
  shows "routed ens pid q"
  using assms unfolding routed_def by blast

lemma routed_route:
  assumes "ep = zero_Endpoint \<or> ens pid (Inr ep)" and "rq_URLHost q \<in> {Addr ep, MCPAddr ep}"
  shows "routed ens pid (routeRequest ep q)"
  using assms by (intro routedI [where ep = ep]) (auto simp: routeRequest_actor routeRequest_host)

lemma routed_cong:
  assumes "routed ens pid q" and "rq_URLHost q' = rq_URLHost q" "rq_Host q' = rq_Host q"
    and "rq_Header q' ''Ate-Target-Actor'' \<in> {[], rq_Header q ''Ate-Target-Actor''}"
  shows "routed ens pid q'"
  using assms unfolding routed_def by auto

lemma routed_outreq: "routed ens pid q \<Longrightarrow> routed ens pid (rp_outreq q)"
  by (rule routed_cong) (auto simp: rp_outreq_def rp_headers_other [OF actor_key_free(1)])

lemma buffer_body_same:
  assumes "buffer_body q = Inr q'"
  shows "rq_URLHost q' = rq_URLHost q" "rq_Host q' = rq_Host q" "rq_Header q' = rq_Header q"
  using assms by (auto simp: buffer_body_def split: option.splits prod.splits sum.splits if_splits)

section \<open>The paths\<close>

lemma owned_endpoint:
  "mgr_reach ens (p_mgr st) \<Longrightarrow> owned pid r st \<Longrightarrow>
     endpoint_of r (p_mgr st) = zero_Endpoint \<or> ens pid (Inr (endpoint_of r (p_mgr st)))"
  using endpoint_source unfolding owned_def by blast

lemma adv_RoundTrip:
  assumes "others_ok ens env" and "logs sent env" and "mgr_reach ens (p_mgr st)"
    and "routed ens pid req" and "rq_sess req = Some r" and "held pid r st"
    and "RoundTrip env req st = (x, st')"
  shows "adv ens sent pid st st'"
proof -
  have send: "\<And>q. sends sent (inner env q) q" using assms(2) by (simp add: logs_def)
  obtain x1 st1 where c1: "call env (inner env req) st = (x1, st1)" by fastforce
  have a1: "adv ens sent pid st st1" by (rule adv_call_send [OF assms(1) send assms(4) c1])
  have r1: "mgr_reach ens (p_mgr st1)" using adv_reach [OF a1 assms(3)] .
  have h1: "held pid r st1" using adv_keeps(1) [OF a1 assms(3) assms(6)] .
  obtain x2 st2 where c2: "refresh_session env r st1 = (x2, st2)" by fastforce
  have a2: "adv ens sent pid st st2" using adv_trans [OF a1 adv_refresh(1) [OF assms(1) r1 h1 c2]] .
  have r2: "mgr_reach ens (p_mgr st2)" using adv_reach [OF a2 assms(3)] .
  have a3: "adv ens sent pid st st3"
    if "x2 = Inr r'" "call env (inner env (routeRequest (endpoint_of r' (p_mgr st2))
          (q\<lparr>rq_URLHost := MCPAddr (endpoint_of r' (p_mgr st2))\<rparr>))) st2 = (x3, st3)" for r' q x3 st3
  proof -
    have "endpoint_of r' (p_mgr st2) = zero_Endpoint \<or> ens pid (Inr (endpoint_of r' (p_mgr st2)))"
      using owned_endpoint [OF r2 adv_refresh(2) [OF assms(1) r1 h1 c2 that(1)]] .
    then have "routed ens pid (routeRequest (endpoint_of r' (p_mgr st2))
        (q\<lparr>rq_URLHost := MCPAddr (endpoint_of r' (p_mgr st2))\<rparr>))"
      by (rule routed_route) simp
    from adv_trans [OF a2 adv_call_send [OF assms(1) send this that(2)]] show ?thesis .
  qed
  show ?thesis
    using assms(7) a1 a2 a3 unfolding RoundTrip_def c1 assms(5)
    by (auto simp: c2 Let_def split: sum.splits if_splits prod.splits)
qed

lemma adv_proxyError: "proxyError env e st = (rep, st') \<Longrightarrow> adv ens sent pid st st'"
  by (auto simp: proxyError_def adv_refl split: if_splits)

lemma adv_reverse_proxy:
  assumes "others_ok ens env" and "logs sent env" and "mgr_reach ens (p_mgr st)"
    and "routed ens pid req" and "rq_sess req = Some r" and "held pid r st"
    and "reverse_proxy env req st = (rep, st')"
  shows "adv ens sent pid st st'"
proof -
  obtain x1 st1 where c1: "RoundTrip env (rp_outreq req) st = (x1, st1)" by fastforce
  have "rq_sess (rp_outreq req) = Some r" using assms(5) by (simp add: rp_outreq_def)
  with adv_RoundTrip [OF assms(1-3) routed_outreq [OF assms(4)] _ assms(6) c1]
  have a1: "adv ens sent pid st st1" by blast
  have q: "\<And>resp. quiet sent (relay env resp)" using assms(2) by (simp add: logs_def)
  have a2: "adv ens sent pid st st2" if "call env (relay env resp) st1 = (y, st2)" for resp y st2
    using adv_trans [OF a1 adv_call_quiet [OF assms(1) q that]] .
  show ?thesis
    using assms(7) a1 a2 adv_proxyError [of env _ st] adv_trans [OF a1 adv_proxyError [of env _ st1]]
    unfolding reverse_proxy_def c1
    by (auto split: sum.splits if_splits prod.splits option.splits)
qed

lemma adv_handleHTTP:
  assumes "others_ok ens env" and "logs sent env" and "mgr_reach ens (p_mgr st)" and "held pid r st"
    and "handleHTTP env rq r st = (rep, st')"
  shows "adv ens sent pid st st'"
proof (cases "buffer_body (mcp_request (endpoint_of r (p_mgr st)) rq)")
  case (Inl e)
  with assms(5) show ?thesis by (auto simp: handleHTTP_def adv_refl)
next
  case (Inr r2)
  let ?ep = "endpoint_of r (p_mgr st)"
  have ep: "?ep = zero_Endpoint \<or> ens pid (Inr ?ep)"
    using owned_endpoint [OF assms(3) held_owned [OF assms(4)]] .
  have "routed ens pid (routeRequest ?ep (rq\<lparr>rq_Scheme := ''http'', rq_URLHost := MCPAddr ?ep\<rparr>))"
    using ep by (rule routed_route) simp
  then have "routed ens pid (mcp_request ?ep rq)"
    by (rule routed_cong) (auto simp: mcp_request_def)
  then have rt: "routed ens pid (r2\<lparr>rq_sess := Some r\<rparr>)"
    by (rule routed_cong) (simp_all add: buffer_body_same [OF Inr])
  obtain rep1 st1 where c: "reverse_proxy env (r2\<lparr>rq_sess := Some r\<rparr>) st = (rep1, st1)" by fastforce
  have a: "adv ens sent pid st st1"
    by (rule adv_reverse_proxy [OF assms(1-3) rt _ assms(4) c]) simp
  have a': "adv ens sent pid st (on_session env r MarkActive (count f st1))" for f
    using adv_trans [OF a adv_trans [OF adv_count adv_on_session(1)]] .
  show ?thesis
    using assms(5) Inr c a a' by (auto simp: handleHTTP_def Let_def split: reply.splits)
qed

lemma adv_dial_backend:
  assumes "others_ok ens env" and "logs sent env" and "mgr_reach ens (p_mgr st)" and "held pid r st"
    and "dial_backend env r st = ((x, r'), st')"
  shows "adv ens sent pid st st'" "owned pid r' st'"
proof -
  have q: "\<And>a. quiet sent (dial env a)" using assms(2) by (simp add: logs_def)
  obtain x1 st1 where c1: "call env (dial env (Addr (endpoint_of r (p_mgr st)))) st = (x1, st1)" by fastforce
  have a1: "adv ens sent pid st (count f st1)" for f
    using adv_trans [OF adv_call_quiet [OF assms(1) q c1] adv_count] .
  have a1': "adv ens sent pid st st1" using adv_call_quiet [OF assms(1) q c1] .
  have r1: "mgr_reach ens (p_mgr (count f st1))" for f using adv_reach [OF a1 assms(3)] .
  have h1: "held pid r (count f st1)" for f using adv_keeps(1) [OF a1 assms(3,4)] .
  obtain x2 st2 where c2: "refresh_session env r (count BackendDialFailure st1) = (x2, st2)" by fastforce
  have a2: "adv ens sent pid st st2" using adv_trans [OF a1 adv_refresh(1) [OF assms(1) r1 h1 c2]] .
  have o2: "owned pid r2 st2" if "x2 = Inr r2" for r2 using adv_refresh(2) [OF assms(1) r1 h1 c2 that] .
  have r2: "mgr_reach ens (p_mgr st2)" using adv_reach [OF a2 assms(3)] .
  obtain x3 st3 where c3: "call env (dial env (Addr (endpoint_of r' (p_mgr st2)))) st2 = (x3, st3)" by fastforce
  have a23: "adv ens sent pid st2 st3" using adv_call_quiet [OF assms(1) q c3] .
  have a3: "adv ens sent pid st st3" "adv ens sent pid st (count f st3)" for f
    using adv_trans [OF a2 a23] adv_trans [OF adv_trans [OF a2 a23] adv_count] by blast+
  have o3: "owned pid r' st3" "owned pid r' (count f st3)" if "x2 = Inr r'" for f
    using adv_keeps(2) [OF a23 r2 o2 [OF that]] by (simp_all add: owned_def count_def)
  from assms(5) consider (first) "x1 = Inr (projr x)" "r' = r" "st' = st1"
    | (failed) "r' = r" "st' = st2"
    | (again) "x2 = Inr r'" "st' = st3 \<or> st' = count BackendDialFailure st3"
    unfolding dial_backend_def c1
    by (cases x1; cases x2) (auto simp: c2 c3 split: sum.splits prod.splits)
  then have "adv ens sent pid st st' \<and> owned pid r' st'"
    using a1' a2 a3 o3 held_owned [OF assms(4)] adv_keeps(2) [OF a1' assms(3)] adv_keeps(2) [OF a2 assms(3)]
    by cases auto
  then show "adv ens sent pid st st'" "owned pid r' st'" by blast+
qed

lemma adv_pump:
  assumes "others_ok ens env" and "logs sent env" and "pump_c2b env c b st = (n, st')"
  shows "adv ens sent pid st st'"
proof -
  have q: "quiet sent (copyBuffered env c b)" "quiet sent (copyToBackend env c)"
    using assms(2) by (simp_all add: logs_def)
  show ?thesis
    using assms(3) adv_call_quiet [OF assms(1) q(1)] adv_call_quiet [OF assms(1) q(2)]
    by (fastforce simp: pump_c2b_def split: if_splits prod.splits option.splits intro: adv_trans)
qed

lemma adv_tunnel:
  assumes "others_ok ens env" and "logs sent env"
  shows "adv ens sent pid st (tunnel env c b r st)"
proof -
  let ?st1 = "count ConnOpened_metric (on_session env r ConnOpened st)"
  obtain c2b st2 where c2: "pump_c2b env c b ?st1 = (c2b, st2)" by fastforce
  obtain b2c st3 where c3: "call env (copyToClient env c) st2 = (b2c, st3)" by fastforce
  have q: "quiet sent (copyToClient env c)" using assms(2) by (simp add: logs_def)
  have "adv ens sent pid st ?st1" using adv_trans [OF adv_on_session(2) adv_count] .
  from adv_trans [OF adv_trans [OF this adv_pump [OF assms c2]] adv_call_quiet [OF assms(1) q c3]]
  have "adv ens sent pid st st3" .
  from adv_trans [OF adv_trans [OF adv_trans [OF adv_trans [OF this adv_on_session(3)] adv_count] adv_count] adv_count]
  show ?thesis by (simp add: tunnel_def Let_def c2 c3)
qed

lemma routed_ws:
  assumes "ep = zero_Endpoint \<or> ens pid (Inr ep)"
  shows "routed ens pid (ws_request ep rq)"
proof -
  have "routed ens pid (routeRequest ep (rq\<lparr>rq_Scheme := ''http'', rq_URLHost := Addr ep\<rparr>))"
    using assms by (rule routed_route) simp
  then show ?thesis
    by (rule routed_cong)
      (simp_all add: ws_request_def Let_def Header_Set_other [OF actor_key_free(2)])
qed

lemma adv_writeReq:
  assumes "others_ok ens env" and "logs sent env" and "mgr_reach ens (p_mgr st)" and "owned pid r st"
    and "call env (writeReq env c (ws_request (endpoint_of r (p_mgr st)) rq)) st = (y, st')"
  shows "adv ens sent pid st st'"
proof -
  have "routed ens pid (ws_request (endpoint_of r (p_mgr st)) rq)"
    using routed_ws [of "endpoint_of r (p_mgr st)" ens pid rq] owned_endpoint [OF assms(3,4)] by blast
  moreover have "sends sent (writeReq env c (ws_request (endpoint_of r (p_mgr st)) rq)) (ws_request (endpoint_of r (p_mgr st)) rq)"
    using assms(2) by (simp add: logs_def)
  ultimately show ?thesis using adv_call_send [OF assms(1) _ _ assms(5)] by blast
qed

lemma adv_handleWS:
  assumes "others_ok ens env" and "logs sent env" and "mgr_reach ens (p_mgr st)" and "held pid r st"
    and "handleWS env rq r st = (rep, st')"
  shows "adv ens sent pid st st'"
proof (cases "hijacker env")
  case False
  with assms(5) show ?thesis by (simp add: handleWS_def adv_refl)
next
  case True
  note call = adv_trans [OF _ adv_call_quiet [OF assms(1)]]
  obtain x r1 st1 where c1: "dial_backend env r st = ((x, r1), st1)" by (metis prod.collapse)
  note a1 = adv_dial_backend [OF assms(1-4) c1]
  show ?thesis
  proof (cases x)
    case (Inl e)
    with assms(5) a1 True c1 show ?thesis by (simp add: handleWS_def)
  next
    case (Inr c)
    let ?q = "ws_request (endpoint_of r1 (p_mgr st1)) rq"
    obtain y st2 where c2: "call env (writeReq env c ?q) st1 = (y, st2)" by fastforce
    note a2 = adv_trans [OF a1(1) adv_writeReq [OF assms(1,2) adv_reach [OF a1(1) assms(3)] a1(2) c2]]
    obtain z st3 where c3: "call env (readResp env c) st2 = (z, st3)" by fastforce
    have a3: "adv ens sent pid st (count f st3)" for f
      using adv_trans [OF call [OF a2 _ c3] adv_count] assms(2) by (simp add: logs_def)
    have "quiet sent (relay env resp)" for resp using assms(2) by (simp add: logs_def)
    then have a4: "adv ens sent pid st (snd (call env (relay env resp) (count f st3)))" for f resp
      using call [OF a3 _ prod.collapse [symmetric]] by blast
    have a5: "adv ens sent pid st st5" if "call env (hijack env) (count f st3) = (v, st5)" for f v st5
      using call [OF a3 _ that] assms(2) by (simp add: logs_def)
    have a6: "adv ens sent pid st st6"
      if "call env (hijack env) (count f st3) = (v, st5)" "call env (writeClient env b) st5 = (u, st6)" for f v st5 b u st6
      using call [OF a5 [OF that(1)] _ that(2)] assms(2) by (simp add: logs_def)
    have a7: "adv ens sent pid st (tunnel env c n r1 st6)"
      if "call env (hijack env) (count f st3) = (v, st5)" "call env (writeClient env b) st5 = (u, st6)" for f v st5 b u st6 n
      using adv_trans [OF a6 [OF that] adv_tunnel [OF assms(1,2)]] .
    show ?thesis
      using assms(5) True c1 c2 c3 Inr a2 a3 a4 a5 a6 a7
      by (auto simp: handleWS_def Let_def split: option.splits sum.splits prod.splits if_splits)
  qed
qed

section \<open>The handler\<close>

lemma Lookup_quiet:
  assumes "logs sent env"
  shows "sent (snd (snd (Lookup (lk_env env) ip i w))) = sent w"
proof -
  have s: "\<And>d i w. sent (snd (sleep (lk_env env) d i w)) = sent w"
    using assms by (simp add: logs_def)
  have l: "sent w' = sent w" if "listPods (lk_env env) ns sel f w = (y, w')" for ns sel f w y w'
    using assms that unfolding logs_def quiet_def by (metis snd_conv)
  have v: "sent w' = sent w" if "lookupViaAPI (lk_env env) ip i w = (x, i', w')" for i w x i' w'
    using that by (auto simp: lookupViaAPI_def Let_def split: prod.splits sum.splits list.splits if_splits dest!: l)
  have "sent (snd (snd (lookup_loop (lk_env env) ip n i w))) = sent w" for n
  proof (induction n arbitrary: i w)
    case (Suc n)
    obtain x i1 w1 where a: "lookupViaAPI (lk_env env) ip i w = (x, i1, w1)" by (metis prod.collapse)
    obtain i2 w2 where b: "sleep (lk_env env) (100 * Millisecond) i1 w1 = (i2, w2)" by fastforce
    have "sent w1 = sent w" "sent w2 = sent w1" using v [OF a] s b by (simp, metis snd_conv)
    with Suc a b show ?case by (simp split: option.splits)
  qed simp
  then show ?thesis by (simp add: Lookup_def split: option.splits)
qed

lemma adv_lookup_client:
  assumes "others_ok ens env" and "logs sent env" and "lookup_client env ip st = (x, st')"
  shows "adv ens sent pid st st'"
proof -
  obtain i w where l: "Lookup (lk_env env) ip (p_idx st) (p_w st) = (x, i, w)"
    and st': "st' = st\<lparr>p_idx := i, p_w := w, p_mgr := meanwhile env w (p_mgr st)\<rparr>"
    using assms(3) by (auto simp: lookup_client_def split: prod.splits)
  have "sent w = sent (p_w st)" using Lookup_quiet [OF assms(2), of ip "p_idx st" "p_w st"] l by simp
  with assms(1) show ?thesis by (simp add: adv_def st' others_ok_def)
qed

lemma ServeHTTP_adv:
  assumes "others_ok ens env" and "logs sent env" and "mgr_reach ens (p_mgr st)"
    and "ServeHTTP env rq st = (rep, st')"
    and "clientIPFromReq rq = Inr ip" and "fst (Lookup (lk_env env) ip (p_idx st) (p_w st)) = Some pid"
  shows "adv ens sent pid st st'"
proof -
  obtain x st1 where c1: "lookup_client env ip st = (x, st1)" by fastforce
  have x: "x = Some pid" using c1 assms(6) by (auto simp: lookup_client_def split: prod.splits)
  have a1: "adv ens sent pid st st1" using adv_lookup_client [OF assms(1,2) c1] .
  have r1: "mgr_reach ens (p_mgr st1)" using adv_reach [OF a1 assms(3)] .
  obtain y st2 where c2: "get_session env pid st1 = (y, st2)" by fastforce
  have a2: "adv ens sent pid st st2" using adv_trans [OF a1 adv_get(1) [OF assms(1) r1 c2]] .
  have r2: "mgr_reach ens (p_mgr st2)" using adv_reach [OF a2 assms(3)] .
  show ?thesis
  proof (cases y)
    case (Inl e)
    with assms(4,5) c1 c2 x a2 show ?thesis by (auto simp: ServeHTTP_def)
  next
    case (Inr r)
    let ?st3 = "on_session env r MarkActive st2"
    have s23: "adv ens sent pid st2 ?st3" by (rule adv_on_session)
    have h3: "held pid r ?st3"
      using adv_keeps(1) [OF s23 r2 adv_get(2) [OF assms(1) r1 c2 Inr]] .
    have r3: "mgr_reach ens (p_mgr ?st3)" using adv_reach [OF s23 r2] .
    have a3: "adv ens sent pid st ?st3" using adv_trans [OF a2 s23] .
    have "(if isWebsocketUpgrade rq then handleWS env rq r ?st3 else handleHTTP env rq r ?st3) = (rep, st')"
      using assms(4,5) c1 c2 x Inr by (simp add: ServeHTTP_def Let_def)
    then have "adv ens sent pid ?st3 st'"
      using adv_handleWS [OF assms(1,2) r3 h3] adv_handleHTTP [OF assms(1,2) r3 h3] by (auto split: if_splits)
    with a3 show ?thesis by (rule adv_trans)
  qed
qed

lemma ServeHTTP_rejected:
  assumes "logs sent env" and "others_ok ens env" and "ServeHTTP env rq st = (rep, st')"
    and "\<And>ip pid. clientIPFromReq rq = Inr ip \<Longrightarrow> fst (Lookup (lk_env env) ip (p_idx st) (p_w st)) \<noteq> Some pid"
  shows "sent (p_w st') = sent (p_w st)"
proof (cases "clientIPFromReq rq")
  case (Inl e)
  with assms(3) show ?thesis by (auto simp: ServeHTTP_def)
next
  case (Inr ip)
  obtain x i w where l: "Lookup (lk_env env) ip (p_idx st) (p_w st) = (x, i, w)" by (metis prod.collapse)
  then have "x = None" using assms(4) [OF Inr] by (cases x) auto
  moreover have "sent w = sent (p_w st)" using Lookup_quiet [OF assms(1), of ip "p_idx st" "p_w st"] l by simp
  ultimately show ?thesis
    using assms(3) Inr l by (auto simp: ServeHTTP_def lookup_client_def count_def)
qed

end
