(* ===== verification/Proxy_Props.thy ===== *)
theory Proxy_Props
  imports Proxy_Routing
begin

text \<open>
  The properties of the request handler: whom it routes a request to, what it forwards, when it
  retries, what it does with a caller it cannot identify, and how it accounts for connections.
\<close>

section \<open>A world for examples\<close>

text \<open>
  The world is the list of requests sent so far.  The backend answers with a given response, and
  every session resolves to a given endpoint.
\<close>

definition demo_response :: Response where
  "demo_response = \<lparr>rs_Proto = ''HTTP/1.1'', rs_Status = ''200 OK'', rs_StatusCode = 200, rs_Header = (\<lambda>_. []),
     rs_Body = (''ok'', None)\<rparr>"

definition demo_lookup :: "request list lookup_env" where
  "demo_lookup = \<lparr>listPods = (\<lambda>ns sel f w. (Inr [], w)), clock = (\<lambda>w. 0), during = (\<lambda>i w. i),
     sleep = (\<lambda>d i w. (i, w))\<rparr>"

definition demo_env :: "Endpoint \<Rightarrow> Response result \<Rightarrow> request list proxy_env" where
  "demo_env ep resp = \<lparr>lk_env = demo_lookup, pnow = (\<lambda>w. 0), waitFor = (\<lambda>w. resolve_waiter ep),
     meanwhile = (\<lambda>w m. m), inner = (\<lambda>q w. (resp, w @ [q])), relay = (\<lambda>r w. (None, w)), hijacker = True,
     dial = (\<lambda>a w. (Inr 0, w)), writeReq = (\<lambda>c q w. (None, w @ [q])), readResp = (\<lambda>c w. (resp, w)),
     hijack = (\<lambda>w. (Inr 0, w)), writeClient = (\<lambda>b w. (None, w)), copyBuffered = (\<lambda>c n w. ((0, None), w)),
     copyToBackend = (\<lambda>c w. (3, w)), copyToClient = (\<lambda>c w. (5, w)), errText = (\<lambda>e. []), headerText = (\<lambda>h. []),
     informational = (\<lambda>w. [])\<rparr>"

definition demo_state :: "request list pst" where
  "demo_state = \<lparr>p_idx = (New_Index ''playwright-id'' True ''agents'' None)\<lparr>byPodIP := [''10.0.0.7'' \<mapsto> ''alpha'']\<rparr>,
     p_mgr = New_Manager ''substrate'' 30 600 None, p_mx = None, p_w = []\<rparr>"

definition demo_request :: "Header \<Rightarrow> request" where
  "demo_request h = \<lparr>rq_Host = ''proxy'', rq_Scheme = [], rq_URLHost = [], rq_Path = ''/mcp'', rq_RequestURI = ''/mcp'',
     rq_Header = h, rq_RemoteAddr = ''10.0.0.7:4000'', rq_ContentLength = 0, rq_Body = None, rq_GetBody = None,
     rq_sess = None\<rparr>"

lemma demo_logs: "logs id (demo_env ep resp)"
  by (simp add: logs_def sends_def quiet_def demo_env_def demo_lookup_def)

lemma demo_others: "others_ok (\<lambda>_ res. res = Inr ep) (demo_env ep resp)"
  using resolve_waiter_ok [of ep] by (simp add: others_ok_def demo_env_def)

lemma demo_reach: "mgr_reach ens (p_mgr demo_state)"
  by (simp add: demo_state_def mgr_reach.init)

lemma demo_ip: "clientIPFromReq (demo_request h) = Inr ''10.0.0.7''"
  using SplitHostPort_plain [of "''10.0.0.7''" "''4000''"] by (simp add: clientIPFromReq_def demo_request_def)

lemma demo_lookup_hit:
  "fst (Lookup (lk_env (demo_env ep resp)) ''10.0.0.7'' (p_idx demo_state) (p_w demo_state)) = Some ''alpha''"
  by (simp add: Lookup_def lookupCache_def demo_state_def)

section \<open>Routing\<close>

text \<open>
  C2.  Requests are routed by the identity of the caller and by nothing else.  Whatever the request
  contains, and however it interleaves with other goroutines, everything the proxy sends while
  serving it goes to an endpoint that \<open>Ensure\<close> returned for the playwright-id of the pod with the
  caller's address (or to the zero endpoint of a session that is not resolved), and its
  \<open>ate-target-actor\<close> header is absent or the target actor of that endpoint, never the caller's.  A
  caller that is not identified has nothing sent on its behalf.
\<close>

theorem requests_routed_by_identity:
  assumes "others_ok ens env" and "logs sent env" and "mgr_reach ens (p_mgr st)"
    and "ServeHTTP env rq st = (rep, st')"
  shows "\<exists>new. sent (p_w st') = sent (p_w st) @ new \<and>
    (new \<noteq> [] \<longrightarrow> (\<exists>ip pid. clientIPFromReq rq = Inr ip \<and>
       fst (Lookup (lk_env env) ip (p_idx st) (p_w st)) = Some pid \<and>
       (\<forall>q \<in> set new. \<exists>ep. (ep = zero_Endpoint \<or> ens pid (Inr ep)) \<and>
          rq_URLHost q \<in> {Addr ep, MCPAddr ep} \<and> rq_Host q = rq_URLHost q \<and>
          (rq_Header q ''Ate-Target-Actor'' = [] \<or>
           TargetActor ep \<noteq> [] \<and> rq_Header q ''Ate-Target-Actor'' = [TargetActor ep]))))"
proof (cases "\<exists>ip pid. clientIPFromReq rq = Inr ip \<and> fst (Lookup (lk_env env) ip (p_idx st) (p_w st)) = Some pid")
  case True
  then obtain ip pid where i: "clientIPFromReq rq = Inr ip"
    "fst (Lookup (lk_env env) ip (p_idx st) (p_w st)) = Some pid" by blast
  from ServeHTTP_adv [OF assms i] obtain new where
    n: "sent (p_w st') = sent (p_w st) @ new" "list_all (routed ens pid) new"
    unfolding adv_def by blast
  have "\<forall>q \<in> set new. routed ens pid q" using n(2) by (simp add: list_all_iff)
  with n(1) i show ?thesis unfolding routed_def by blast
next
  case False
  then have "sent (p_w st') = sent (p_w st)"
    using ServeHTTP_rejected [OF assms(2,1,4)] by blast
  then show ?thesis by (intro exI [of _ "[]"]) simp
qed

text \<open>The state in which the path for the request is chosen, with session 0 resolved and marked active.\<close>

definition demo_ready :: "Endpoint \<Rightarrow> request list pst" where
  "demo_ready ep =
     demo_state\<lparr>p_idx := count_lookup LookupCacheHit (p_idx demo_state),
       p_mgr := (p_mgr demo_state)\<lparr>
         mmetrics := SessionCreated ''substrate'' OutcomeSuccess
           (ObserveEnsure ''substrate'' OutcomeSuccess 0 (RegisterSessionsActive None)),
         sessions := [''alpha'' \<mapsto> 0],
         heap := [0 \<mapsto> \<lparr>sID = ''alpha'', sEndpoint = ep, created = 0, lastActive = 0, activeConn = 0,
            ready = True, serr = None\<rparr>],
         fresh := 1, resolving := []\<rparr>\<rparr>"

lemma demo_serve:
  "ServeHTTP (demo_env ep resp) (demo_request h) demo_state =
     (if isWebsocketUpgrade (demo_request h) then handleWS (demo_env ep resp) (demo_request h) 0 (demo_ready ep)
      else handleHTTP (demo_env ep resp) (demo_request h) 0 (demo_ready ep))"
  unfolding ServeHTTP_def demo_ip
  by (simp add: lookup_client_def Lookup_def lookupCache_def get_session_def on_session_def
      Get_def Get_enter_def start_session_def New_Manager_def resolve_waiter_def resolve_def close_ready_def
      upd_session_def record_success_def Get_ready_def MarkActive_def demo_env_def demo_state_def demo_ready_def)

lemma demo_ready_endpoint: "endpoint_of 0 (p_mgr (demo_ready ep)) = ep"
  by (simp add: endpoint_of_def demo_ready_def)

lemma upgradeType_none: "h ''Connection'' = [] \<Longrightarrow> upgradeType h = []"
  by (simp add: upgradeType_def HeaderValuesContainsToken_def)

lemma routeRequest_other:
  "k \<noteq> ''Ate-Target-Actor'' \<Longrightarrow> rq_Header (routeRequest ep q) k = rq_Header q k"
  by (simp add: routeRequest_def Let_def Header_Set_def Header_Del_def actor_key)

lemma demo_not_ws: "\<not> isWebsocketUpgrade (demo_request (\<lambda>_. []))"
  by (simp add: isWebsocketUpgrade_def demo_request_def Header_Get_def strings_ToLower_def)

lemma demo_plain:
  "ServeHTTP (demo_env ep resp) (demo_request (\<lambda>_. [])) demo_state =
     handleHTTP (demo_env ep resp) (demo_request (\<lambda>_. [])) 0 (demo_ready ep)"
  by (simp only: demo_serve demo_not_ws if_False)

lemma demo_sent:
  "\<exists>q. p_w (snd (ServeHTTP (demo_env ep (Inr demo_response)) (demo_request (\<lambda>_. [])) demo_state)) = [q]"
  unfolding demo_plain handleHTTP_def demo_ready_endpoint
  by (simp add: mcp_request_def buffer_body_def
      routeRequest_host reverse_proxy_def upgradeType_none routeRequest_other RoundTrip_def call_def count_def
      on_session_def demo_request_def IsPrint_def demo_env_def demo_response_def)
    (simp add: demo_ready_def demo_state_def)

theorem requests_routed_by_identity_witness:
  "\<exists>q. p_w (snd (ServeHTTP (demo_env ep_example (Inr demo_response)) (demo_request (\<lambda>_. [])) demo_state)) = [q] \<and>
     (\<exists>ep. (ep = zero_Endpoint \<or> ep = ep_example) \<and> rq_URLHost q \<in> {Addr ep, MCPAddr ep})"
proof -
  obtain rep st' where s: "ServeHTTP (demo_env ep_example (Inr demo_response)) (demo_request (\<lambda>_. [])) demo_state = (rep, st')"
    by fastforce
  obtain q where "p_w st' = [q]" using demo_sent [of ep_example] s by auto
  with requests_routed_by_identity [OF demo_others demo_logs demo_reach s] s show ?thesis
    by (auto simp: demo_state_def)
qed

section \<open>The routing header\<close>

lemma mcp_request_connection:
  "connection_options (rq_Header (mcp_request ep rq)) = connection_options (rq_Header rq)"
  by (simp add: connection_options_def mcp_request_def routeRequest_other)

text \<open>
  C20.  What the caller can do to the routing header.  The request that the reverse proxy hands to the
  transport carries exactly the target actor of the endpoint in \<open>ate-target-actor\<close>, whatever value
  the caller set, unless the caller's \<open>Connection\<close> header lists that name: then the header is gone,
  because \<open>ReverseProxy\<close> removes hop-by-hop headers after \<open>handleHTTP\<close> has set it, and a shared
  router gets the request with no actor.
\<close>

theorem actor_header_on_the_wire:
  "rq_Header (rp_outreq (mcp_request ep rq)) ''Ate-Target-Actor'' =
     (if TargetActor ep \<noteq> [] \<and>
         ''Ate-Target-Actor'' \<notin> CanonicalHeaderKey ` set (connection_options (rq_Header rq))
      then [TargetActor ep] else [])"
  unfolding rp_outreq_def
  by (simp add: rp_headers_other [OF actor_key_free(1)] mcp_request_connection)
    (simp add: mcp_request_def routeRequest_actor)

theorem actor_header_on_the_wire_witness:
  "rq_Header (rp_outreq (mcp_request (ep_example\<lparr>TargetActor := ''ns/pw-a''\<rparr>)
      (demo_request ((\<lambda>_. [])(''Connection'' := [''ate-target-actor'']))))) ''Ate-Target-Actor'' = [] \<and>
   rq_Header (rp_outreq (mcp_request (ep_example\<lparr>TargetActor := ''ns/pw-a''\<rparr>)
      (demo_request ((\<lambda>_. [])(''Ate-Target-Actor'' := [''ns/pw-b'']))))) ''Ate-Target-Actor'' = [''ns/pw-a'']"
proof -
  have "map CanonicalHeaderKey (connection_options ((\<lambda>_. [])(''Connection'' := [''ate-target-actor'']))) = [''Ate-Target-Actor'']"
    by code_simp
  then have "''Ate-Target-Actor'' \<in> CanonicalHeaderKey ` set (connection_options ((\<lambda>_. [])(''Connection'' := [''ate-target-actor''])))"
    by (metis list.set_intros(1) set_map)
  moreover have "connection_options ((\<lambda>_. [])(''Ate-Target-Actor'' := [''ns/pw-b''])) = []"
    by (simp add: connection_options_def)
  ultimately show ?thesis
    by (simp add: actor_header_on_the_wire demo_request_def)
qed

section \<open>Retries\<close>

text \<open>A request as \<open>http.Server\<close> delivers it: \<open>GetBody\<close> is unset, and a length of 0 means \<open>NoBody\<close>.\<close>

definition server_request :: "request \<Rightarrow> bool" where
  "server_request rq \<longleftrightarrow> rq_GetBody rq = None \<and> (rq_Body rq \<noteq> None \<longrightarrow> rq_ContentLength rq \<noteq> 0)"

lemma call_send:
  assumes "sends sent f q" and "call env f st = (x, st')"
  shows "sent (p_w st') = sent (p_w st) @ [q]" "x = fst (f (p_w st))"
  using assms unfolding sends_def call_def
  by (auto split: prod.splits) (metis snd_conv)

lemma call_quiet:
  assumes "quiet sent f" and "call env f st = (x, st')"
  shows "sent (p_w st') = sent (p_w st)"
  using assms unfolding quiet_def call_def
  by (auto split: prod.splits) (metis snd_conv)

lemma refresh_world: "refresh_session env r st = (x, st') \<Longrightarrow> p_w st' = p_w st"
  by (auto simp: refresh_session_def split: prod.splits)

text \<open>The request a retry sends.\<close>

definition replayed :: "request \<Rightarrow> request \<Rightarrow> bool" where
  "replayed req q \<longleftrightarrow> rq_Path q = rq_Path req \<and> rq_ContentLength q = rq_ContentLength req \<and>
     rq_Body q = (case rq_GetBody req of Some b \<Rightarrow> Some (b, None) | None \<Rightarrow> rq_Body req) \<and>
     (\<forall>k. k \<noteq> ''Ate-Target-Actor'' \<longrightarrow> rq_Header q k = rq_Header req k)"

lemma routeRequest_same:
  "rq_Path (routeRequest ep q) = rq_Path q" "rq_ContentLength (routeRequest ep q) = rq_ContentLength q"
  by (simp_all add: routeRequest_def Let_def)

lemma RoundTrip_sends:
  assumes "logs sent env" and "RoundTrip env req st = (x, st')"
  shows "sent (p_w st') = sent (p_w st) @ [req] \<and> x = fst (inner env req (p_w st)) \<or>
    (\<exists>e q. fst (inner env req (p_w st)) = Inl e \<and> isDialFailure e \<and>
       (rq_Body req = None \<or> rq_GetBody req \<noteq> None) \<and> replayed req q \<and>
       sent (p_w st') = sent (p_w st) @ [req, q])"
proof -
  have send: "\<And>q. sends sent (inner env q) q" using assms(1) by (simp add: logs_def)
  obtain x1 st1 where c1: "call env (inner env req) st = (x1, st1)" by fastforce
  note s1 = call_send [OF send c1]
  have rep: "replayed req (routeRequest ep ((case rq_GetBody req of
      Some b \<Rightarrow> req\<lparr>rq_Body := Some (b, None)\<rparr> | None \<Rightarrow> req)\<lparr>rq_URLHost := h\<rparr>))" for ep h
    by (cases "rq_GetBody req")
      (simp_all add: replayed_def routeRequest_other routeRequest_same routeRequest_host)
  show ?thesis
  proof (cases "\<exists>e r r' st2. x1 = Inl e \<and> isDialFailure e \<and> rq_sess req = Some r \<and>
      (rq_Body req = None \<or> rq_GetBody req \<noteq> None) \<and> refresh_session env r st1 = (Inr r', st2)")
    case True
    then obtain e r r' st2 where b: "x1 = Inl e" "isDialFailure e" "rq_sess req = Some r"
      "rq_Body req = None \<or> rq_GetBody req \<noteq> None" "refresh_session env r st1 = (Inr r', st2)" by blast
    let ?ep = "endpoint_of r' (p_mgr st2)"
    let ?q = "routeRequest ?ep ((case rq_GetBody req of
      Some b \<Rightarrow> req\<lparr>rq_Body := Some (b, None)\<rparr> | None \<Rightarrow> req)\<lparr>rq_URLHost := MCPAddr ?ep\<rparr>)"
    have "call env (inner env ?q) st2 = (x, st')"
      using assms(2) b c1 by (auto simp: RoundTrip_def Let_def)
    from call_send(1) [OF send this] have "sent (p_w st') = sent (p_w st) @ [req, ?q]"
      using s1(1) refresh_world [OF b(5)] by simp
    with rep s1(2) b show ?thesis by metis
  next
    case False
    then have "p_w st' = p_w st1 \<and> x = x1"
      using assms(2) c1 refresh_world
      by (fastforce simp: RoundTrip_def split: sum.splits if_splits option.splits prod.splits)
    with s1 show ?thesis by simp
  qed
qed

lemma proxyError_world: "proxyError env e st = (rep, st') \<Longrightarrow> p_w st' = p_w st"
  by (auto simp: proxyError_def count_def split: if_splits)

lemma reverse_proxy_sends:
  assumes "logs sent env" and "reverse_proxy env req st = (rep, st')"
  shows "sent (p_w st') = sent (p_w st) \<or>
    (\<exists>x st1. RoundTrip env (rp_outreq req) st = (x, st1) \<and> sent (p_w st') = sent (p_w st1))"
proof -
  have q: "\<And>resp. quiet sent (relay env resp)" using assms(1) by (simp add: logs_def)
  obtain x st1 where c: "RoundTrip env (rp_outreq req) st = (x, st1)" by fastforce
  have "p_w st' = p_w st \<or> sent (p_w st') = sent (p_w st1)"
    using assms(2) c proxyError_world call_quiet [OF q]
    by (fastforce simp: reverse_proxy_def split: if_splits sum.splits prod.splits option.splits)
  with c show ?thesis by auto
qed

lemma handleHTTP_sends:
  assumes "logs sent env" and "handleHTTP env rq r st = (rep, st')"
  shows "sent (p_w st') = sent (p_w st) \<or>
    (\<exists>r2 x st1. buffer_body (mcp_request (endpoint_of r (p_mgr st)) rq) = Inr r2 \<and>
       RoundTrip env (rp_outreq (r2\<lparr>rq_sess := Some r\<rparr>)) st = (x, st1) \<and> sent (p_w st') = sent (p_w st1))"
proof (cases "buffer_body (mcp_request (endpoint_of r (p_mgr st)) rq)")
  case (Inl e)
  with assms(2) show ?thesis by (auto simp: handleHTTP_def)
next
  case (Inr r2)
  obtain rep1 st1 where c: "reverse_proxy env (r2\<lparr>rq_sess := Some r\<rparr>) st = (rep1, st1)" by fastforce
  have "p_w st' = p_w st1"
    using assms(2) Inr c by (auto simp: handleHTTP_def Let_def on_session_def count_def split: reply.splits)
  with reverse_proxy_sends [OF assms(1) c] Inr show ?thesis by auto
qed

text \<open>The body of the buffered request is the body of the client's request.\<close>

lemma buffer_body_stream:
  assumes "buffer_body q = Inr q'" and "rq_GetBody q = None"
  shows "rq_Body q' = rq_Body q" "rq_Path q' = rq_Path q" "rq_ContentLength q' = rq_ContentLength q"
    "rq_GetBody q' = (case rq_Body q of
       Some (bytes, None) \<Rightarrow> if length bytes \<le> maxReplayBodyBytes then Some bytes else None
     | _ \<Rightarrow> None)"
proof -
  have "rq_Body q' = rq_Body q \<and> rq_Path q' = rq_Path q \<and> rq_ContentLength q' = rq_ContentLength q \<and>
    rq_GetBody q' = (case rq_Body q of
       Some (bytes, None) \<Rightarrow> if length bytes \<le> maxReplayBodyBytes then Some bytes else None | _ \<Rightarrow> None)"
    using assms
    by (auto simp: buffer_body_def read_limited_def multi_reader_def
        split: option.splits prod.splits sum.splits if_splits)
  then show "rq_Body q' = rq_Body q" "rq_Path q' = rq_Path q" "rq_ContentLength q' = rq_ContentLength q"
    "rq_GetBody q' = (case rq_Body q of
       Some (bytes, None) \<Rightarrow> if length bytes \<le> maxReplayBodyBytes then Some bytes else None | _ \<Rightarrow> None)"
    by blast+
qed

text \<open>The request handed to the transport, against the one the server delivered.\<close>

lemma buffered_outreq:
  fixes r :: sref
  assumes "server_request rq" and "buffer_body (mcp_request ep rq) = Inr r2"
  defines "out \<equiv> rp_outreq (r2\<lparr>rq_sess := Some r\<rparr>)"
  shows "rq_Path out = rq_Path rq" "rq_ContentLength out = rq_ContentLength rq" "rq_Body out = rq_Body rq"
    "\<And>z. rq_GetBody out = Some z \<Longrightarrow> rq_Body rq = Some (z, None) \<and> length z \<le> maxReplayBodyBytes"
proof -
  have g: "rq_GetBody (mcp_request ep rq) = None" "rq_Body (mcp_request ep rq) = rq_Body rq"
    "rq_Path (mcp_request ep rq) = rq_Path rq" "rq_ContentLength (mcp_request ep rq) = rq_ContentLength rq"
    using assms(1) by (simp_all add: mcp_request_def routeRequest_host routeRequest_same server_request_def)
  note b = buffer_body_stream [OF assms(2) g(1)]
  have nb: "rq_ContentLength rq = 0 \<Longrightarrow> rq_Body rq = None"
    using assms(1) unfolding server_request_def by blast
  show "rq_Path out = rq_Path rq" "rq_ContentLength out = rq_ContentLength rq" "rq_Body out = rq_Body rq"
    using b(1-3) g(2-4) nb by (simp_all add: rp_outreq_def out_def)
  show "rq_Body rq = Some (z, None) \<and> length z \<le> maxReplayBodyBytes" if "rq_GetBody out = Some z" for z
    using that b(4) g(2) by (auto simp: rp_outreq_def out_def split: option.splits prod.splits if_splits)
qed

text \<open>
  C19.  The HTTP path sends a request at most twice, and the second time only after the first attempt
  failed to connect.  Each attempt carries the client's path, length and complete body, so a retry
  after buffering neither loses nor repeats bytes; a body over \<open>maxReplayBodyBytes\<close> is never sent
  twice.  The premise describes requests as the server delivers them.
\<close>

theorem http_retries_replay_the_body:
  assumes "logs sent env" and "server_request rq" and "handleHTTP env rq r st = (rep, st')"
  shows "\<exists>new. sent (p_w st') = sent (p_w st) @ new \<and> length new \<le> 2 \<and>
    (\<forall>q \<in> set new. rq_Path q = rq_Path rq \<and> rq_ContentLength q = rq_ContentLength rq \<and> rq_Body q = rq_Body rq) \<and>
    (length new = 2 \<longrightarrow>
       (\<exists>e. fst (inner env (hd new) (p_w st)) = Inl e \<and> isDialFailure e) \<and>
       (case rq_Body rq of None \<Rightarrow> True | Some (b, err) \<Rightarrow> err = None \<and> length b \<le> maxReplayBodyBytes))"
proof -
  let ?mcp = "mcp_request (endpoint_of r (p_mgr st)) rq"
  from handleHTTP_sends [OF assms(1,3)] consider (none) "sent (p_w st') = sent (p_w st)"
    | (trip) r2 x st1 where "buffer_body ?mcp = Inr r2"
        "RoundTrip env (rp_outreq (r2\<lparr>rq_sess := Some r\<rparr>)) st = (x, st1)" "sent (p_w st') = sent (p_w st1)"
    by blast
  then show ?thesis
  proof cases
    case none
    then show ?thesis by (intro exI [of _ "[]"]) simp
  next
    case trip
    let ?out = "rp_outreq (r2\<lparr>rq_sess := Some r\<rparr>)"
    note o = buffered_outreq [OF assms(2) trip(1), of r]
    show ?thesis
      using RoundTrip_sends [OF assms(1) trip(2)]
    proof (rule disjE)
      assume "sent (p_w st1) = sent (p_w st) @ [?out] \<and> x = fst (inner env ?out (p_w st))"
      with trip(3) o show ?thesis by (intro exI [of _ "[?out]"]) simp
    next
      assume "\<exists>e q. fst (inner env ?out (p_w st)) = Inl e \<and> isDialFailure e \<and>
        (rq_Body ?out = None \<or> rq_GetBody ?out \<noteq> None) \<and> replayed ?out q \<and>
        sent (p_w st1) = sent (p_w st) @ [?out, q]"
      then obtain e q where s: "fst (inner env ?out (p_w st)) = Inl e" "isDialFailure e"
        "rq_Body ?out = None \<or> rq_GetBody ?out \<noteq> None" "replayed ?out q"
        "sent (p_w st1) = sent (p_w st) @ [?out, q]" by blast
      have "rq_Body q = rq_Body rq"
        using s(4) o unfolding replayed_def by (auto split: option.splits)
      moreover have "case rq_Body rq of None \<Rightarrow> True | Some (b, err) \<Rightarrow> err = None \<and> length b \<le> maxReplayBodyBytes"
        using s(3) o by (auto split: option.splits)
      ultimately show ?thesis
        using trip(3) o s unfolding replayed_def by (intro exI [of _ "[?out, q]"]) simp
    qed
  qed
qed


definition refused :: err where
  "refused = ErrOp ''dial'' (ErrMsg ''connection refused'')"

definition retry_env :: "Endpoint \<Rightarrow> request list proxy_env" where
  "retry_env ep = (demo_env ep (Inr demo_response))\<lparr>
     inner := (\<lambda>q w. (if w = [] then Inl refused else Inr demo_response, w @ [q]))\<rparr>"

definition post_request :: request where
  "post_request = (demo_request (\<lambda>_. []))\<lparr>rq_ContentLength := 5, rq_Body := Some (''hello'', None)\<rparr>"

lemma retry_logs: "logs id (retry_env ep)"
  using demo_logs [of ep "Inr demo_response"] by (simp add: logs_def sends_def retry_env_def demo_env_def)



lemma retry_env_fields:
  "pnow (retry_env ep) w = 0" "waitFor (retry_env ep) w = resolve_waiter ep" "meanwhile (retry_env ep) w m = m"
  "inner (retry_env ep) q w = (if w = [] then Inl refused else Inr demo_response, w @ [q])"
  "relay (retry_env ep) resp w = (None, w)"
  by (simp_all add: retry_env_def demo_env_def)

lemma demo_ready_w: "p_w (demo_ready ep) = []"
  by (simp add: demo_ready_def demo_state_def)

lemma post_server: "server_request post_request"
  by (simp add: server_request_def post_request_def demo_request_def)

lemma retry_refresh: "fst (refresh_session (retry_env ep) 0 ((demo_ready ep)\<lparr>p_w := w\<rparr>)) = Inr 1"
  by (simp add: refresh_session_def id_of_def demo_ready_def demo_state_def retry_env_fields
      Refresh_def Refresh_enter_def mgr_eval)

lemma retry_two: "\<exists>q1 q2. p_w (snd (handleHTTP (retry_env ep) post_request 0 (demo_ready ep))) = [q1, q2]"
proof -
  have m: "mcp_request ep post_request = (mcp_request ep post_request)\<lparr>rq_Body := Some (''hello'', None)\<rparr>"
    by (simp add: mcp_request_def routeRequest_def Let_def post_request_def)
  have b: "buffer_body (mcp_request ep post_request) =
      Inr ((mcp_request ep post_request)\<lparr>rq_Body := Some (''hello'', None), rq_GetBody := Some ''hello''\<rparr>)"
    by (subst m) (simp add: buffer_body_def read_limited_def maxReplayBodyBytes_def)
  have h: "rq_Header (mcp_request ep post_request) ''Connection'' = []"
    by (simp add: mcp_request_def routeRequest_other post_request_def demo_request_def)
  have d: "isDialFailure refused" by (simp add: isDialFailure_def refused_def)
  let ?q = "rp_outreq ((mcp_request ep post_request)\<lparr>rq_Body := Some (''hello'', None), rq_GetBody := Some ''hello'', rq_sess := Some 0\<rparr>)"
  obtain x st' where x: "refresh_session (retry_env ep) 0 ((demo_ready ep)\<lparr>p_w := [?q]\<rparr>) = (x, st')" by fastforce
  have st': "x = Inr 1" "p_w st' = [?q]"
    using retry_refresh [of ep "[?q]"] refresh_world [OF x] x by simp_all
  have s: "rq_sess ?q = Some 0" "rq_GetBody ?q = Some ''hello''" by (simp_all add: rp_outreq_def)
  show ?thesis
    unfolding handleHTTP_def demo_ready_endpoint b
    by (simp add: reverse_proxy_def upgradeType_none h IsPrint_def RoundTrip_def call_def retry_env_fields
        demo_ready_w d s x st' Let_def on_session_def count_def demo_response_def)
qed

theorem http_retries_replay_the_body_witness:
  "\<exists>q1 q2. p_w (snd (handleHTTP (retry_env ep_example) post_request 0 (demo_ready ep_example))) = [q1, q2] \<and>
     rq_Body q1 = Some (''hello'', None) \<and> rq_Body q2 = Some (''hello'', None)"
proof -
  obtain rep st' where h: "handleHTTP (retry_env ep_example) post_request 0 (demo_ready ep_example) = (rep, st')"
    by fastforce
  from http_retries_replay_the_body [OF retry_logs post_server h] retry_two [of ep_example] h
  show ?thesis by (auto simp: demo_ready_w post_request_def)
qed

end
