(* ===== verification/Proxy_Conns.thy ===== *)
theory Proxy_Conns
  imports Proxy_Props
begin

text \<open>
  How the request handler accounts for connections and requests: the WebSocket path leaves the
  counts of open connections balanced on every exit; the HTTP path counts no connection, and the
  two paths differ in which upgrades they accept and which requests they record.
\<close>

section \<open>Open connections\<close>

text \<open>Every session that existed is still there with the same count of connections.\<close>

definition fresh_ok :: "Manager \<Rightarrow> bool" where
  "fresh_ok m \<longleftrightarrow> (\<forall>r s. heap m r = Some s \<longrightarrow> r < fresh m)"

definition same_conns :: "Manager \<Rightarrow> Manager \<Rightarrow> bool" where
  "same_conns m m' \<longleftrightarrow> (fresh_ok m \<longrightarrow> fresh_ok m' \<and>
     (\<forall>r s. heap m r = Some s \<longrightarrow> (\<exists>s'. heap m' r = Some s' \<and> activeConn s' = activeConn s)))"

text \<open>The other goroutines neither open nor close a connection.\<close>

definition no_conns :: "'w proxy_env \<Rightarrow> bool" where
  "no_conns env \<longleftrightarrow> (\<forall>w m. same_conns m (meanwhile env w m)) \<and>
     (\<forall>w r m. same_conns m (snd (waitFor env w r m)))"

lemma same_conns_refl [simp]: "same_conns m m"
  by (simp add: same_conns_def)

lemma same_conns_trans: "same_conns m n \<Longrightarrow> same_conns n k \<Longrightarrow> same_conns m k"
  unfolding same_conns_def by metis

lemma same_conns_heap: "heap m' = heap m \<Longrightarrow> fresh m' = fresh m \<Longrightarrow> same_conns m m'"
  by (simp add: same_conns_def fresh_ok_def)

lemma same_conns_start: "same_conns m (snd (start_session pid c a m))"
  by (fastforce simp: same_conns_def fresh_ok_def start_session_def)

lemma same_conns_Get:
  assumes "\<And>r m. same_conns m (snd (wait r m))"
  shows "same_conns m (snd (Get wait c a pid m))"
proof -
  obtain r m1 where e: "Get_enter c a pid m = (r, m1)" by fastforce
  obtain f m2 where w: "wait r m1 = (f, m2)" by fastforce
  have "same_conns m m1"
    using e same_conns_start [of m pid c a] by (auto simp: Get_enter_def split: option.splits)
  moreover have "same_conns m1 m2" using assms [of m1 r] w by simp
  moreover have "same_conns m2 (snd (Get_ready pid r m2))"
    by (rule same_conns_heap) (simp_all add: Get_ready_def split: option.splits)
  ultimately show ?thesis
    using e w by (auto simp: Get_def split: option.splits intro: same_conns_trans)
qed

lemma same_conns_Refresh:
  assumes "\<And>r m. same_conns m (snd (wait r m))"
  shows "same_conns m (snd (Refresh wait t t' r pid m))"
proof -
  obtain act m1 where e: "Refresh_enter t t' r pid m = (act, m1)" by fastforce
  have s1: "same_conns m m1"
    using e by (intro same_conns_heap) (auto simp: Refresh_enter_def Let_def split: option.splits if_splits)
  have s2: "same_conns m m2" if "Get wait t' t' pid m1 = (x, m2)" for x m2
    using same_conns_trans [OF s1 same_conns_Get [of wait, OF assms, where c = t' and a = t' and pid = pid]] that by simp
  have s3: "same_conns m (m2\<lparr>mmetrics := mx\<rparr>)" if "Get wait t' t' pid m1 = (x, m2)" for x m2 mx
    by (rule same_conns_trans [OF s2 [OF that] same_conns_heap]) simp_all
  show ?thesis
    using s1 s2 s3 unfolding Refresh_def e by (auto split: refresh_action.splits prod.splits sum.splits)
qed

text \<open>Two states of a handler with the same counts in the sessions and in the gauge.\<close>

definition level :: "'w pst \<Rightarrow> 'w pst \<Rightarrow> bool" where
  "level st st' \<longleftrightarrow> same_conns (p_mgr st) (p_mgr st') \<and>
     metric_value collector.ActiveConns (p_mx st') = metric_value collector.ActiveConns (p_mx st) \<and>
     (p_mx st' = None \<longleftrightarrow> p_mx st = None)"

lemma level_refl [simp]: "level st st"
  by (simp add: level_def)

lemma level_trans: "level st st1 \<Longrightarrow> level st1 st2 \<Longrightarrow> level st st2"
  unfolding level_def using same_conns_trans by metis

lemma level_call: "no_conns env \<Longrightarrow> call env f st = (x, st') \<Longrightarrow> level st st'"
  by (auto simp: level_def call_def no_conns_def split: prod.splits)

lemma gauge_other:
  "metric_value collector.ActiveConns (BackendDialFailure m) = metric_value collector.ActiveConns m"
  "metric_value collector.ActiveConns (ProxyError k m) = metric_value collector.ActiveConns m"
  "metric_value collector.ActiveConns (CountRequest p c m) = metric_value collector.ActiveConns m"
  "metric_value collector.ActiveConns (AddBytes d n m) = metric_value collector.ActiveConns m"
  by (auto simp: metric_defs metric_value_emit split: option.splits)

lemma level_count:
  "level (count BackendDialFailure st) st' = level st st'" "level st (count BackendDialFailure st') = level st st'"
  "level st (count (ProxyError k) st') = level st st'" "level (count (CountRequest p c) st) st' = level st st'"
  "level st (count (CountRequest p c) st') = level st st'" "level st (count (AddBytes d n) st') = level st st'"
  by (simp_all add: level_def count_def gauge_other)
    (simp_all add: metric_defs)

lemma level_refresh: "no_conns env \<Longrightarrow> refresh_session env r st = (x, st') \<Longrightarrow> level st st'"
  using same_conns_Refresh [of "waitFor env (p_w st)" "p_mgr st"]
  by (auto simp: level_def refresh_session_def no_conns_def split: prod.splits) (metis snd_conv)

lemma level_dial_backend:
  assumes "no_conns env" and "dial_backend env r st = ((x, r'), st')"
  shows "level st st'"
proof -
  note c = level_call [OF assms(1)] and rf = level_refresh [OF assms(1)]
  show ?thesis
    using assms(2) unfolding dial_backend_def
    by (auto simp: level_count split: sum.splits prod.splits dest!: c rf) (blast intro: level_trans)+
qed

lemma conns_open_close:
  assumes "same_conns (upd_session r (ConnOpened t) m) m'"
  shows "same_conns m (upd_session r (ConnClosed t') m')"
proof -
  have f: "fresh_ok (upd_session r (ConnOpened t) m) = fresh_ok m" "fresh_ok (upd_session r (ConnClosed t') m') = fresh_ok m'"
    by (auto simp: fresh_ok_def upd_session_def split: option.splits)
  show ?thesis
  proof (cases "fresh_ok m")
    case True
    with assms f have k: "fresh_ok m'" "\<And>r' s. heap (upd_session r (ConnOpened t) m) r' = Some s \<Longrightarrow>
        \<exists>s'. heap m' r' = Some s' \<and> activeConn s' = activeConn s"
      by (auto simp: same_conns_def)
    have "\<exists>s'. heap (upd_session r (ConnClosed t') m') r' = Some s' \<and> activeConn s' = activeConn s"
      if "heap m r' = Some s" for r' s
      using k(2) [of r' "if r' = r then ConnOpened t s else s"] that
      by (cases "r' = r"; cases "heap m r"; cases "heap m' r")
        (auto simp: upd_session_def ConnOpened_def ConnClosed_def MarkActive_def)
    with k(1) f show ?thesis by (simp add: same_conns_def)
  qed (simp add: same_conns_def)
qed

lemma level_tunnel:
  assumes "no_conns env"
  shows "level st (tunnel env c b r st)"
proof -
  let ?o = "on_session env r ConnOpened st"
  let ?st1 = "count ConnOpened_metric ?o"
  obtain c2b st2 where c2: "pump_c2b env c b ?st1 = (c2b, st2)" by fastforce
  obtain b2c st3 where c3: "call env (copyToClient env c) st2 = (b2c, st3)" by fastforce
  have "level ?st1 st2"
    using c2 unfolding pump_c2b_def
    by (auto split: if_splits prod.splits option.splits dest!: level_call [OF assms] intro: level_trans)
  then have l: "level ?st1 st3" using level_call [OF assms c3] by (rule level_trans)
  let ?st4 = "count (ConnClosed_metric ''ws'' (pnow env (p_w st3) - pnow env (p_w ?st1))) (on_session env r ConnClosed st3)"
  have "level st ?st4"
    using l conns_open_close [of r "pnow env (p_w st)" "p_mgr st" "p_mgr st3" "pnow env (p_w st3)"]
    by (cases "p_mx st"; cases "p_mx st3")
      (auto simp: level_def count_def on_session_def metric_defs metric_value_emit split: option.splits)
  then show ?thesis by (simp add: tunnel_def Let_def c2 c3 level_count)
qed

lemma level_handleWS:
  assumes "no_conns env" and "handleWS env rq r st = (rep, st')"
  shows "level st st'"
proof -
  note call = level_call [OF assms(1)]
  obtain x r1 st1 where c1: "dial_backend env r st = ((x, r1), st1)" by (metis prod.collapse)
  note l1 = level_dial_backend [OF assms(1) c1]
  have l4: "level st (snd (call env f st'))" if "level st st'" for f st'
    using level_trans [OF that call [OF prod.collapse [symmetric]]] .
  have l5: "level st (tunnel env c n r1 st3)" if "level st st3" for c n st3
    using level_trans [OF that level_tunnel [OF assms(1)]] .
  show ?thesis
    using assms(2) c1 l1 unfolding handleWS_def
    by (auto simp: Let_def level_count split: option.splits sum.splits prod.splits if_splits dest!: call
        intro!: l5 l4) (blast intro: level_trans)+
qed

text \<open>
  C21.  Connection accounting of WebSockets.  On every path out of \<open>handleWS\<close>, errors included, the
  number of open connections of every session and the gauge of open connections are what they were
  before, provided the other goroutines open and close none meanwhile.
\<close>

theorem ws_connections_balanced:
  assumes "no_conns env" and "mgr_reach ens (p_mgr st)" and "handleWS env rq r st = (rep, st')"
  shows "metric_value collector.ActiveConns (p_mx st') = metric_value collector.ActiveConns (p_mx st) \<and>
    (\<forall>k s. heap (p_mgr st) k = Some s \<longrightarrow>
       (\<exists>s'. heap (p_mgr st') k = Some s' \<and> ActiveConns s' = ActiveConns s))"
proof -
  have "fresh_ok (p_mgr st)"
    using inv_fresh [OF reach_inv [OF assms(2)]] by (simp add: fresh_ok_def)
  with level_handleWS [OF assms(1,3)] show ?thesis
    unfolding level_def same_conns_def ActiveConns_def by metis
qed

lemma resolve_waiter_conns: "same_conns m (snd (resolve_waiter ep r m))"
proof (cases "\<exists>s. heap m r = Some s \<and> \<not> ready s \<and> r \<in> set (resolving m)")
  case True
  then obtain s where s: "heap m r = Some s" "\<not> ready s" "r \<in> set (resolving m)" by blast
  from resolve_effect [OF s(1,2), of 0 0 "Inr ep"] obtain mx where
    res: "resolve r 0 0 (Inr ep) m = Some (m\<lparr>mmetrics := mx,
       heap := (heap m)(r \<mapsto> publish (Inr ep) s), resolving := remove1 r (resolving m)\<rparr>)" by blast
  have "activeConn (publish (Inr ep) s) = activeConn s" by (simp add: publish_def)
  with s res show ?thesis by (auto simp: resolve_waiter_def same_conns_def fresh_ok_def)
next
  case False
  then show ?thesis by (auto simp: resolve_waiter_def split: option.splits)
qed

lemma demo_no_conns: "no_conns (demo_env ep resp)"
  by (simp add: no_conns_def demo_env_def resolve_waiter_conns)

definition switching :: Response where
  "switching = demo_response\<lparr>rs_Status := ''101 Switching Protocols'', rs_StatusCode := 101\<rparr>"

definition upgrade_headers :: "string list \<Rightarrow> Header" where
  "upgrade_headers conn = (\<lambda>_. [])(''Connection'' := conn, ''Upgrade'' := [''websocket''])"

lemma demo_ready_reach: "mgr_reach (\<lambda>_ res. res = Inr ep) (p_mgr (demo_ready ep))"
proof -
  have g: "Get (resolve_waiter ep) 0 0 ''alpha'' (p_mgr demo_state) = (Inr 0, p_mgr (demo_ready ep))"
    by (simp add: demo_ready_def demo_state_def mgr_eval)
  from Get_Inr [OF demo_reach resolve_waiter_ok g] show ?thesis by blast
qed

lemma demo_tunnel:
  "fst (handleWS (demo_env ep (Inr switching)) rq 0 (demo_ready ep)) =
     Tunnelled (handshake_bytes (demo_env ep (Inr switching)) switching)"
  by (simp add: handleWS_def dial_backend_def call_def demo_env_def switching_def)

theorem ws_connections_balanced_witness:
  "fst (handleWS (demo_env ep_example (Inr switching)) (demo_request (upgrade_headers [''Upgrade''])) 0 (demo_ready ep_example)) =
     Tunnelled (handshake_bytes (demo_env ep_example (Inr switching)) switching) \<and>
   (\<exists>s'. heap (p_mgr (snd (handleWS (demo_env ep_example (Inr switching)) (demo_request (upgrade_headers [''Upgrade''])) 0
       (demo_ready ep_example)))) 0 = Some s' \<and> ActiveConns s' = 0)"
proof -
  obtain rep st' where h: "handleWS (demo_env ep_example (Inr switching)) (demo_request (upgrade_headers [''Upgrade''])) 0
      (demo_ready ep_example) = (rep, st')" by fastforce
  have s: "\<exists>s. heap (p_mgr (demo_ready ep_example)) 0 = Some s \<and> ActiveConns s = 0"
    by (simp add: demo_ready_def ActiveConns_def)
  from ws_connections_balanced [OF demo_no_conns demo_ready_reach h] s demo_tunnel h
  show ?thesis by (metis fst_conv snd_conv)
qed

section \<open>Behaviours of the HTTP path that differ from the WebSocket path\<close>

lemma demo_mcp_header:
  "k \<noteq> ''Ate-Target-Actor'' \<Longrightarrow> rq_Header (mcp_request ep (demo_request h)) k = h k"
  by (simp add: mcp_request_def routeRequest_other demo_request_def)

lemma demo_buffer: "buffer_body (mcp_request ep (demo_request h)) = Inr (mcp_request ep (demo_request h))"
  by (simp add: buffer_body_def mcp_request_def routeRequest_host demo_request_def)

lemma upgradeType_websocket:
  "h ''Upgrade'' = [''websocket''] \<Longrightarrow> IsPrint (upgradeType h)"
proof -
  assume h: "h ''Upgrade'' = [''websocket'']"
  have "CanonicalHeaderKey ''Upgrade'' = ''Upgrade''" "IsPrint ''websocket''" by code_simp+
  with h show ?thesis by (simp add: upgradeType_def Header_Get_def IsPrint_def)
qed

lemma demo_101:
  "fst (handleHTTP (demo_env ep (Inr switching)) (demo_request (upgrade_headers cs)) 0 (demo_ready ep)) =
     ErrorReply 502 ''upstream error: ''"
proof -
  have u: "IsPrint (upgradeType (rq_Header (mcp_request ep (demo_request (upgrade_headers cs)))))"
    by (rule upgradeType_websocket) (simp add: demo_mcp_header upgrade_headers_def)
  have e: "\<not> errors_Is_canceled no_hijacker" by (simp add: no_hijacker_def)
  show ?thesis
    unfolding handleHTTP_def demo_ready_endpoint demo_buffer
    by (simp add: reverse_proxy_def u RoundTrip_def call_def demo_env_def switching_def proxyError_def e Let_def)
qed

lemma connection_keys:
  "CanonicalHeaderKey ''Connection'' = ''Connection''" "CanonicalHeaderKey ''Upgrade'' = ''Upgrade''"
  by code_simp+

lemma ws_joined: "isWebsocketUpgrade (demo_request (upgrade_headers [''keep-alive, Upgrade'']))"
proof -
  have "strings_Contains (strings_ToLower ''keep-alive, Upgrade'') ''upgrade''" "strings_EqualFold ''websocket'' ''websocket''"
    by code_simp+
  then show ?thesis
    by (simp add: isWebsocketUpgrade_def demo_request_def Header_Get_def connection_keys upgrade_headers_def)
qed

lemma ws_split: "\<not> isWebsocketUpgrade (demo_request (upgrade_headers [''keep-alive'', ''Upgrade'']))"
proof -
  have "\<not> strings_Contains (strings_ToLower ''keep-alive'') ''upgrade''" by code_simp
  then show ?thesis
    by (simp add: isWebsocketUpgrade_def demo_request_def Header_Get_def connection_keys upgrade_headers_def)
qed

text \<open>
  A \<open>Connection\<close> header in two lines defeats the detection of WebSockets.  The same upgrade, to a
  backend that accepts it, is tunnelled when the client sends \<open>Connection: keep-alive, Upgrade\<close> and
  answered with 502 when it sends \<open>keep-alive\<close> and \<open>Upgrade\<close> on lines of their own, which means the
  same in HTTP: \<open>isWebsocketUpgrade\<close> reads only the first value, and the reverse proxy cannot
  switch protocols through \<open>statusRecorder\<close>.
\<close>

theorem split_connection_header_is_502:
  "fst (ServeHTTP (demo_env ep (Inr switching)) (demo_request (upgrade_headers [''keep-alive, Upgrade''])) demo_state) =
     Tunnelled (handshake_bytes (demo_env ep (Inr switching)) switching) \<and>
   fst (ServeHTTP (demo_env ep (Inr switching)) (demo_request (upgrade_headers [''keep-alive'', ''Upgrade''])) demo_state) =
     ErrorReply 502 ''upstream error: ''"
  by (simp only: demo_serve ws_joined ws_split if_True if_False demo_tunnel demo_101 simp_thms)

lemma upd_session_map [simp]:
  "sessions (upd_session r f m) = sessions m" "victims (upd_session r f m) = victims m"
  by (simp_all add: upd_session_def split: option.splits)

lemma handleHTTP_relayed:
  assumes "buffer_body (mcp_request (endpoint_of r (p_mgr st)) rq) = Inr r2" and "IsPrint (upgradeType (rq_Header r2))"
    and "inner env (rp_outreq (r2\<lparr>rq_sess := Some r\<rparr>)) (p_w st) = (Inr resp, w1)" and "rs_StatusCode resp \<noteq> 101"
    and "relay env resp w1 = (None, w2)" and "handleHTTP env rq r st = (rep, st')"
  shows "rep = Relayed (rs_StatusCode resp) (removeHopByHopHeaders (rs_Header resp)) (rs_Body resp) \<and>
    p_mgr st' = upd_session r (MarkActive (pnow env w2)) (meanwhile env w2 (meanwhile env w1 (p_mgr st)))"
proof -
  have h: "rq_Header (r2\<lparr>rq_sess := Some r\<rparr>) = rq_Header r2" by simp
  show ?thesis
    using assms unfolding handleHTTP_def
    by (auto simp: reverse_proxy_def h RoundTrip_def call_def Let_def on_session_def count_def)
qed

text \<open>
  C39.  An HTTP response in flight does not keep its session alive: only \<open>handleWS\<close> counts a connection.  Take any
  request that \<open>handleHTTP\<close> relays: its body could be buffered, the first attempt got a response other than
  101, and copying the body to the client succeeds.  If, while the body is being copied, the reaper runs its scan
  in a reachable state in which it has no victims left, and the session of the request is resolved, has no open
  connections and was last active at least \<open>idleTTL\<close> ago (it is marked active only before and after the
  request), then the client gets the response, the session is out of the map when \<open>handleHTTP\<close> returns, and
  the deletions that the reaper still has to do contain the one of its sandbox.
\<close>

theorem http_response_does_not_hold_its_session:
  assumes "buffer_body (mcp_request (endpoint_of r (p_mgr st)) rq) = Inr r2" and "IsPrint (upgradeType (rq_Header r2))"
    and "inner env (rp_outreq (r2\<lparr>rq_sess := Some r\<rparr>)) (p_w st) = (Inr resp, w1)" and "rs_StatusCode resp \<noteq> 101"
    and "relay env resp w1 = (None, w2)" and "m1 = meanwhile env w1 (p_mgr st)" and "mgr_reach ens m1" and "victims m1 = []"
    and "sessions m1 pid = Some r" and "heap m1 r = Some s" and "ready s" and "ActiveConns s \<le> 0" and "LastActive s \<le> now - idleTTL m1"
    and "distinct order" and "set order = dom (sessions m1)" and "meanwhile env w2 m1 = reap_scan now order m1"
    and "handleHTTP env rq r st = (rep, st')"
  shows "rep = Relayed (rs_StatusCode resp) (removeHopByHopHeaders (rs_Header resp)) (rs_Body resp) \<and>
    sessions (p_mgr st') pid = None \<and>
    (\<forall>t del w. \<exists>before after. snd (reap_deletes t del (length (victims (p_mgr st'))) (p_mgr st') w) =
       fold (\<lambda>q v. snd (del q v)) (before @ pid # after) w)"
proof -
  note p = handleHTTP_relayed [OF assms(1-5,17)]
  let ?m = "p_mgr st'"
  have m: "?m = upd_session r (MarkActive (pnow env w2)) (reap_scan now order m1)" using p assms(6,16) by simp
  have "mgr_reach ens (reap_scan now order m1)" by (rule mgr_reach.step [OF assms(7) mgr_step.scan [OF assms(8,14,15)]])
  then have reach: "mgr_reach ens ?m" unfolding m by (rule mgr_reach.step [OF _ mgr_step.active])
  have d: "doomed (now - idleTTL m1) m1 pid" using assms(9-13) by (auto simp: doomed_def reapable_def)
  note e = reap_scan_effect [OF assms(14,15), of now]
  have "pid \<in> set order" using assms(9,15) by blast
  with d e(3) assms(9) have v: "r \<in> set (victims ?m)" by (force simp: m)
  have id: "sID (the (heap ?m r)) = pid"
    using inv_sessions [OF reach_inv [OF assms(7)] assms(9)] assms(10) by (simp add: m upd_session_def heap_reap_scan MarkActive_def)
  have "\<forall>r \<in> set (victims ?m). heap ?m r \<noteq> None" using inv_victims [OF reach_inv [OF reach]] by blast
  note ef = reap_deletes_effect [OF refl this, THEN conjunct1]
  obtain xs ys where "victims ?m = xs @ r # ys" using v by (meson split_list)
  then have "map (\<lambda>r. sID (the (heap ?m r))) (victims ?m) =
      map (\<lambda>r. sID (the (heap ?m r))) xs @ pid # map (\<lambda>r. sID (the (heap ?m r))) ys" using id by simp
  with ef have "\<exists>before after. snd (reap_deletes t del (length (victims ?m)) ?m w) =
       fold (\<lambda>q v. snd (del q v)) (before @ pid # after) w" for t w and del :: "string \<Rightarrow> ('b, err option) io" by metis
  moreover have "sessions ?m pid = None" unfolding m using e(1) d by simp
  ultimately show ?thesis using p by blast
qed

text \<open>
  A world in which the reaper runs, at an instant after the idle timeout, while the response is copied.
\<close>

definition slow_env :: "Endpoint \<Rightarrow> Response \<Rightarrow> request list proxy_env" where
  "slow_env ep resp = (demo_env ep (Inr resp))\<lparr>
     meanwhile := (\<lambda>w m. if length w = 2 then reap_scan 1000 [''alpha''] m else m),
     relay := (\<lambda>r w. (None, w @ [demo_request (\<lambda>_. [])]))\<rparr>"

lemma slow_fields:
  "pnow (slow_env ep resp) w = 0" "inner (slow_env ep resp) q w = (Inr resp, w @ [q])"
  "relay (slow_env ep resp) r w = (None, w @ [demo_request (\<lambda>_. [])])"
  "meanwhile (slow_env ep resp) w m = (if length w = 2 then reap_scan 1000 [''alpha''] m else m)"
  by (simp_all add: slow_env_def demo_env_def)

theorem http_response_does_not_hold_its_session_witness:
  "\<exists>st' c h b. handleHTTP (slow_env ep_example demo_response) (demo_request (\<lambda>_. [])) 0 (demo_ready ep_example) = (Relayed c h b, st') \<and>
     sessions (p_mgr st') ''alpha'' = None"
proof -
  let ?env = "slow_env ep_example demo_response" and ?st = "demo_ready ep_example" and ?m = "p_mgr (demo_ready ep_example)"
  obtain rep st' where h: "handleHTTP ?env (demo_request (\<lambda>_. [])) 0 ?st = (rep, st')" by fastforce
  have u: "upgradeType (rq_Header (mcp_request ep_example (demo_request (\<lambda>_. [])))) = []"
    by (rule upgradeType_none) (simp add: demo_mcp_header)
  have m: "sessions ?m = [''alpha'' \<mapsto> 0]" "victims ?m = []" "idleTTL ?m = 600"
    "\<exists>s. heap ?m 0 = Some s \<and> ready s \<and> ActiveConns s \<le> 0 \<and> LastActive s \<le> 1000 - idleTTL ?m"
    by (simp_all add: demo_ready_def demo_state_def New_Manager_def ActiveConns_def LastActive_def)
  then obtain s where s: "heap ?m 0 = Some s" "ready s" "ActiveConns s \<le> 0" "LastActive s \<le> 1000 - idleTTL ?m" by blast
  let ?rq = "mcp_request ep_example (demo_request (\<lambda>_. []))" and ?w1 = "\<lambda>q. [q]"
  have w: "p_w ?st = []" by (simp add: demo_ready_w)
  have b: "buffer_body (mcp_request (endpoint_of 0 ?m) (demo_request (\<lambda>_. []))) = Inr ?rq"
    unfolding demo_ready_endpoint by (rule demo_buffer)
  have i: "inner ?env q (p_w ?st) = (Inr demo_response, [q])" for q by (simp add: slow_fields w)
  have l: "relay ?env demo_response [q] = (None, [q, demo_request (\<lambda>_. [])])" for q by (simp add: slow_fields)
  have c: "rs_StatusCode demo_response \<noteq> 101" "IsPrint (upgradeType (rq_Header ?rq))" by (simp_all add: demo_response_def u IsPrint_def)
  have mw: "?m = meanwhile ?env [q] ?m" "meanwhile ?env [q, q'] ?m = reap_scan 1000 [''alpha''] ?m" for q q'
    by (simp_all add: slow_fields)
  have o: "distinct [''alpha'']" "set [''alpha''] = dom (sessions ?m)" "sessions ?m ''alpha'' = Some 0" using m(1) by simp_all
  note t = http_response_does_not_hold_its_session [OF b c(2) i c(1) l mw(1) demo_ready_reach m(2) o(3) s o(1,2) mw(2) h]
  have r: "rep = Relayed (rs_StatusCode demo_response) (removeHopByHopHeaders (rs_Header demo_response)) (rs_Body demo_response)"
    using t by (elim conjE)
  have "sessions (p_mgr st') ''alpha'' = None" using t by (elim conjE)
  with h r show ?thesis by (intro exI conjI) simp_all
qed
text \<open>The counter of requests, which only \<open>RecordRequest\<close> and \<open>CountRequest\<close> change.\<close>

lemma requests_count:
  "m \<noteq> None \<Longrightarrow> metric_value Requests (RecordRequest p c d m) = metric_value Requests m + 1"
  "metric_value Requests (ProxyError k m) = metric_value Requests m" "ProxyError k m = None \<longleftrightarrow> m = None"
  by (auto simp: metric_defs metric_value_emit split: option.splits)

lemma call_mx: "call env f st = (x, st') \<Longrightarrow> p_mx st' = p_mx st"
  by (auto simp: call_def split: prod.splits)

lemma refresh_mx: "refresh_session env r st = (x, st') \<Longrightarrow> p_mx st' = p_mx st"
  by (auto simp: refresh_session_def split: prod.splits)

lemma RoundTrip_mx: "RoundTrip env req st = (x, st') \<Longrightarrow> p_mx st' = p_mx st"
  by (auto simp: RoundTrip_def Let_def split: sum.splits if_splits option.splits prod.splits
      dest!: call_mx refresh_mx)

lemma reverse_proxy_requests:
  assumes "reverse_proxy env req st = (rep, st')"
  shows "metric_value Requests (p_mx st') = metric_value Requests (p_mx st)" "p_mx st' = None \<longleftrightarrow> p_mx st = None"
  using assms
  by (auto simp: reverse_proxy_def proxyError_def count_def requests_count
      split: if_splits sum.splits prod.splits option.splits dest!: call_mx RoundTrip_mx)

text \<open>
  C40.  Which HTTP requests are counted.  With metrics installed, \<open>handleHTTP\<close> counts a request exactly
  once on every path, retries and upstream errors included, except two: when reading the
  client's body fails, and when the copy of the response breaks off, where \<open>ReverseProxy\<close> panics
  with \<open>ErrAbortHandler\<close> past \<open>RecordRequest\<close>.
\<close>

theorem http_requests_counted:
  assumes "p_mx st \<noteq> None" and "handleHTTP env rq r st = (rep, st')"
  shows "metric_value Requests (p_mx st') = metric_value Requests (p_mx st) +
    (if (\<exists>c h. rep = Aborted c h) \<or> (\<exists>e. buffer_body (mcp_request (endpoint_of r (p_mgr st)) rq) = Inl e)
     then 0 else 1)"
proof (cases "buffer_body (mcp_request (endpoint_of r (p_mgr st)) rq)")
  case (Inl e)
  with assms(2) show ?thesis by (auto simp: handleHTTP_def)
next
  case (Inr r2)
  obtain rep1 st1 where c: "reverse_proxy env (r2\<lparr>rq_sess := Some r\<rparr>) st = (rep1, st1)" by fastforce
  note m = reverse_proxy_requests [OF c]
  show ?thesis
    using assms Inr c m
    by (cases rep1) (auto simp: handleHTTP_def Let_def on_session_def count_def requests_count)
qed

definition abort_env :: "Endpoint \<Rightarrow> request list proxy_env" where
  "abort_env ep = (demo_env ep (Inr demo_response))\<lparr>relay := (\<lambda>r w. (Some ErrCanceled, w))\<rparr>"

definition counted_state :: "Endpoint \<Rightarrow> request list pst" where
  "counted_state ep = (demo_ready ep)\<lparr>p_mx := New_Metrics ''substrate'' ''v'' ''c''\<rparr>"

lemma abort_reply:
  "\<exists>c h. fst (handleHTTP (abort_env ep) (demo_request (\<lambda>_. [])) 0 (counted_state ep)) = Aborted c h"
proof -
  have e: "endpoint_of 0 (p_mgr (counted_state ep)) = ep"
    using demo_ready_endpoint [of ep] by (simp add: counted_state_def)
  have u: "upgradeType (rq_Header (mcp_request ep (demo_request (\<lambda>_. [])))) = []"
    by (rule upgradeType_none) (simp add: demo_mcp_header)
  show ?thesis
    unfolding handleHTTP_def e demo_buffer
    by (simp add: reverse_proxy_def u IsPrint_def RoundTrip_def call_def abort_env_def demo_env_def demo_response_def Let_def)
qed

theorem http_requests_counted_witness:
  "(\<exists>c h. fst (handleHTTP (abort_env ep_example) (demo_request (\<lambda>_. [])) 0 (counted_state ep_example)) = Aborted c h) \<and>
   metric_value Requests (p_mx (snd (handleHTTP (abort_env ep_example) (demo_request (\<lambda>_. [])) 0 (counted_state ep_example)))) = 0"
proof -
  have m: "p_mx (counted_state ep_example) \<noteq> None" "metric_value Requests (p_mx (counted_state ep_example)) = 0"
    by (simp_all add: counted_state_def New_Metrics_def metric_value_def)
  obtain rep st' where h: "handleHTTP (abort_env ep_example) (demo_request (\<lambda>_. [])) 0 (counted_state ep_example) = (rep, st')"
    by fastforce
  from http_requests_counted [OF m(1) h] m(2) abort_reply [of ep_example] h show ?thesis by auto
qed

section \<open>The status recorder\<close>

fun sr_do :: "writer_call \<Rightarrow> statusRecorder \<Rightarrow> statusRecorder" where
  "sr_do (WroteHeader c) = WriteHeader c"
| "sr_do Flushed = Flush"

text \<open>The statuses among the calls.\<close>

definition statuses :: "writer_call list \<Rightarrow> int list" where
  "statuses cs = concat (map (\<lambda>c. case c of WroteHeader k \<Rightarrow> [k] | Flushed \<Rightarrow> []) cs)"

lemma statuses_simps [simp]:
  "statuses [] = []" "statuses (WroteHeader c # cs) = c # statuses cs" "statuses (Flushed # cs) = statuses cs"
  by (simp_all add: statuses_def)

text \<open>
  The recorder is transparent: the wrapped writer gets every call made to the recorder, in order,
  without the flushes it does not support; and the status kept is the first one written.
\<close>

lemma WriteHeader_simps [simp]:
  "sr_calls (WriteHeader c s) = sr_calls s @ [WroteHeader c]" "sr_flusher (WriteHeader c s) = sr_flusher s"
  "sr_wroteHeader (WriteHeader c s)" "sr_status (WriteHeader c s) = (if sr_wroteHeader s then sr_status s else c)"
  by (simp_all add: WriteHeader_def Let_def)

lemma Flush_simps [simp]:
  "sr_calls (Flush s) = sr_calls s @ (if sr_flusher s then [Flushed] else [])" "sr_flusher (Flush s) = sr_flusher s"
  "sr_wroteHeader (Flush s) = sr_wroteHeader s" "sr_status (Flush s) = sr_status s"
  by (simp_all add: Flush_def)

lemma statusRecorder_transparent:
  "sr_calls (fold sr_do cs s) = sr_calls s @ filter (\<lambda>c. c = Flushed \<longrightarrow> sr_flusher s) cs \<and>
   sr_status (fold sr_do cs s) = (if sr_wroteHeader s \<or> statuses cs = [] then sr_status s else hd (statuses cs))"
proof (induction cs arbitrary: s)
  case (Cons c cs)
  show ?case using Cons.IH [of "sr_do c s"] by (cases c) auto
qed simp

lemma recorded_status_first:
  "recorded_status infos rep = hd (infos @ (case rep of ErrorReply c _ \<Rightarrow> [c] | Relayed c _ _ \<Rightarrow> [c] | _ \<Rightarrow> []) @ [200])"
proof -
  have f: "fold WriteHeader ks s = fold sr_do (map WroteHeader ks) s" for ks s
    by (induction ks arbitrary: s) simp_all
  have s: "statuses (map WroteHeader ks) = ks" for ks by (induction ks) simp_all
  show ?thesis
    unfolding recorded_status_def f statusRecorder_transparent [THEN conjunct2] s
    by (cases infos) (simp_all split: reply.split)
qed

text \<open>
  An informational status hides the real one: when the backend sends \<open>103\<close> before its response, the
  request is recorded with the status 103, whatever the response is.
\<close>

lemma informational_status_recorded: "recorded_status (103 # infos) rep = 103"
  by (simp add: recorded_status_first)

end
