(* ===== verification/Ate_Api.thy ===== *)
theory Ate_Api
  imports Backend
begin

text \<open>
  The messages of substrate's Control service that the substrate backend uses, from the generated
  file \<open>internal/backend/ateapipb/ateapi.pb.go\<close>: the fields that the program reads or sets (the
  bookkeeping fields of the protobuf runtime and the fields nothing in the program mentions are
  left out).  A message pointer is an \<open>option\<close>; the generated getters are defined on nil and
  return zero values there.  The \<open>int32\<close> enumeration \<open>ActorState\<close> is open: values that a later
  version of the service adds are \<open>ActorState_other\<close>.
\<close>

section \<open>Actor states\<close>

datatype ActorState =
    ACTOR_STATE_UNSPECIFIED
  | ACTOR_STATE_RESUMING
  | ACTOR_STATE_RUNNING
  | ACTOR_STATE_SUSPENDING
  | ACTOR_STATE_SUSPENDED
  | ACTOR_STATE_CRASHED
  | ACTOR_STATE_DELETING
  | ACTOR_STATE_REVERTING
  | ActorState_other int

definition ActorState_name :: "int \<rightharpoonup> string" where
  "ActorState_name = [
     0 \<mapsto> ''ACTOR_STATE_UNSPECIFIED'',
     1 \<mapsto> ''ACTOR_STATE_RESUMING'',
     2 \<mapsto> ''ACTOR_STATE_RUNNING'',
     3 \<mapsto> ''ACTOR_STATE_SUSPENDING'',
     4 \<mapsto> ''ACTOR_STATE_SUSPENDED'',
     7 \<mapsto> ''ACTOR_STATE_CRASHED'',
     8 \<mapsto> ''ACTOR_STATE_DELETING'',
     9 \<mapsto> ''ACTOR_STATE_REVERTING'']"

definition ActorState_value :: "string \<rightharpoonup> int" where
  "ActorState_value = [
     ''ACTOR_STATE_UNSPECIFIED'' \<mapsto> 0,
     ''ACTOR_STATE_RESUMING'' \<mapsto> 1,
     ''ACTOR_STATE_RUNNING'' \<mapsto> 2,
     ''ACTOR_STATE_SUSPENDING'' \<mapsto> 3,
     ''ACTOR_STATE_SUSPENDED'' \<mapsto> 4,
     ''ACTOR_STATE_CRASHED'' \<mapsto> 7,
     ''ACTOR_STATE_DELETING'' \<mapsto> 8,
     ''ACTOR_STATE_REVERTING'' \<mapsto> 9]"

fun ActorState_Number :: "ActorState \<Rightarrow> int" where
  "ActorState_Number ACTOR_STATE_UNSPECIFIED = 0"
| "ActorState_Number ACTOR_STATE_RESUMING = 1"
| "ActorState_Number ACTOR_STATE_RUNNING = 2"
| "ActorState_Number ACTOR_STATE_SUSPENDING = 3"
| "ActorState_Number ACTOR_STATE_SUSPENDED = 4"
| "ActorState_Number ACTOR_STATE_CRASHED = 7"
| "ActorState_Number ACTOR_STATE_DELETING = 8"
| "ActorState_Number ACTOR_STATE_REVERTING = 9"
| "ActorState_Number (ActorState_other n) = n"

text \<open>\<open>String\<close>: the name of the value, or its number when it has none.\<close>

definition ActorState_String :: "ActorState \<Rightarrow> string" where
  "ActorState_String s =
     (case ActorState_name (ActorState_Number s) of
        Some n \<Rightarrow> n | None \<Rightarrow> strconv_Itoa (ActorState_Number s))"

lemma ActorState_value_name:
  "ActorState_name i = Some s \<longleftrightarrow> ActorState_value s = Some i"
  by (auto simp: ActorState_name_def ActorState_value_def split: if_splits)

section \<open>Messages\<close>

record ObjectRef =
  or_Atespace :: string
  or_Name :: string

record ResourceMetadata =
  rm_Atespace :: string
  rm_Name :: string

record ActorCrash =
  ac_Message :: string

record ActorStatus =
  as_State :: ActorState
  as_Crash :: "ActorCrash option"

record Actor =
  a_Metadata :: "ResourceMetadata option"
  a_ActorTemplate :: "ObjectRef option"
  a_Status :: "ActorStatus option"

record Ports =
  p_All :: bool \<comment> \<open>whether the message without fields is present\<close>
  p_Numbers :: "int list"

text \<open>Of the union members and effects the backend never sets, only the presence matters here.\<close>

record HttpRule =
  hr_Hostnames :: "string list"
  hr_Ports :: "Ports option"
  hr_hasEffects :: bool

record EgressRule =
  er_Http :: "HttpRule option"
  er_hasHttps :: bool
  er_hasTlsPassthrough :: bool

record EgressPolicy =
  ep_Metadata :: "ResourceMetadata option"
  ep_Rules :: "EgressRule list"

record GetActorRequest =
  gar_Actor :: "ObjectRef option"

record CreateActorRequest =
  car_Actor :: "Actor option"

record SuspendActorRequest =
  sar_Actor :: "ObjectRef option"

record ResumeActorRequest =
  rar_Actor :: "ObjectRef option"

record DeleteActorRequest =
  dar_Actor :: "ObjectRef option"
  dar_AnyState :: bool

record GetActorEgressPolicyRequest =
  gepr_Actor :: "ObjectRef option"
  gepr_Name :: string

record CreateActorEgressPolicyRequest =
  cepr_Actor :: "ObjectRef option"
  cepr_EgressPolicy :: "EgressPolicy option"

record ListOptions =
  lo_PageSize :: int
  lo_PageToken :: string

record ListActorsRequest =
  lar_Atespace :: string
  lar_Options :: "ListOptions option"

record ListActorsResponse =
  lresp_Actors :: "Actor list"
  lresp_NextPageToken :: string

section \<open>Getters\<close>

definition ObjectRef_GetAtespace :: "ObjectRef option \<Rightarrow> string" where
  "ObjectRef_GetAtespace x = (case x of Some x \<Rightarrow> or_Atespace x | None \<Rightarrow> [])"

definition ObjectRef_GetName :: "ObjectRef option \<Rightarrow> string" where
  "ObjectRef_GetName x = (case x of Some x \<Rightarrow> or_Name x | None \<Rightarrow> [])"

definition ResourceMetadata_GetName :: "ResourceMetadata option \<Rightarrow> string" where
  "ResourceMetadata_GetName x = (case x of Some x \<Rightarrow> rm_Name x | None \<Rightarrow> [])"

definition Actor_GetMetadata :: "Actor option \<Rightarrow> ResourceMetadata option" where
  "Actor_GetMetadata x = (case x of Some x \<Rightarrow> a_Metadata x | None \<Rightarrow> None)"

definition Actor_GetActorTemplate :: "Actor option \<Rightarrow> ObjectRef option" where
  "Actor_GetActorTemplate x = (case x of Some x \<Rightarrow> a_ActorTemplate x | None \<Rightarrow> None)"

definition Actor_GetStatus :: "Actor option \<Rightarrow> ActorStatus option" where
  "Actor_GetStatus x = (case x of Some x \<Rightarrow> a_Status x | None \<Rightarrow> None)"

definition ActorStatus_GetState :: "ActorStatus option \<Rightarrow> ActorState" where
  "ActorStatus_GetState x = (case x of Some x \<Rightarrow> as_State x | None \<Rightarrow> ACTOR_STATE_UNSPECIFIED)"

definition ActorStatus_GetCrash :: "ActorStatus option \<Rightarrow> ActorCrash option" where
  "ActorStatus_GetCrash x = (case x of Some x \<Rightarrow> as_Crash x | None \<Rightarrow> None)"

definition ActorCrash_GetMessage :: "ActorCrash option \<Rightarrow> string" where
  "ActorCrash_GetMessage x = (case x of Some x \<Rightarrow> ac_Message x | None \<Rightarrow> [])"

definition EgressPolicy_GetRules :: "EgressPolicy option \<Rightarrow> EgressRule list" where
  "EgressPolicy_GetRules x = (case x of Some x \<Rightarrow> ep_Rules x | None \<Rightarrow> [])"

definition ListActorsResponse_GetActors :: "ListActorsResponse option \<Rightarrow> Actor list" where
  "ListActorsResponse_GetActors x = (case x of Some x \<Rightarrow> lresp_Actors x | None \<Rightarrow> [])"

definition ListActorsResponse_GetNextPageToken :: "ListActorsResponse option \<Rightarrow> string" where
  "ListActorsResponse_GetNextPageToken x = (case x of Some x \<Rightarrow> lresp_NextPageToken x | None \<Rightarrow> [])"

lemmas getter_defs = ObjectRef_GetAtespace_def ObjectRef_GetName_def ResourceMetadata_GetName_def
  Actor_GetMetadata_def Actor_GetActorTemplate_def Actor_GetStatus_def ActorStatus_GetState_def
  ActorStatus_GetCrash_def ActorCrash_GetMessage_def EgressPolicy_GetRules_def
  ListActorsResponse_GetActors_def ListActorsResponse_GetNextPageToken_def

text \<open>The template and the state of an actor, through the getters.\<close>

definition uses_template :: "string \<Rightarrow> string \<Rightarrow> Actor \<Rightarrow> bool" where
  "uses_template ns name a \<longleftrightarrow>
     ObjectRef_GetAtespace (Actor_GetActorTemplate (Some a)) = ns \<and>
     ObjectRef_GetName (Actor_GetActorTemplate (Some a)) = name"

definition actor_state :: "Actor \<Rightarrow> ActorState" where
  "actor_state a = ActorStatus_GetState (Actor_GetStatus (Some a))"

section \<open>The client of the Control service\<close>

text \<open>
  The methods of the generated \<open>ControlClient\<close> that the backend calls.  As the generated stubs do,
  a call returns either a message or an error.
\<close>

record 'w control =
  cGetActor :: "GetActorRequest \<Rightarrow> ('w, Actor result) io"
  cCreateActor :: "CreateActorRequest \<Rightarrow> ('w, Actor result) io"
  cSuspendActor :: "SuspendActorRequest \<Rightarrow> ('w, err option) io"
  cResumeActor :: "ResumeActorRequest \<Rightarrow> ('w, err option) io"
  cDeleteActor :: "DeleteActorRequest \<Rightarrow> ('w, Actor result) io"
  cGetActorEgressPolicy :: "GetActorEgressPolicyRequest \<Rightarrow> ('w, EgressPolicy result) io"
  cCreateActorEgressPolicy :: "CreateActorEgressPolicyRequest \<Rightarrow> ('w, EgressPolicy result) io"
  cListActors :: "ListActorsRequest \<Rightarrow> ('w, ListActorsResponse result) io"

end
