(* ===== verification/Substrate.thy ===== *)
theory Substrate
  imports Ate_Api
begin

text \<open>
  File \<open>internal/backend/substrate.go\<close>: one actor of the substrate control plane per
  playwright-id, reached through the atenet router with a routing header.  Outside the program,
  and so arguments, are: the Control client (\<open>control\<close>), and in \<open>sub_env\<close> the gRPC status of an
  error, \<open>proto.Equal\<close>, the rendering of a status message, the HTTP probe, the clock and the
  \<open>select\<close> between the context and a timer.  The three polling loops need not end if the clock
  stands still or a server never stops paging; they are partial functions, whose value \<open>None\<close> is
  "never returns".
\<close>

section \<open>Constants and state\<close>

definition readyPollInterval :: duration where "readyPollInterval = 200 * Millisecond"
definition readyDeadline :: duration where "readyDeadline = 60 * Second"
definition upstreamReadyDeadline :: duration where "upstreamReadyDeadline = 30 * Second"
definition upstreamProbeInterval :: duration where "upstreamProbeInterval = 200 * Millisecond"

text \<open>The connection is represented by its target and the token file of its credentials.\<close>

record Substrate =
  sub_conn :: "string \<times> string option"
  actorTemplateNS :: string
  actorTemplateName :: string
  atenetRouterHost :: string
  atenetRouterPort :: int
  allowedHTTPHosts :: "string list"

text \<open>The gRPC codes the file compares with.\<close>

definition code_Unknown :: int where "code_Unknown = 2"
definition code_NotFound :: int where "code_NotFound = 5"
definition code_AlreadyExists :: int where "code_AlreadyExists = 6"
definition code_FailedPrecondition :: int where "code_FailedPrecondition = 9"

lemmas code_defs = code_Unknown_def code_NotFound_def code_AlreadyExists_def code_FailedPrecondition_def

record 'w sub_env =
  fromError :: "err \<Rightarrow> int option"
  ruleEqual :: "EgressRule \<Rightarrow> EgressRule \<Rightarrow> bool"
  statusString :: "ActorStatus option \<Rightarrow> string"
  newRequest :: "string \<Rightarrow> err option"
  probeDo :: "string \<Rightarrow> string \<Rightarrow> ('w, int result) io"
  sclock :: "'w \<Rightarrow> instant"
  after :: "duration \<Rightarrow> ('w, err option) io"

text \<open>The code of an error: \<open>codes.Unknown\<close> if it carries no status.\<close>

definition status_Code :: "'w sub_env \<Rightarrow> err \<Rightarrow> int" where
  "status_Code env e = (case fromError env e of Some c \<Rightarrow> c | None \<Rightarrow> code_Unknown)"

section \<open>Construction\<close>

datatype sub_config_error =
    ForceBootUnsupported
  | ApiEndpointRequired
  | RouterAddrForm string
  | RouterPort num_error
  | TemplateForm string
  | TokenStat err
  | DialFailed err

text \<open>What the constructor reads of the process: \<open>SUBSTRATE_TOKEN_FILE\<close>, the file system, gRPC.\<close>

record sub_host =
  tokenFileEnv :: string
  os_Stat :: "string \<Rightarrow> err option"
  os_IsNotExist :: "err \<Rightarrow> bool"
  grpc_NewClient :: "string \<Rightarrow> string option \<Rightarrow> err option"

definition default_token_file :: string where
  "default_token_file = ''/var/run/secrets/kubernetes.io/serviceaccount/token''"

definition token_option :: "sub_host \<Rightarrow> sub_config_error + string option" where
  "token_option h =
     (let configured = tokenFileEnv h;
          tokenFile = (if configured \<noteq> [] then configured else default_token_file)
      in case os_Stat h tokenFile of
           None \<Rightarrow> Inr (Some tokenFile)
         | Some e \<Rightarrow>
             if configured \<noteq> [] \<or> \<not> os_IsNotExist h e then Inl (TokenStat e) else Inr None)"

definition NewSubstrateWithOptions ::
  "sub_host \<Rightarrow> string \<Rightarrow> string \<Rightarrow> string \<Rightarrow> bool \<Rightarrow> string list \<Rightarrow> sub_config_error + Substrate" where
  "NewSubstrateWithOptions h apiEndpoint routerAddr templateRef forceBoot hosts =
     (if forceBoot then Inl ForceBootUnsupported
      else if apiEndpoint = [] then Inl ApiEndpointRequired
      else case strings_Cut routerAddr (CHR '':'') of (host, portStr, ok) \<Rightarrow>
        if \<not> ok then Inl (RouterAddrForm routerAddr)
        else (case strconv_Atoi portStr of
          Inl e \<Rightarrow> Inl (RouterPort e)
        | Inr port \<Rightarrow>
          (case strings_Cut templateRef (CHR ''/'') of (tns, tname, ok) \<Rightarrow>
             if \<not> ok \<or> tns = [] \<or> tname = [] \<or> strings_Contains tname ''/'' then Inl (TemplateForm templateRef)
             else (case token_option h of
               Inl e \<Rightarrow> Inl e
             | Inr tok \<Rightarrow>
               (case grpc_NewClient h apiEndpoint tok of
                  Some e \<Rightarrow> Inl (DialFailed e)
                | None \<Rightarrow> Inr \<lparr>sub_conn = (apiEndpoint, tok), actorTemplateNS = tns, actorTemplateName = tname,
                    atenetRouterHost = host, atenetRouterPort = port, allowedHTTPHosts = hosts\<rparr>)))))"

definition NewSubstrate :: "sub_host \<Rightarrow> string \<Rightarrow> string \<Rightarrow> string \<Rightarrow> sub_config_error + Substrate" where
  "NewSubstrate h apiEndpoint routerAddr templateRef =
     NewSubstrateWithOptions h apiEndpoint routerAddr templateRef False []"

text \<open>\<open>Close\<close>, which drops the error of closing the connection.\<close>

definition sub_Close :: "(string \<times> string option \<Rightarrow> ('w, err option) io) \<Rightarrow> Substrate \<Rightarrow> 'w \<Rightarrow> 'w" where
  "sub_Close close s w = snd (close (sub_conn s) w)"

text \<open>The per-call credentials.\<close>

definition GetRequestMetadata :: "(string \<Rightarrow> string result) \<Rightarrow> string \<Rightarrow> (string \<rightharpoonup> string) result" where
  "GetRequestMetadata readFile path =
     (case readFile path of
        Inl e \<Rightarrow> Inl (ErrWrap ''read service account token'' e)
      | Inr token \<Rightarrow>
          (let value = strings_TrimSpace token
           in if value = [] then Inl (ErrMsg ''service account token is empty'')
              else Inr [''authorization'' \<mapsto> ''Bearer '' @ value]))"

definition RequireTransportSecurity :: bool where
  "RequireTransportSecurity = True"

section \<open>Actors\<close>

definition actorID :: "string \<Rightarrow> string" where
  "actorID pid = ''pw-'' @ pid"

definition actorRef :: "Substrate \<Rightarrow> string \<Rightarrow> ObjectRef" where
  "actorRef s i = \<lparr>or_Atespace = actorTemplateNS s, or_Name = i\<rparr>"

definition target_actor :: "Substrate \<Rightarrow> string \<Rightarrow> string" where
  "target_actor s i = actorTemplateNS s @ ''/'' @ i"

definition sub_getOrCreate :: "'w sub_env \<Rightarrow> 'w control \<Rightarrow> Substrate \<Rightarrow> string \<Rightarrow> ('w, Actor result) io" where
  "sub_getOrCreate env ctl s i w =
     (case cGetActor ctl \<lparr>gar_Actor = Some (actorRef s i)\<rparr> w of
        (Inr resp, w1) \<Rightarrow> (Inr resp, w1)
      | (Inl e, w1) \<Rightarrow>
          if status_Code env e \<noteq> code_NotFound then (Inl (ErrWrap (''GetActor '' @ i) e), w1)
          else
            (case cCreateActor ctl \<lparr>car_Actor = Some \<lparr>
                 a_Metadata = Some \<lparr>rm_Atespace = actorTemplateNS s, rm_Name = i\<rparr>,
                 a_ActorTemplate = Some (actorRef s (actorTemplateName s)), a_Status = None\<rparr>\<rparr> w1 of
               (Inr resp, w2) \<Rightarrow> (Inr resp, w2)
             | (Inl e2, w2) \<Rightarrow>
                 if status_Code env e2 = code_AlreadyExists then
                   (case cGetActor ctl \<lparr>gar_Actor = Some (actorRef s i)\<rparr> w2 of
                      (Inl e3, w3) \<Rightarrow> (Inl (ErrWrap (''re-GetActor '' @ i @ '' after AlreadyExists'') e3), w3)
                    | (Inr resp, w3) \<Rightarrow> (Inr resp, w3))
                 else (Inl (ErrWrap (''CreateActor '' @ i) e2), w2)))"

definition egress_rule :: "Substrate \<Rightarrow> EgressRule" where
  "egress_rule s = \<lparr>er_Http = Some \<lparr>hr_Hostnames = allowedHTTPHosts s,
       hr_Ports = Some \<lparr>p_All = False, p_Numbers = [80]\<rparr>, hr_hasEffects = False\<rparr>,
     er_hasHttps = False, er_hasTlsPassthrough = False\<rparr>"

definition default_policy :: "Substrate \<Rightarrow> EgressPolicy" where
  "default_policy s = \<lparr>ep_Metadata = Some \<lparr>rm_Atespace = actorTemplateNS s, rm_Name = ''default''\<rparr>,
     ep_Rules = [egress_rule s]\<rparr>"

text \<open>Get, create on \<open>NotFound\<close>, get again on \<open>AlreadyExists\<close>.\<close>

definition fetch_policy :: "'w sub_env \<Rightarrow> 'w control \<Rightarrow> Substrate \<Rightarrow> string \<Rightarrow> ('w, EgressPolicy result) io" where
  "fetch_policy env ctl s i w =
     (let request = \<lparr>gepr_Actor = Some (actorRef s i), gepr_Name = ''default''\<rparr>
      in case cGetActorEgressPolicy ctl request w of
           (Inr p, w1) \<Rightarrow> (Inr p, w1)
         | (Inl e, w1) \<Rightarrow>
             if status_Code env e = code_NotFound then
               (case cCreateActorEgressPolicy ctl
                    \<lparr>cepr_Actor = Some (actorRef s i), cepr_EgressPolicy = Some (default_policy s)\<rparr> w1 of
                  (Inr p, w2) \<Rightarrow> (Inr p, w2)
                | (Inl e2, w2) \<Rightarrow>
                    if status_Code env e2 = code_AlreadyExists then cGetActorEgressPolicy ctl request w2
                    else (Inl e2, w2))
             else (Inl e, w1))"

definition ensureEgressPolicy :: "'w sub_env \<Rightarrow> 'w control \<Rightarrow> Substrate \<Rightarrow> string \<Rightarrow> ('w, err option) io" where
  "ensureEgressPolicy env ctl s i w =
     (if length (allowedHTTPHosts s) = 0 then (None, w)
      else case fetch_policy env ctl s i w of
        (Inl e, w1) \<Rightarrow> (Some (ErrWrap (''egress policy for actor '' @ i) e), w1)
      | (Inr policy, w1) \<Rightarrow>
          if length (EgressPolicy_GetRules (Some policy)) \<noteq> 1 \<or>
             \<not> ruleEqual env (EgressPolicy_GetRules (Some policy) ! 0) (egress_rule s)
          then (Some (ErrMsg (''actor '' @ i @
                  '' default egress policy differs from SUBSTRATE_ALLOWED_HTTP_HOSTS; reconcile it explicitly'')), w1)
          else (None, w1))"

section \<open>Waiting\<close>

text \<open>
  The \<open>SUSPENDED\<close> case: resume once.  The result is the error to return, if any, and the new
  value of \<open>resumed\<close>.
\<close>

definition resume_once ::
  "'w sub_env \<Rightarrow> 'w control \<Rightarrow> Substrate \<Rightarrow> string \<Rightarrow> bool \<Rightarrow> ActorState \<Rightarrow> ('w, err option \<times> bool) io" where
  "resume_once env ctl s i resumed st w =
     (if st = ACTOR_STATE_SUSPENDED \<and> \<not> resumed then
        (case cResumeActor ctl \<lparr>rar_Actor = Some (actorRef s i)\<rparr> w of
           (None, w1) \<Rightarrow> ((None, True), w1)
         | (Some e, w1) \<Rightarrow>
             if status_Code env e \<noteq> code_FailedPrecondition
             then ((Some (ErrWrap (''ResumeActor '' @ i) e), resumed), w1)
             else ((None, True), w1))
      else ((None, resumed), w))"

definition crashed_err :: "string \<Rightarrow> Actor \<Rightarrow> err" where
  "crashed_err i actor =
     ErrMsg (''actor '' @ i @ '' entered '' @ ActorState_String (actor_state actor) @ '': '' @
       ActorCrash_GetMessage (ActorStatus_GetCrash (Actor_GetStatus (Some actor))))"

definition not_running_err :: "'w sub_env \<Rightarrow> string \<Rightarrow> Actor \<Rightarrow> err" where
  "not_running_err env i actor =
     ErrMsg (''actor '' @ i @ '' did not reach ACTOR_STATE_RUNNING within 1m0s (last='' @
       statusString env (Actor_GetStatus (Some actor)) @ '')'')"

partial_function (option) running_loop ::
  "'w sub_env \<Rightarrow> 'w control \<Rightarrow> Substrate \<Rightarrow> string \<Rightarrow> instant \<Rightarrow> bool \<Rightarrow> Actor \<Rightarrow> 'w \<Rightarrow> ((Actor \<times> err option) \<times> 'w) option" where
  "running_loop env ctl s i deadline resumed actor w =
     (let st = actor_state actor
      in if st = ACTOR_STATE_RUNNING then Some ((actor, None), w)
         else if st = ACTOR_STATE_CRASHED \<or> st = ACTOR_STATE_DELETING then
           Some ((actor, Some (crashed_err i actor)), w)
         else (case resume_once env ctl s i resumed st w of
           ((Some e, _), w1) \<Rightarrow> Some ((actor, Some e), w1)
         | ((None, resumed1), w1) \<Rightarrow>
             if sclock env w1 > deadline then
               Some ((actor, Some (not_running_err env i actor)), w1)
             else (case after env readyPollInterval w1 of
               (Some e, w2) \<Rightarrow> Some ((actor, Some e), w2)
             | (None, w2) \<Rightarrow>
                 (case cGetActor ctl \<lparr>gar_Actor = Some (actorRef s i)\<rparr> w2 of
                    (Inl e, w3) \<Rightarrow> Some ((actor, Some (ErrWrap (''GetActor '' @ i @ '' during wait'') e)), w3)
                  | (Inr resp, w3) \<Rightarrow> running_loop env ctl s i deadline resumed1 resp w3))))"

definition waitForRunning ::
  "'w sub_env \<Rightarrow> 'w control \<Rightarrow> Substrate \<Rightarrow> string \<Rightarrow> Actor \<Rightarrow> 'w \<Rightarrow> ((Actor \<times> err option) \<times> 'w) option" where
  "waitForRunning env ctl s i actor w = running_loop env ctl s i (sclock env w + readyDeadline) False actor w"

definition probe_url :: "Substrate \<Rightarrow> string" where
  "probe_url s = ''http://'' @ host_port (atenetRouterHost s) (atenetRouterPort s) @ ''/''"

definition probe_ok :: "int \<Rightarrow> bool" where
  "probe_ok code \<longleftrightarrow> code \<ge> 200 \<and> code < 500 \<and> code \<noteq> 421 \<and> code \<noteq> 401 \<and> code \<noteq> 403"

definition not_ready_err :: "string \<Rightarrow> int \<Rightarrow> err" where
  "not_ready_err i attempt =
     ErrMsg (''substrate actor '' @ i @ '' upstream not ready after 30s ('' @ strconv_Itoa attempt @ '' attempts)'')"

partial_function (option) upstream_loop ::
  "'w sub_env \<Rightarrow> Substrate \<Rightarrow> string \<Rightarrow> instant \<Rightarrow> int \<Rightarrow> 'w \<Rightarrow> (err option \<times> 'w) option" where
  "upstream_loop env s i deadline attempt w =
     (case newRequest env (probe_url s) of
        Some e \<Rightarrow> Some (Some (ErrWrap ''build probe req'' e), w)
      | None \<Rightarrow>
          (case probeDo env (probe_url s) (target_actor s i) w of
             (r, w1) \<Rightarrow>
               if (case r of Inr code \<Rightarrow> probe_ok code | Inl _ \<Rightarrow> False) then Some (None, w1)
               else if sclock env w1 > deadline then
                 Some (Some (not_ready_err i (attempt + 1)), w1)
               else (case after env upstreamProbeInterval w1 of
                 (Some e, w2) \<Rightarrow> Some (Some e, w2)
               | (None, w2) \<Rightarrow> upstream_loop env s i deadline (attempt + 1) w2)))"

definition waitUpstreamReady :: "'w sub_env \<Rightarrow> Substrate \<Rightarrow> string \<Rightarrow> 'w \<Rightarrow> (err option \<times> 'w) option" where
  "waitUpstreamReady env s i w = upstream_loop env s i (sclock env w + upstreamReadyDeadline) 0 w"

section \<open>The operations of the interface\<close>

definition sub_Ensure ::
  "'w sub_env \<Rightarrow> 'w control \<Rightarrow> Substrate \<Rightarrow> string \<Rightarrow> 'w \<Rightarrow> (Endpoint result \<times> 'w) option" where
  "sub_Ensure env ctl s pid w =
     (let i = actorID pid
      in case sub_getOrCreate env ctl s i w of
        (Inl e, w1) \<Rightarrow> Some (Inl e, w1)
      | (Inr actor, w1) \<Rightarrow>
          if ObjectRef_GetAtespace (Actor_GetActorTemplate (Some actor)) \<noteq> actorTemplateNS s \<or>
             ObjectRef_GetName (Actor_GetActorTemplate (Some actor)) \<noteq> actorTemplateName s
          then Some (Inl (ErrMsg (''actor '' @ i @ '' uses a different ActorTemplate; migrate or delete it explicitly'')), w1)
          else (case ensureEgressPolicy env ctl s i w1 of
            (Some e, w2) \<Rightarrow> Some (Inl e, w2)
          | (None, w2) \<Rightarrow>
              (case waitForRunning env ctl s i actor w2 of
                 None \<Rightarrow> None
               | Some ((_, Some e), w3) \<Rightarrow> Some (Inl e, w3)
               | Some ((_, None), w3) \<Rightarrow>
                   (case waitUpstreamReady env s i w3 of
                      None \<Rightarrow> None
                    | Some (Some e, w4) \<Rightarrow> Some (Inl e, w4)
                    | Some (None, w4) \<Rightarrow>
                        Some (Inr \<lparr>Host = atenetRouterHost s, TargetActor = target_actor s i,
                                   Port = atenetRouterPort s, MCPPort = 0\<rparr>, w4)))))"

text \<open>The second half of \<open>Delete\<close>, after the actor was suspended.\<close>

definition delete_actor :: "'w sub_env \<Rightarrow> 'w control \<Rightarrow> Substrate \<Rightarrow> string \<Rightarrow> ('w, err option) io" where
  "delete_actor env ctl s i w =
     (case cDeleteActor ctl \<lparr>dar_Actor = Some (actorRef s i), dar_AnyState = False\<rparr> w of
        (Inr _, w1) \<Rightarrow> (None, w1)
      | (Inl e, w1) \<Rightarrow>
          if status_Code env e \<noteq> code_NotFound then (Some (ErrWrap (''DeleteActor '' @ i) e), w1) else (None, w1))"

definition sub_Delete :: "'w sub_env \<Rightarrow> 'w control \<Rightarrow> Substrate \<Rightarrow> string \<Rightarrow> ('w, err option) io" where
  "sub_Delete env ctl s pid w =
     (let i = actorID pid
      in case cSuspendActor ctl \<lparr>sar_Actor = Some (actorRef s i)\<rparr> w of
           (None, w1) \<Rightarrow> delete_actor env ctl s i w1
         | (Some e, w1) \<Rightarrow>
             if status_Code env e \<noteq> code_NotFound \<and> status_Code env e \<noteq> code_FailedPrecondition
             then (Some (ErrWrap (''SuspendActor '' @ i) e), w1)
             else delete_actor env ctl s i w1)"

text \<open>The ids on one page, and the loop over the pages.\<close>

fun page_ids :: "Substrate \<Rightarrow> Actor list \<Rightarrow> string list" where
  "page_ids s [] = []"
| "page_ids s (a # as) =
     (if ObjectRef_GetAtespace (Actor_GetActorTemplate (Some a)) \<noteq> actorTemplateNS s \<or>
         ObjectRef_GetName (Actor_GetActorTemplate (Some a)) \<noteq> actorTemplateName s
      then page_ids s as
      else case strings_CutPrefix (ResourceMetadata_GetName (Actor_GetMetadata (Some a))) ''pw-'' of
        (pid, ok) \<Rightarrow> if ok then pid # page_ids s as else page_ids s as)"

partial_function (option) list_loop ::
  "'w control \<Rightarrow> Substrate \<Rightarrow> string list \<Rightarrow> string \<Rightarrow> 'w \<Rightarrow> (string list result \<times> 'w) option" where
  "list_loop ctl s ids pageToken w =
     (case cListActors ctl \<lparr>lar_Atespace = actorTemplateNS s,
          lar_Options = Some \<lparr>lo_PageSize = 500, lo_PageToken = pageToken\<rparr>\<rparr> w of
        (Inl e, w1) \<Rightarrow> Some (Inl (ErrWrap ''ListActors'' e), w1)
      | (Inr resp, w1) \<Rightarrow>
          (let ids1 = ids @ page_ids s (ListActorsResponse_GetActors (Some resp))
           in if ListActorsResponse_GetNextPageToken (Some resp) = [] then Some (Inr ids1, w1)
              else list_loop ctl s ids1 (ListActorsResponse_GetNextPageToken (Some resp)) w1))"

definition sub_List :: "'w control \<Rightarrow> Substrate \<Rightarrow> 'w \<Rightarrow> (string list result \<times> 'w) option" where
  "sub_List ctl s w = list_loop ctl s [] [] w"

text \<open>
  \<open>IsConflict\<close>.  \<open>errors.Is\<close> against a value that \<open>errors.New\<close> has just made compares pointers, so it
  is false for every error.
\<close>

definition errors_Is_fresh :: "err \<Rightarrow> bool" where
  "errors_Is_fresh e = False"

definition IsConflict :: "(err \<Rightarrow> int option) \<Rightarrow> err option \<Rightarrow> bool" where
  "IsConflict frm e =
     (case e of
        None \<Rightarrow> False
      | Some e \<Rightarrow> (case frm e of Some c \<Rightarrow> c = code_AlreadyExists | None \<Rightarrow> errors_Is_fresh e))"

section \<open>Interfaces\<close>

interpretation actor_name: resource_naming actorID
  by unfold_locales (simp add: actorID_def)

definition sub_results :: "'w sub_env \<Rightarrow> 'w control \<Rightarrow> Substrate \<Rightarrow> string \<Rightarrow> Endpoint result \<Rightarrow> bool" where
  "sub_results env ctl s pid r \<longleftrightarrow> (\<exists>w w'. sub_Ensure env ctl s pid w = Some (r, w'))"

definition sub_shape :: "Substrate \<Rightarrow> string \<Rightarrow> Endpoint \<Rightarrow> bool" where
  "sub_shape s pid ep \<longleftrightarrow> ep = \<lparr>Host = atenetRouterHost s, TargetActor = target_actor s (actorID pid),
     Port = atenetRouterPort s, MCPPort = 0\<rparr>"

lemma sub_Ensure_Inr:
  assumes "sub_Ensure env ctl s pid w = Some (Inr ep, w')"
  shows "sub_shape s pid ep"
    "\<exists>actor w1 w2 a w3. sub_getOrCreate env ctl s (actorID pid) w = (Inr actor, w1) \<and>
      uses_template (actorTemplateNS s) (actorTemplateName s) actor \<and>
      ensureEgressPolicy env ctl s (actorID pid) w1 = (None, w2) \<and>
      waitForRunning env ctl s (actorID pid) actor w2 = Some ((a, None), w3) \<and>
      waitUpstreamReady env s (actorID pid) w3 = Some (None, w')"
  using assms
  by (auto simp: sub_Ensure_def sub_shape_def uses_template_def Let_def
      split: prod.splits sum.splits option.splits if_splits)

interpretation sub_ep: endpoint_backend "sub_results env ctl s" "sub_shape s" for env ctl s
  by unfold_locales (auto simp: sub_results_def dest: sub_Ensure_Inr)

section \<open>What the loops establish\<close>

lemma running_loop_running:
  fixes env :: "'w sub_env"
  assumes "running_loop env ctl s i dl resumed actor w = Some ((a, None), w')"
  shows "actor_state a = ACTOR_STATE_RUNNING \<and>
    (a = actor \<or> (\<exists>w0. cGetActor ctl \<lparr>gar_Actor = Some (actorRef s i)\<rparr> w0 = (Inr a, w')))"
proof -
  let ?P = "\<lambda>(env :: 'w sub_env) (ctl :: 'w control) s i (dl :: instant) (resumed :: bool) actor (w :: 'w) y.
    snd (fst y) = (None :: err option) \<longrightarrow>
    actor_state (fst (fst y)) = ACTOR_STATE_RUNNING \<and>
    (fst (fst y) = actor \<and> snd y = w \<or>
      (\<exists>w0. cGetActor ctl \<lparr>gar_Actor = Some (actorRef s i)\<rparr> w0 = (Inr (fst (fst y)), snd y)))"
  have "?P env ctl s i dl resumed actor w ((a, None), w')"
    by (rule running_loop.raw_induct [OF _ assms, where P = ?P])
      (fastforce simp: Let_def split: if_splits prod.splits option.splits sum.splits)
  then show ?thesis by auto
qed

lemma upstream_loop_ready:
  fixes env :: "'w sub_env"
  assumes "upstream_loop env s i dl n w = Some (None, w')"
  shows "\<exists>w0 c. probeDo env (probe_url s) (target_actor s i) w0 = (Inr c, w') \<and> probe_ok c"
proof -
  let ?P = "\<lambda>(env :: 'w sub_env) s i (dl :: instant) (n :: int) (w :: 'w) y. fst y = (None :: err option) \<longrightarrow>
    (\<exists>w0 c. probeDo env (probe_url s) (target_actor s i) w0 = (Inr c, snd y) \<and> probe_ok c)"
  have "?P env s i dl n w (None, w')"
    by (rule upstream_loop.raw_induct [OF _ assms, where P = ?P])
      (fastforce split: if_splits prod.splits option.splits sum.splits)
  then show ?thesis by simp
qed

section \<open>The loops end\<close>

definition clock_ok :: "'w sub_env \<Rightarrow> 'w control \<Rightarrow> bool" where
  "clock_ok env ctl \<longleftrightarrow>
     (\<forall>d w w'. after env d w = (None, w') \<longrightarrow> sclock env w + d \<le> sclock env w') \<and>
     (\<forall>u t w. sclock env w \<le> sclock env (snd (probeDo env u t w))) \<and>
     (\<forall>r w. sclock env w \<le> sclock env (snd (cGetActor ctl r w))) \<and>
     (\<forall>r w. sclock env w \<le> sclock env (snd (cResumeActor ctl r w)))"

lemma upstream_loop_ends:
  assumes "clock_ok env ctl"
  shows "dl - sclock env w < int k * upstreamProbeInterval \<Longrightarrow> \<exists>r. upstream_loop env s i dl n w = Some r"
proof (induction k arbitrary: n w)
  case 0
  have "sclock env w \<le> sclock env (snd (probeDo env (probe_url s) (target_actor s i) w))"
    using assms by (auto simp: clock_ok_def)
  with 0 show ?case
    by (subst upstream_loop.simps) (auto split: option.splits prod.splits sum.splits)
next
  case (Suc k)
  obtain r w1 where p: "probeDo env (probe_url s) (target_actor s i) w = (r, w1)" by fastforce
  have w1: "sclock env w \<le> sclock env w1" using assms p unfolding clock_ok_def by (metis snd_conv)
  obtain q w2 where a: "after env upstreamProbeInterval w1 = (q, w2)" by fastforce
  have "\<exists>r. upstream_loop env s i dl (n + 1) w2 = Some r" if "q = None"
  proof (rule Suc.IH)
    have "sclock env w1 + upstreamProbeInterval \<le> sclock env w2"
      using assms a that unfolding clock_ok_def by blast
    with w1 Suc.prems show "dl - sclock env w2 < int k * upstreamProbeInterval"
      by (simp add: algebra_simps)
  qed
  with p a show ?case
    by (subst upstream_loop.simps) (auto split: option.splits)
qed

lemma resume_once_clock:
  assumes "clock_ok env ctl" and "resume_once env ctl s i resumed st w = (r, w1)"
  shows "sclock env w \<le> sclock env w1"
proof -
  have "sclock env w \<le> sclock env (snd (cResumeActor ctl \<lparr>rar_Actor = Some (actorRef s i)\<rparr> w))"
    using assms(1) by (simp add: clock_ok_def)
  then show ?thesis
    using assms(2) by (auto simp: resume_once_def split: if_splits prod.splits option.splits)
qed

lemma running_loop_ends:
  assumes "clock_ok env ctl"
  shows "dl - sclock env w < int k * readyPollInterval \<Longrightarrow>
    \<exists>r. running_loop env ctl s i dl resumed actor w = Some r"
proof (induction k arbitrary: resumed actor w)
  case 0
  then have "dl < sclock env w1" if "resume_once env ctl s i resumed st w = (r, w1)" for r st w1
    using resume_once_clock [OF assms that] by simp
  then show ?case
    by (subst running_loop.simps) (auto simp: Let_def split: option.splits prod.splits)
next
  case (Suc k)
  have "\<exists>r. running_loop env ctl s i dl b resp w3 = Some r"
    if "resume_once env ctl s i resumed st w = (q, w1)" "after env readyPollInterval w1 = (None, w2)"
      "cGetActor ctl rq w2 = (Inr resp, w3)" for st q w1 w2 w3 resp rq b
  proof (rule Suc.IH)
    have "sclock env w1 + readyPollInterval \<le> sclock env w2" "sclock env w2 \<le> sclock env w3"
      using assms that(2,3) unfolding clock_ok_def by (blast, metis snd_conv)
    with resume_once_clock [OF assms that(1)] Suc.prems
    show "dl - sclock env w3 < int k * readyPollInterval" by (simp add: algebra_simps)
  qed
  then show ?case
    by (subst running_loop.simps) (auto simp: Let_def split: option.splits prod.splits sum.splits)
qed

lemma sub_Ensure_None:
  assumes "sub_Ensure env ctl s pid w = None"
  shows "(\<exists>i a w. waitForRunning env ctl s i a w = None) \<or> (\<exists>i w. waitUpstreamReady env s i w = None)"
  using assms
  by (auto simp: sub_Ensure_def Let_def split: prod.splits sum.splits option.splits if_splits)

text \<open>
  C24.  \<open>Ensure\<close> of the substrate backend always returns: if waiting on a timer of length \<open>d\<close> lets at
  least \<open>d\<close> pass and no call turns the clock back, both polling loops run into their deadlines at
  the latest, whatever the control plane and the router answer.
\<close>

theorem substrate_Ensure_returns:
  assumes "clock_ok env ctl"
  shows "\<exists>r w'. sub_Ensure env ctl s pid w = Some (r, w')"
proof -
  have r: "\<exists>r. waitForRunning env ctl s i actor w2 = Some r" for i actor w2
    unfolding waitForRunning_def
    by (rule running_loop_ends [OF assms, where k = 301])
      (simp add: readyDeadline_def readyPollInterval_def duration_defs)
  have u: "\<exists>r. waitUpstreamReady env s i w3 = Some r" for i w3
    unfolding waitUpstreamReady_def
    by (rule upstream_loop_ends [OF assms, where k = 151])
      (simp add: upstreamReadyDeadline_def upstreamProbeInterval_def duration_defs)
  have "sub_Ensure env ctl s pid w \<noteq> None"
    using r u sub_Ensure_None [of env ctl s pid w] by (metis option.distinct(1))
  then show ?thesis by auto
qed

text \<open>A world that is a clock, with an actor that is running and a router that answers.\<close>

definition running_actor :: "string \<Rightarrow> string \<Rightarrow> string \<Rightarrow> Actor" where
  "running_actor ns tmpl n = \<lparr>a_Metadata = Some \<lparr>rm_Atespace = ns, rm_Name = n\<rparr>,
     a_ActorTemplate = Some \<lparr>or_Atespace = ns, or_Name = tmpl\<rparr>,
     a_Status = Some \<lparr>as_State = ACTOR_STATE_RUNNING, as_Crash = None\<rparr>\<rparr>"

definition sub_example :: Substrate where
  "sub_example = \<lparr>sub_conn = (''api:443'', None), actorTemplateNS = ''pw'', actorTemplateName = ''browser'',
     atenetRouterHost = ''router'', atenetRouterPort = 80, allowedHTTPHosts = []\<rparr>"

definition env_demo :: "instant sub_env" where
  "env_demo = \<lparr>fromError = (\<lambda>e. case e of ErrStatus c \<Rightarrow> Some c | _ \<Rightarrow> None), ruleEqual = (=),
     statusString = (\<lambda>_. []), newRequest = (\<lambda>_. None), probeDo = (\<lambda>u t w. (Inr 404, w + 1)),
     sclock = (\<lambda>w. w), after = (\<lambda>d w. (None, w + d))\<rparr>"

definition ctl_demo :: "instant control" where
  "ctl_demo = \<lparr>cGetActor = (\<lambda>r w. (Inr (running_actor ''pw'' ''browser'' ''pw-alpha''), w + 1)),
     cCreateActor = (\<lambda>r w. (Inl (ErrStatus 6), w)), cSuspendActor = (\<lambda>r w. (None, w)),
     cResumeActor = (\<lambda>r w. (None, w)), cDeleteActor = (\<lambda>r w. (Inl (ErrStatus 5), w)),
     cGetActorEgressPolicy = (\<lambda>r w. (Inl (ErrStatus 5), w)),
     cCreateActorEgressPolicy = (\<lambda>r w. (Inl (ErrStatus 5), w)),
     cListActors = (\<lambda>r w. (Inr \<lparr>lresp_Actors = [running_actor ''pw'' ''browser'' ''pw-alpha''],
        lresp_NextPageToken = []\<rparr>, w))\<rparr>"

lemmas demo_defs = sub_example_def env_demo_def ctl_demo_def running_actor_def

lemma clock_ok_demo: "clock_ok env_demo ctl_demo"
  by (simp add: clock_ok_def env_demo_def ctl_demo_def)

theorem substrate_Ensure_returns_witness:
  "\<exists>r w'. sub_Ensure env_demo (ctl_demo\<lparr>cGetActor := \<lambda>r w. (Inl (ErrStatus 14), w)\<rparr>) sub_example ''alpha'' 0
     = Some (r, w')"
  by (rule substrate_Ensure_returns) (simp add: clock_ok_def env_demo_def ctl_demo_def)

section \<open>What a successful Ensure has checked\<close>

lemma fetch_policy_source:
  assumes "fetch_policy env ctl s i w = (Inr p, w')"
  shows "(\<exists>w0. cGetActorEgressPolicy ctl \<lparr>gepr_Actor = Some (actorRef s i), gepr_Name = ''default''\<rparr> w0 = (Inr p, w')) \<or>
    (\<exists>w0. cCreateActorEgressPolicy ctl
       \<lparr>cepr_Actor = Some (actorRef s i), cepr_EgressPolicy = Some (default_policy s)\<rparr> w0 = (Inr p, w'))"
  using assms by (auto simp: fetch_policy_def Let_def split: prod.splits sum.splits if_splits)

lemma ensureEgressPolicy_None:
  assumes "ensureEgressPolicy env ctl s i w = (None, w')" and "allowedHTTPHosts s \<noteq> []"
  shows "\<exists>p r. fetch_policy env ctl s i w = (Inr p, w') \<and> ep_Rules p = [r] \<and> ruleEqual env r (egress_rule s)"
proof -
  from assms obtain p where f: "fetch_policy env ctl s i w = (Inr p, w')"
    and l: "length (ep_Rules p) = 1" "ruleEqual env (ep_Rules p ! 0) (egress_rule s)"
    by (auto simp: ensureEgressPolicy_def getter_defs split: prod.splits sum.splits if_splits)
  from l(1) obtain r where "ep_Rules p = [r]" by (auto simp: length_Suc_conv)
  with f l(2) show ?thesis by auto
qed

text \<open>
  C25.  A successful \<open>Ensure\<close> of the substrate backend checked everything it relies on: the endpoint
  is the router with the target actor of that very id; the actor uses the configured template; if
  hosts are configured, the actor's default egress policy consists of exactly the rule for them;
  the actor was seen in state \<open>RUNNING\<close>; and last of all the router answered a probe for that
  target actor with an application response.
\<close>

theorem substrate_Ensure_checked:
  assumes "sub_Ensure env ctl s pid w = Some (Inr ep, w')"
  shows "ep = \<lparr>Host = atenetRouterHost s, TargetActor = actorTemplateNS s @ ''/pw-'' @ pid,
        Port = atenetRouterPort s, MCPPort = 0\<rparr> \<and>
    (\<exists>actor w1 a. sub_getOrCreate env ctl s (''pw-'' @ pid) w = (Inr actor, w1) \<and>
        uses_template (actorTemplateNS s) (actorTemplateName s) actor \<and>
        actor_state a = ACTOR_STATE_RUNNING \<and>
        (a = actor \<or> (\<exists>wa wb. cGetActor ctl \<lparr>gar_Actor = Some (actorRef s (''pw-'' @ pid))\<rparr> wa = (Inr a, wb)))) \<and>
    (allowedHTTPHosts s \<noteq> [] \<longrightarrow>
       (\<exists>wa wb p r. fetch_policy env ctl s (''pw-'' @ pid) wa = (Inr p, wb) \<and>
          ep_Rules p = [r] \<and> ruleEqual env r (egress_rule s))) \<and>
    (\<exists>wa c. probeDo env (probe_url s) (TargetActor ep) wa = (Inr c, w') \<and> probe_ok c)"
proof -
  from sub_Ensure_Inr(2) [OF assms] obtain actor w1 w2 a w3 where
    g: "sub_getOrCreate env ctl s (actorID pid) w = (Inr actor, w1)"
      "uses_template (actorTemplateNS s) (actorTemplateName s) actor"
    and e: "ensureEgressPolicy env ctl s (actorID pid) w1 = (None, w2)"
    and r: "waitForRunning env ctl s (actorID pid) actor w2 = Some ((a, None), w3)"
    and u: "waitUpstreamReady env s (actorID pid) w3 = Some (None, w')" by blast
  have ep: "ep = \<lparr>Host = atenetRouterHost s, TargetActor = actorTemplateNS s @ ''/pw-'' @ pid,
        Port = atenetRouterPort s, MCPPort = 0\<rparr>"
    using sub_Ensure_Inr(1) [OF assms] by (simp add: sub_shape_def target_actor_def actorID_def)
  have t: "TargetActor ep = target_actor s (actorID pid)" by (simp add: ep target_actor_def actorID_def)
  have st: "actor_state a = ACTOR_STATE_RUNNING \<and>
      (a = actor \<or> (\<exists>wa wb. cGetActor ctl \<lparr>gar_Actor = Some (actorRef s (actorID pid))\<rparr> wa = (Inr a, wb)))"
    using running_loop_running [OF r [unfolded waitForRunning_def]] by blast
  have pol: "allowedHTTPHosts s \<noteq> [] \<longrightarrow> (\<exists>wa wb p r. fetch_policy env ctl s (actorID pid) wa = (Inr p, wb) \<and>
      ep_Rules p = [r] \<and> ruleEqual env r (egress_rule s))"
    using ensureEgressPolicy_None [OF e] by blast
  have "\<exists>wa c. probeDo env (probe_url s) (TargetActor ep) wa = (Inr c, w') \<and> probe_ok c"
    unfolding t by (rule upstream_loop_ready [OF u [unfolded waitUpstreamReady_def]])
  with g st pol ep show ?thesis unfolding actorID_def by blast
qed

lemma sub_Ensure_demo:
  "sub_Ensure env_demo ctl_demo sub_example ''alpha'' 0 =
     Some (Inr \<lparr>Host = ''router'', TargetActor = ''pw/pw-alpha'', Port = 80, MCPPort = 0\<rparr>, 2)"
  by (simp add: sub_Ensure_def sub_getOrCreate_def ensureEgressPolicy_def waitForRunning_def
      waitUpstreamReady_def running_loop.simps upstream_loop.simps demo_defs getter_defs actor_state_def
      probe_ok_def target_actor_def actorID_def)

theorem substrate_Ensure_checked_witness:
  "\<exists>wa c. probeDo env_demo (probe_url sub_example) ''pw/pw-alpha'' wa = (Inr c, 2) \<and> probe_ok c"
  using substrate_Ensure_checked [OF sub_Ensure_demo] by simp

end
