(* ===== verification/Substrate_Props.thy ===== *)
theory Substrate_Props
  imports Substrate
begin

text \<open>
  Further properties of the substrate backend: it resumes an actor at most once per wait, its
  listing follows the pages to the end and filters by template and name, and it never replaces an
  egress policy.
\<close>

section \<open>Induction over the loops\<close>

text \<open>
  A relation between a state of the loop and the world it ends in: it holds of the world itself,
  of the worlds after each call of a round, and is carried back over a whole round.
\<close>

lemma running_loop_rel:
  fixes env :: "'w sub_env" and R :: "bool \<Rightarrow> 'w \<Rightarrow> 'w \<Rightarrow> bool"
  assumes "running_loop env ctl s i dl resumed actor w = Some (y, w')"
    and refl: "\<And>b w. R b w w"
    and resume: "\<And>b st e b1 w w1. resume_once env ctl s i b st w = ((e, b1), w1) \<Longrightarrow> R b w w1"
    and pause: "\<And>b st b1 w w1 q w2. resume_once env ctl s i b st w = ((None, b1), w1) \<Longrightarrow>
      after env readyPollInterval w1 = (q, w2) \<Longrightarrow> R b w w2"
    and round: "\<And>b st b1 w w1 q w2 g w3 w'. resume_once env ctl s i b st w = ((None, b1), w1) \<Longrightarrow>
      after env readyPollInterval w1 = (q, w2) \<Longrightarrow>
      cGetActor ctl \<lparr>gar_Actor = Some (actorRef s i)\<rparr> w2 = (g, w3) \<Longrightarrow> R b1 w3 w' \<Longrightarrow> R b w w'"
  shows "R resumed w w'"
proof -
  let ?P = "\<lambda>(env' :: 'w sub_env) (ctl' :: 'w control) (s' :: Substrate) (i' :: string) (dl' :: instant) (b :: bool)
    (actor :: Actor) (w :: 'w) (y :: (Actor \<times> err option) \<times> 'w).
    env' = env \<and> ctl' = ctl \<and> s' = s \<and> i' = i \<longrightarrow> R b w (snd y)"
  have "?P env ctl s i dl resumed actor w (y, w')"
  proof (rule running_loop.raw_induct [OF _ assms(1), where P = ?P], intro impI, elim conjE, goal_cases)
    case (1 rl env' ctl' s' i' dl' b actor w y)
    obtain e b1 w1 where ro: "resume_once env ctl s i b (actor_state actor) w = ((e, b1), w1)"
      by (metis prod.collapse)
    obtain q w2 where a: "after env readyPollInterval w1 = (q, w2)" by fastforce
    obtain g w3 where ga: "cGetActor ctl \<lparr>gar_Actor = Some (actorRef s i)\<rparr> w2 = (g, w3)" by fastforce
    from 1(2-) consider "snd y = w" | "snd y = w1" | "e = None" "snd y = w2" | "e = None" "snd y = w3"
      | resp where "e = None" "rl env ctl s i dl' b1 resp w3 = Some y"
      by (auto simp: Let_def ro a ga split: if_splits option.splits sum.splits)
    then show ?case
    proof cases
      case 4
      with round [OF _ a ga refl] ro show ?thesis by simp
    next
      case (5 resp)
      with 1(1) [of env ctl s i dl' b1 resp w3 y] round [OF _ a ga] ro show ?thesis by simp
    qed (use refl resume [OF ro] pause [OF _ a] ro in simp_all)
  qed
  then show ?thesis by simp
qed

lemma upstream_loop_rel:
  fixes env :: "'w sub_env" and R :: "'w \<Rightarrow> 'w \<Rightarrow> bool"
  assumes "upstream_loop env s i dl k w = Some (y, w')"
    and refl: "\<And>w. R w w" and trans: "\<And>w w1 w2. R w w1 \<Longrightarrow> R w1 w2 \<Longrightarrow> R w w2"
    and probe: "\<And>w x w1. probeDo env (probe_url s) (target_actor s i) w = (x, w1) \<Longrightarrow> R w w1"
    and pause: "\<And>w q w1. after env upstreamProbeInterval w = (q, w1) \<Longrightarrow> R w w1"
  shows "R w w'"
proof -
  let ?P = "\<lambda>(env' :: 'w sub_env) (s' :: Substrate) (i' :: string) (dl' :: instant) (k' :: int) (w :: 'w) (y :: err option \<times> 'w).
    env' = env \<and> s' = s \<and> i' = i \<longrightarrow> R w (snd y)"
  have "?P env s i dl k w (y, w')"
  proof (rule upstream_loop.raw_induct [OF _ assms(1), where P = ?P], intro impI, elim conjE, goal_cases)
    case (1 ul env' s' i' dl' k' w y)
    obtain r w1 where p: "probeDo env (probe_url s) (target_actor s i) w = (r, w1)" by fastforce
    obtain q w2 where a: "after env upstreamProbeInterval w1 = (q, w2)" by fastforce
    note through = probe [OF p] trans [OF probe [OF p] pause [OF a]]
    from 1(2-) consider "snd y = w" | "snd y = w1" | "snd y = w2" | "ul env s i dl' (k' + 1) w2 = Some y"
      by (auto simp: p a split: if_splits option.splits)
    then show ?case
    proof cases
      case 4
      with 1(1) have "R w2 (snd y)" by blast
      with through(2) show ?thesis by (rule trans)
    qed (use through refl in simp_all)
  qed
  then show ?thesis by simp
qed

section \<open>One resume per wait\<close>

text \<open>
  A way to count calls of \<open>ResumeActor\<close>: \<open>cnt\<close> reads a counter in the world that this call
  increments and the other steps of the loop leave alone.
\<close>

definition counts_resumes :: "('w \<Rightarrow> nat) \<Rightarrow> 'w sub_env \<Rightarrow> 'w control \<Rightarrow> bool" where
  "counts_resumes cnt env ctl \<longleftrightarrow>
     (\<forall>r w. cnt (snd (cResumeActor ctl r w)) = cnt w + 1) \<and>
     (\<forall>r w. cnt (snd (cGetActor ctl r w)) = cnt w) \<and>
     (\<forall>d w. cnt (snd (after env d w)) = cnt w)"

lemma resume_once_count_le:
  assumes "counts_resumes cnt env ctl" and "resume_once env ctl s i resumed st w = ((e, resumed1), w1)"
  shows "cnt w1 \<le> cnt w + (if resumed then 0 else 1)"
    "e = None \<Longrightarrow> cnt w1 + (if resumed1 then 0 else 1) \<le> cnt w + (if resumed then 0 else 1)"
proof -
  have "cnt (snd (cResumeActor ctl \<lparr>rar_Actor = Some (actorRef s i)\<rparr> w)) = cnt w + 1"
    using assms(1) by (simp add: counts_resumes_def)
  then show "cnt w1 \<le> cnt w + (if resumed then 0 else 1)"
    "e = None \<Longrightarrow> cnt w1 + (if resumed1 then 0 else 1) \<le> cnt w + (if resumed then 0 else 1)"
    using assms(2) by (auto simp: resume_once_def split: if_splits prod.splits option.splits)
qed

lemma running_loop_resumes:
  assumes c: "counts_resumes cnt env ctl" and "running_loop env ctl s i dl resumed actor w = Some (y, w')"
  shows "cnt w' \<le> cnt w + (if resumed then 0 else 1)"
proof (rule running_loop_rel [where R = "\<lambda>b w w'. cnt w' \<le> cnt w + (if b then 0 else 1)", OF assms(2)])
  have eq: "after env readyPollInterval w1 = (q, w2) \<Longrightarrow> cnt w2 = cnt w1"
    "cGetActor ctl r w2 = (g, w3) \<Longrightarrow> cnt w3 = cnt w2" for w1 q w2 r g w3
    using c unfolding counts_resumes_def by (metis snd_conv)+
  show "cnt w1 \<le> cnt w + (if b then 0 else 1)" if "resume_once env ctl s i b st w = ((e, b1), w1)" for b st e b1 w w1
    using resume_once_count_le(1) [OF c that] .
  show "cnt w2 \<le> cnt w + (if b then 0 else 1)" if "resume_once env ctl s i b st w = ((None, b1), w1)"
    "after env readyPollInterval w1 = (q, w2)" for b st b1 w w1 q w2
    using resume_once_count_le(1) [OF c that(1)] eq(1) [OF that(2)] by simp
  show "cnt w' \<le> cnt w + (if b then 0 else 1)" if "resume_once env ctl s i b st w = ((None, b1), w1)"
    "after env readyPollInterval w1 = (q, w2)" "cGetActor ctl \<lparr>gar_Actor = Some (actorRef s i)\<rparr> w2 = (g, w3)"
    "cnt w' \<le> cnt w3 + (if b1 then 0 else 1)" for b st b1 w w1 q w2 g w3 w'
    using resume_once_count_le(2) [OF c that(1) refl] eq(1) [OF that(2)] eq(2) [OF that(3)] that(4) by simp
qed simp

text \<open>
  C26.  While it waits, the substrate backend calls \<open>ResumeActor\<close> at most once, however often the
  actor is observed \<open>SUSPENDED\<close>; a refusal with \<open>FailedPrecondition\<close> counts as that one call.
\<close>

theorem substrate_resumes_at_most_once:
  assumes "counts_resumes cnt env ctl" and "waitForRunning env ctl s i actor w = Some (y, w')"
  shows "cnt w' \<le> cnt w + 1"
  using running_loop_resumes [OF assms(1) assms(2) [unfolded waitForRunning_def]] by simp

text \<open>A world with a clock and a counter, and an actor that never leaves \<open>SUSPENDED\<close>.\<close>

definition suspended_ctl :: "(instant \<times> nat) control" where
  "suspended_ctl = \<lparr>cGetActor = (\<lambda>r w. (Inr \<lparr>a_Metadata = None, a_ActorTemplate = None,
        a_Status = Some \<lparr>as_State = ACTOR_STATE_SUSPENDED, as_Crash = None\<rparr>\<rparr>, w)),
     cCreateActor = (\<lambda>r w. (Inl (ErrStatus 6), w)), cSuspendActor = (\<lambda>r w. (None, w)),
     cResumeActor = (\<lambda>r w. (Some (ErrStatus 9), (fst w, snd w + 1))), cDeleteActor = (\<lambda>r w. (Inl (ErrStatus 5), w)),
     cGetActorEgressPolicy = (\<lambda>r w. (Inl (ErrStatus 5), w)),
     cCreateActorEgressPolicy = (\<lambda>r w. (Inl (ErrStatus 5), w)),
     cListActors = (\<lambda>r w. (Inl (ErrStatus 5), w))\<rparr>"

definition counting_env :: "(instant \<times> nat) sub_env" where
  "counting_env = \<lparr>fromError = (\<lambda>e. case e of ErrStatus c \<Rightarrow> Some c | _ \<Rightarrow> None), ruleEqual = (=),
     statusString = (\<lambda>_. []), newRequest = (\<lambda>_. None), probeDo = (\<lambda>u t w. (Inr 404, w)),
     sclock = fst, after = (\<lambda>d w. (None, (fst w + d, snd w)))\<rparr>"

theorem substrate_resumes_at_most_once_witness:
  "\<exists>y w'. waitForRunning counting_env suspended_ctl sub_example ''pw-alpha''
      \<lparr>a_Metadata = None, a_ActorTemplate = None,
        a_Status = Some \<lparr>as_State = ACTOR_STATE_SUSPENDED, as_Crash = None\<rparr>\<rparr> (0, 0) = Some (y, w') \<and> snd w' \<le> 1"
proof -
  have k: "clock_ok counting_env suspended_ctl"
    by (auto simp: clock_ok_def counting_env_def suspended_ctl_def)
  have c: "counts_resumes snd counting_env suspended_ctl"
    by (auto simp: counts_resumes_def counting_env_def suspended_ctl_def)
  let ?a = "\<lparr>a_Metadata = None, a_ActorTemplate = None,
        a_Status = Some \<lparr>as_State = ACTOR_STATE_SUSPENDED, as_Crash = None\<rparr>\<rparr>"
  have "\<exists>r. waitForRunning counting_env suspended_ctl sub_example ''pw-alpha'' ?a (0, 0) = Some r"
    unfolding waitForRunning_def
    by (rule running_loop_ends [OF k, where k = 301])
      (simp add: readyDeadline_def readyPollInterval_def duration_defs)
  then obtain y w' where w: "waitForRunning counting_env suspended_ctl sub_example ''pw-alpha'' ?a (0, 0) = Some (y, w')"
    by auto
  from substrate_resumes_at_most_once [OF c w] w show ?thesis by auto
qed

section \<open>Listing\<close>

text \<open>A server that serves the given pages from a token on, ending in the world \<open>w'\<close>.\<close>

definition list_request :: "Substrate \<Rightarrow> string \<Rightarrow> ListActorsRequest" where
  "list_request s tok = \<lparr>lar_Atespace = actorTemplateNS s,
     lar_Options = Some \<lparr>lo_PageSize = 500, lo_PageToken = tok\<rparr>\<rparr>"

inductive serves :: "'w control \<Rightarrow> Substrate \<Rightarrow> string \<Rightarrow> 'w \<Rightarrow> Actor list list \<Rightarrow> 'w \<Rightarrow> bool"
  for ctl :: "'w control" and s :: Substrate where
  serves_last: "cListActors ctl (list_request s tok) w = (Inr \<lparr>lresp_Actors = p, lresp_NextPageToken = []\<rparr>, w') \<Longrightarrow>
     serves ctl s tok w [p] w'"
| serves_more: "cListActors ctl (list_request s tok) w = (Inr \<lparr>lresp_Actors = p, lresp_NextPageToken = tok1\<rparr>, w1) \<Longrightarrow>
     tok1 \<noteq> [] \<Longrightarrow> serves ctl s tok1 w1 ps w' \<Longrightarrow> serves ctl s tok w (p # ps) w'"

lemma list_loop_serves:
  "serves ctl s tok w ps w' \<Longrightarrow>
     list_loop ctl s ids tok w = Some (Inr (ids @ concat (map (page_ids s) ps)), w')"
proof (induction arbitrary: ids rule: serves.induct)
  case (serves_last tok w p w')
  then show ?case by (subst list_loop.simps) (simp add: getter_defs list_request_def)
next
  case (serves_more tok w p tok1 w1 ps w')
  then show ?case by (subst list_loop.simps) (simp add: getter_defs list_request_def)
qed

lemma cut_actorID: "strings_CutPrefix n ''pw-'' = (pid, True) \<longleftrightarrow> n = actorID pid"
  using CutPrefix_True [of n "''pw-''" pid] CutPrefix_append [of "''pw-''" pid] by (auto simp: actorID_def)

lemma set_page_ids:
  "pid \<in> set (page_ids s as) \<longleftrightarrow>
     (\<exists>a \<in> set as. uses_template (actorTemplateNS s) (actorTemplateName s) a \<and>
        ResourceMetadata_GetName (Actor_GetMetadata (Some a)) = actorID pid)"
proof (induction as)
  case (Cons a as)
  obtain q b where q: "strings_CutPrefix (ResourceMetadata_GetName (Actor_GetMetadata (Some a))) ''pw-'' = (q, b)"
    by fastforce
  have "b \<and> q = pid \<longleftrightarrow> ResourceMetadata_GetName (Actor_GetMetadata (Some a)) = actorID pid"
    using cut_actorID [of "ResourceMetadata_GetName (Actor_GetMetadata (Some a))" pid] q by auto
  with Cons q show ?case by (auto simp: uses_template_def)
qed simp

text \<open>
  C29.  \<open>List\<close> of the substrate backend returns once the server has served its last page, with
  exactly the ids whose actor, with the configured template and the name \<open>Ensure\<close> gives it, is on
  one of the pages: actors of other templates and with other names are left out, and no page is
  lost.
\<close>

theorem substrate_List_complete:
  assumes "serves ctl s [] w ps w'"
  shows "\<exists>ids. sub_List ctl s w = Some (Inr ids, w') \<and>
    (\<forall>pid. pid \<in> set ids \<longleftrightarrow>
       (\<exists>p \<in> set ps. \<exists>a \<in> set p. uses_template (actorTemplateNS s) (actorTemplateName s) a \<and>
          ResourceMetadata_GetName (Actor_GetMetadata (Some a)) = ''pw-'' @ pid))"
  using list_loop_serves [OF assms, of "[]"]
  by (auto simp: sub_List_def set_page_ids actorID_def)

text \<open>A server with two pages; the token is the number of the page.\<close>

definition paging_ctl :: "nat control" where
  "paging_ctl = \<lparr>cGetActor = (\<lambda>r w. (Inl (ErrStatus 5), w)), cCreateActor = (\<lambda>r w. (Inl (ErrStatus 5), w)),
     cSuspendActor = (\<lambda>r w. (None, w)), cResumeActor = (\<lambda>r w. (None, w)), cDeleteActor = (\<lambda>r w. (Inl (ErrStatus 5), w)),
     cGetActorEgressPolicy = (\<lambda>r w. (Inl (ErrStatus 5), w)), cCreateActorEgressPolicy = (\<lambda>r w. (Inl (ErrStatus 5), w)),
     cListActors = (\<lambda>r w. if lar_Options r = Some \<lparr>lo_PageSize = 500, lo_PageToken = []\<rparr>
       then (Inr \<lparr>lresp_Actors = [running_actor ''pw'' ''other'' ''pw-beta''], lresp_NextPageToken = ''2''\<rparr>, w + 1)
       else (Inr \<lparr>lresp_Actors = [running_actor ''pw'' ''browser'' ''pw-alpha''], lresp_NextPageToken = []\<rparr>, w + 1))\<rparr>"

lemma paging_serves:
  "serves paging_ctl sub_example [] 0
     [[running_actor ''pw'' ''other'' ''pw-beta''], [running_actor ''pw'' ''browser'' ''pw-alpha'']] 2"
proof -
  have "serves paging_ctl sub_example ''2'' 1 [[running_actor ''pw'' ''browser'' ''pw-alpha'']] 2"
    by (rule serves_last) (simp add: paging_ctl_def list_request_def)
  then show ?thesis
    by (rule serves_more [rotated 2]) (simp_all add: paging_ctl_def list_request_def)
qed

theorem substrate_List_complete_witness:
  "\<exists>ids. sub_List paging_ctl sub_example 0 = Some (Inr ids, 2) \<and> ''alpha'' \<in> set ids \<and> ''beta'' \<notin> set ids"
proof -
  from substrate_List_complete [OF paging_serves] obtain ids where
    l: "sub_List paging_ctl sub_example 0 = Some (Inr ids, 2)"
    and m: "pid \<in> set ids \<longleftrightarrow> (\<exists>p \<in> set [[running_actor ''pw'' ''other'' ''pw-beta''],
        [running_actor ''pw'' ''browser'' ''pw-alpha'']].
      \<exists>a \<in> set p. uses_template (actorTemplateNS sub_example) (actorTemplateName sub_example) a \<and>
        ResourceMetadata_GetName (Actor_GetMetadata (Some a)) = ''pw-'' @ pid)" for pid
    by blast
  have "''alpha'' \<in> set ids" "''beta'' \<notin> set ids"
    unfolding m by (simp_all add: uses_template_def getter_defs running_actor_def sub_example_def)
  with l show ?thesis by blast
qed

section \<open>Egress policies\<close>

text \<open>
  C27.  The backend never weakens or replaces an egress policy: with hosts configured,
  \<open>ensureEgressPolicy\<close> succeeds only on a policy that consists of the one rule for exactly these
  hosts and port 80 (where \<open>proto.Equal\<close> is equality); a policy that is already there is only
  read, and one that differs is reported as an error with no further call.
\<close>

theorem egress_policy_never_replaced:
  assumes "allowedHTTPHosts s \<noteq> []" and "\<forall>a b. ruleEqual env a b \<longleftrightarrow> a = b"
  shows "(\<forall>w'. ensureEgressPolicy env ctl s i w = (None, w') \<longrightarrow>
      (\<exists>p. fetch_policy env ctl s i w = (Inr p, w') \<and>
        ep_Rules p = [\<lparr>er_Http = Some \<lparr>hr_Hostnames = allowedHTTPHosts s,
          hr_Ports = Some \<lparr>p_All = False, p_Numbers = [80]\<rparr>, hr_hasEffects = False\<rparr>,
          er_hasHttps = False, er_hasTlsPassthrough = False\<rparr>])) \<and>
    (\<forall>p w1 create. cGetActorEgressPolicy ctl \<lparr>gepr_Actor = Some (actorRef s i), gepr_Name = ''default''\<rparr> w = (Inr p, w1) \<longrightarrow>
      snd (ensureEgressPolicy env (ctl\<lparr>cCreateActorEgressPolicy := create\<rparr>) s i w) = w1 \<and>
      (fst (ensureEgressPolicy env (ctl\<lparr>cCreateActorEgressPolicy := create\<rparr>) s i w) = None \<longleftrightarrow> ep_Rules p = [egress_rule s]))"
proof (rule conjI; intro allI impI)
  fix w' assume "ensureEgressPolicy env ctl s i w = (None, w')"
  from ensureEgressPolicy_None [OF this assms(1)] assms(2)
  show "\<exists>p. fetch_policy env ctl s i w = (Inr p, w') \<and>
        ep_Rules p = [\<lparr>er_Http = Some \<lparr>hr_Hostnames = allowedHTTPHosts s,
          hr_Ports = Some \<lparr>p_All = False, p_Numbers = [80]\<rparr>, hr_hasEffects = False\<rparr>,
          er_hasHttps = False, er_hasTlsPassthrough = False\<rparr>]"
    by (auto simp: egress_rule_def)
next
  fix p w1 create
  assume "cGetActorEgressPolicy ctl \<lparr>gepr_Actor = Some (actorRef s i), gepr_Name = ''default''\<rparr> w = (Inr p, w1)"
  then have "ensureEgressPolicy env (ctl\<lparr>cCreateActorEgressPolicy := create\<rparr>) s i w =
      (if length (ep_Rules p) \<noteq> 1 \<or> ep_Rules p ! 0 \<noteq> egress_rule s
       then (Some (ErrMsg (''actor '' @ i @
               '' default egress policy differs from SUBSTRATE_ALLOWED_HTTP_HOSTS; reconcile it explicitly'')), w1)
       else (None, w1))"
    using assms by (simp add: ensureEgressPolicy_def fetch_policy_def getter_defs)
  moreover have "length (ep_Rules p) = 1 \<and> ep_Rules p ! 0 = egress_rule s \<longleftrightarrow> ep_Rules p = [egress_rule s]"
    by (auto simp: length_Suc_conv)
  ultimately show "snd (ensureEgressPolicy env (ctl\<lparr>cCreateActorEgressPolicy := create\<rparr>) s i w) = w1 \<and>
      (fst (ensureEgressPolicy env (ctl\<lparr>cCreateActorEgressPolicy := create\<rparr>) s i w) = None \<longleftrightarrow> ep_Rules p = [egress_rule s])"
    by auto
qed

theorem egress_policy_never_replaced_witness:
  "fst (ensureEgressPolicy env_demo (ctl_demo\<lparr>cGetActorEgressPolicy := \<lambda>r w. (Inr \<lparr>ep_Metadata = None, ep_Rules = []\<rparr>, w)\<rparr>)
     (sub_example\<lparr>allowedHTTPHosts := [''example.com'']\<rparr>) ''pw-alpha'' 0) \<noteq> None"
proof -
  let ?s = "sub_example\<lparr>allowedHTTPHosts := [''example.com'']\<rparr>"
  let ?ctl = "ctl_demo\<lparr>cGetActorEgressPolicy := \<lambda>r w. (Inr \<lparr>ep_Metadata = None, ep_Rules = []\<rparr>, w)\<rparr>"
  have h: "allowedHTTPHosts ?s \<noteq> []" and e: "\<forall>a b. ruleEqual env_demo a b \<longleftrightarrow> a = b"
    by (simp_all add: env_demo_def)
  have g: "cGetActorEgressPolicy ?ctl r 0 = (Inr \<lparr>ep_Metadata = None, ep_Rules = []\<rparr>, 0)" for r
    by simp
  have "fst (ensureEgressPolicy env_demo (?ctl\<lparr>cCreateActorEgressPolicy := cCreateActorEgressPolicy ?ctl\<rparr>) ?s ''pw-alpha'' 0) \<noteq> None"
    using conjunct2 [OF egress_policy_never_replaced [OF h e, of ?ctl "''pw-alpha''" 0], rule_format, OF g,
        of "cCreateActorEgressPolicy ?ctl"]
    by simp
  then show ?thesis by simp
qed

end
