(* ===== verification/Go_Duration.thy ===== *)
theory Go_Duration
  imports Go_Lib
begin

text \<open>
  \<open>time.ParseDuration\<close>, which the configuration uses for its three durations.  Numbers are kept
  below \<open>2^63\<close> with the overflow checks of the standard library written out.  The conversion of a
  fraction, \<open>uint64(float64(f) * (float64(unit) / scale))\<close>, is floating point: it is an argument
  \<open>ff f unit k\<close> (with \<open>scale = 10^k\<close>), used only where the text has a decimal fraction.
\<close>

section \<open>Leading numbers\<close>

fun leadingInt :: "nat \<Rightarrow> string \<Rightarrow> (nat \<times> string) option" where
  "leadingInt x [] = Some (x, [])"
| "leadingInt x (c # s) =
     (if \<not> is_digit c then Some (x, c # s)
      else if x > 2 ^ 63 div 10 then None
      else if x * 10 + digit_val c > 2 ^ 63 then None
      else leadingInt (x * 10 + digit_val c) s)"

text \<open>The digits kept, the number of them, and what follows; digits that overflow are dropped.\<close>

fun leadingFraction :: "nat \<Rightarrow> nat \<Rightarrow> bool \<Rightarrow> string \<Rightarrow> nat \<times> nat \<times> string" where
  "leadingFraction x k overflow [] = (x, k, [])"
| "leadingFraction x k overflow (c # s) =
     (if \<not> is_digit c then (x, k, c # s)
      else if overflow \<or> x > (2 ^ 63 - 1) div 10 \<or> x * 10 + digit_val c > 2 ^ 63
      then leadingFraction x k True s
      else leadingFraction (x * 10 + digit_val c) (k + 1) False s)"

definition unit_char :: "char \<Rightarrow> bool" where
  "unit_char c \<longleftrightarrow> c \<noteq> CHR ''.'' \<and> \<not> is_digit c"

definition unitMap :: "string \<Rightarrow> nat option" where
  "unitMap u =
     (if u = ''ns'' then Some 1
      else if u = ''us'' \<or> u = [CHR 0xC2, CHR 0xB5, CHR ''s''] \<or> u = [CHR 0xCE, CHR 0xBC, CHR ''s''] then Some 1000
      else if u = ''ms'' then Some 1000000
      else if u = ''s'' then Some 1000000000
      else if u = ''m'' then Some 60000000000
      else if u = ''h'' then Some 3600000000000
      else None)"

lemma leadingInt_length: "leadingInt x s = Some (v, s') \<Longrightarrow> length s' \<le> length s"
  by (induction x s arbitrary: v s' rule: leadingInt.induct) (fastforce split: if_splits)+

lemma leadingFraction_length: "leadingFraction x k b s = (f, k', s') \<Longrightarrow> length s' \<le> length s"
  by (induction x k b s arbitrary: f k' s' rule: leadingFraction.induct) (fastforce split: if_splits)+

section \<open>One component, and the loop over them\<close>

definition invalid_duration :: err where
  "invalid_duration = ErrExt ''time: invalid duration''"

text \<open>The part after the integer: the fraction, if there is one, with whether it had digits.\<close>

definition fraction_part :: "string \<Rightarrow> nat \<times> nat \<times> bool \<times> string" where
  "fraction_part s =
     (case s of
        c # s1 \<Rightarrow>
          if c = CHR ''.'' then
            (case leadingFraction 0 0 False s1 of (f, k, s2) \<Rightarrow> (f, k, length s1 \<noteq> length s2, s2))
          else (0, 0, False, s)
      | [] \<Rightarrow> (0, 0, False, []))"

definition component :: "(nat \<Rightarrow> nat \<Rightarrow> nat \<Rightarrow> nat) \<Rightarrow> string \<Rightarrow> (nat \<times> string) result" where
  "component ff s =
     (if \<not> (hd s = CHR ''.'' \<or> is_digit (hd s)) then Inl invalid_duration
      else case leadingInt 0 s of
        None \<Rightarrow> Inl invalid_duration
      | Some (v, s1) \<Rightarrow>
          (case fraction_part s1 of (f, k, post, s2) \<Rightarrow>
             if \<not> (length s \<noteq> length s1) \<and> \<not> post then Inl invalid_duration
             else
               (let u = takeWhile unit_char s2; s3 = dropWhile unit_char s2
                in if u = [] then Inl (ErrExt ''time: missing unit in duration'')
                   else case unitMap u of
                     None \<Rightarrow> Inl (ErrExt ''time: unknown unit in duration'')
                   | Some unit \<Rightarrow>
                       if v > 2 ^ 63 div unit then Inl invalid_duration
                       else
                         (let v = v * unit;
                              v = (if f > 0 then v + ff f unit k else v)
                          in if f > 0 \<and> v > 2 ^ 63 then Inl invalid_duration else Inr (v, s3)))))"

lemma fraction_part_length: "fraction_part s = (f, k, p, s') \<Longrightarrow> length s' \<le> length s"
  by (cases s) (auto simp: fraction_part_def split: if_splits prod.splits dest: leadingFraction_length)

lemma component_shorter: "component ff s = Inr (v, s') \<Longrightarrow> length s' < length s"
proof -
  assume "component ff s = Inr (v, s')"
  then obtain x s1 f k p s2 where 1: "leadingInt 0 s = Some (x, s1)" "fraction_part s1 = (f, k, p, s2)"
    "s' = dropWhile unit_char s2" "takeWhile unit_char s2 \<noteq> []"
    by (auto simp: component_def Let_def split: if_splits option.splits prod.splits)
  have "length (takeWhile unit_char s2) + length s' = length s2"
    using 1(3) by (metis length_append takeWhile_dropWhile_id)
  moreover have "length (takeWhile unit_char s2) > 0" using 1(4) by simp
  ultimately show ?thesis
    using leadingInt_length [OF 1(1)] fraction_part_length [OF 1(2)] by linarith
qed

function components :: "(nat \<Rightarrow> nat \<Rightarrow> nat \<Rightarrow> nat) \<Rightarrow> nat \<Rightarrow> string \<Rightarrow> nat result" where
  "components ff d s =
     (if s = [] then Inr d
      else case component ff s of
        Inl e \<Rightarrow> Inl e
      | Inr (v, s') \<Rightarrow> if d + v > 2 ^ 63 then Inl invalid_duration else components ff (d + v) s')"
  by pat_completeness auto
termination
  by (relation "measure (\<lambda>(ff, d, s). length s)") (auto dest: component_shorter)

declare components.simps [simp del]

definition time_ParseDuration :: "(nat \<Rightarrow> nat \<Rightarrow> nat \<Rightarrow> nat) \<Rightarrow> string \<Rightarrow> duration result" where
  "time_ParseDuration ff orig =
     (let neg = (orig \<noteq> [] \<and> hd orig = CHR ''-'');
          s = (if orig \<noteq> [] \<and> (hd orig = CHR ''-'' \<or> hd orig = CHR ''+'') then tl orig else orig)
      in if s = ''0'' then Inr 0
         else if s = [] then Inl invalid_duration
         else case components ff 0 s of
           Inl e \<Rightarrow> Inl e
         | Inr d \<Rightarrow> if neg then Inr (- int d)
                    else if d > 2 ^ 63 - 1 then Inl invalid_duration
                    else Inr (int d))"

section \<open>Results\<close>

lemma components_bound: "components ff d s = Inr r \<Longrightarrow> d \<le> 2 ^ 63 \<Longrightarrow> r \<le> 2 ^ 63"
proof (induction ff d s rule: components.induct)
  case (1 ff d s)
  show ?case
  proof (cases "s = []")
    case True
    with 1(2,3) show ?thesis by (simp add: components.simps)
  next
    case False
    with 1(2) obtain v s' where c: "component ff s = Inr (v, s')" and le: "\<not> d + v > 2 ^ 63"
      and r: "components ff (d + v) s' = Inr r"
      by (subst (asm) (2) components.simps) (auto split: sum.splits if_splits)
    show ?thesis
      by (rule 1(1) [OF False c refl le r]) (use le in simp)
  qed
qed

lemma ParseDuration_int64:
  "time_ParseDuration ff s = Inr d \<Longrightarrow> - (2 ^ 63) \<le> d \<and> d < 2 ^ 63"
proof -
  assume a: "time_ParseDuration ff s = Inr d"
  have "components ff 0 t = Inr r \<Longrightarrow> r \<le> 2 ^ 63" for t r
    using components_bound by blast
  then have "components ff 0 t = Inr r \<Longrightarrow> int r \<le> 2 ^ 63" for t r
    by (metis of_nat_le_iff of_nat_numeral of_nat_power)
  with a show ?thesis
    by (fastforce simp: time_ParseDuration_def Let_def split: if_splits sum.splits)
qed

text \<open>A whole number of a unit parses to that many units.\<close>

lemma leadingInt_append:
  "leadingInt x s = Some (v, []) \<Longrightarrow> leadingInt x (s @ t) = leadingInt v t"
  by (induction x s rule: leadingInt.induct) (auto split: if_splits)

lemma leadingInt_dec_digits: "n \<le> 2 ^ 63 \<Longrightarrow> leadingInt 0 (dec_digits n) = Some (n, [])"
proof (induction n rule: dec_digits.induct)
  case (1 n)
  show ?case
  proof (cases "n < 10")
    case True
    then show ?thesis by (subst dec_digits.simps) (simp add: go_simps)
  next
    case False
    have le: "n div 10 \<le> 2 ^ 63 div 10" using 1(2) by (rule div_le_mono)
    with 1 False have IH: "leadingInt 0 (dec_digits (n div 10)) = Some (n div 10, [])"
      by simp
    have e: "n div 10 * 10 + n mod 10 = n" by simp
    have "leadingInt (n div 10) [digit_char (n mod 10)] = Some (n, [])"
      using le e 1(2) by (simp add: go_simps)
    with False leadingInt_append [OF IH] show ?thesis by (simp add: dec_digits.simps [of n])
  qed
qed

lemma unit_chars:
  assumes "unitMap u = Some k"
  shows "u \<noteq> [] \<and> list_all unit_char u \<and> k > 0"
  using assms
  by (auto simp: unitMap_def unit_char_def is_digit_def split: if_splits)

lemma component_whole:
  assumes "unitMap u = Some k" and "n * k \<le> 2 ^ 63"
  shows "component ff (dec_digits n @ u) = Inr (n * k, [])"
proof -
  have k: "k > 0" and u: "u \<noteq> []" and ch: "list_all unit_char u" using unit_chars [OF assms(1)] by auto
  have nk: "n \<le> 2 ^ 63 div k" using assms(2) k by (simp add: less_eq_div_iff_mult_less_eq)
  then have n: "n \<le> 2 ^ 63" by (meson div_le_dividend le_trans)
  obtain c s where cs: "dec_digits n = c # s" using dec_digits_nonempty [of n] by (cases "dec_digits n") auto
  then have c: "is_digit c" using dec_digits_digits [of c n] by simp
  obtain a r where ar: "u = a # r" using u by (cases u) auto
  then have a: "\<not> is_digit a" "a \<noteq> CHR ''.''" using ch by (auto simp: unit_char_def)
  have li: "leadingInt 0 (dec_digits n @ u) = Some (n, u)"
    using leadingInt_append [OF leadingInt_dec_digits [OF n], of u] ar a by simp
  have fr: "fraction_part u = (0, 0, False, u)" using ar a by (simp add: fraction_part_def)
  have tw: "takeWhile unit_char u = u" "dropWhile unit_char u = []"
    using ch by (auto simp: takeWhile_eq_all_conv dropWhile_eq_Nil_conv list_all_iff)
  have "hd (dec_digits n @ u) = c" using cs by simp
  with c li fr u assms(1) nk dec_digits_nonempty [of n] show ?thesis
    by (simp add: component_def tw Let_def)
qed

lemma ParseDuration_whole:
  assumes "unitMap u = Some k" and "n * k < 2 ^ 63"
  shows "time_ParseDuration ff (dec_digits n @ u) = Inr (int (n * k))"
proof -
  let ?s = "dec_digits n @ u"
  obtain c s where cs: "dec_digits n = c # s" using dec_digits_nonempty [of n] by (cases "dec_digits n") auto
  then have h: "hd ?s \<noteq> CHR ''-''" "hd ?s \<noteq> CHR ''+''" using dec_digits_punct [of n] by auto
  have "length ?s > 1" using cs unit_chars [OF assms(1)] by (cases u) auto
  then have z: "?s \<noteq> ''0''" "?s \<noteq> []"
    using length_Cons [of "CHR ''0''" "[]"]
    by (metis less_irrefl list.size(3) One_nat_def, metis less_nat_zero_code list.size(3))
  have "component ff ?s = Inr (n * k, [])"
    using assms by (intro component_whole) auto
  then have "components ff 0 ?s = Inr (n * k)"
    using z(2) assms(2) by (auto simp: components.simps)
  then show ?thesis using h z assms(2) by (simp add: time_ParseDuration_def)
qed

end
