(* ===== verification/Config.thy ===== *)
theory Config
  imports Go_Duration
begin

text \<open>
  Package \<open>internal/config\<close>: the configuration read from the environment.  \<open>os.Getenv\<close> is a
  function from names to values that is empty on unset variables.  The argument \<open>ff\<close> is the
  floating point step of \<open>time.ParseDuration\<close>.  The errors are the values of
  \<open>config_error\<close>, one per \<open>return nil, ...\<close> of the source.  The theorems say exactly which
  environments are accepted and what an accepted configuration satisfies.
\<close>

section \<open>State and errors\<close>

record Config =
  ListenAddr :: string
  MetricsAddr :: string
  Namespace :: string
  LabelKey :: string
  Backend :: string
  WarmPoolName :: string
  TemplateName :: string
  SandboxPort :: int
  SandboxMCPPort :: int
  SubstrateAPIEndpoint :: string
  SubstrateRouterAddr :: string
  SubstrateActorTemplate :: string
  SubstrateForceBoot :: bool
  SubstrateAllowedHTTPHosts :: "string list"
  KarsInferenceRef :: string
  KarsSandboxImage :: string
  IsolaNamespace :: string
  IsolaSandboxImage :: string
  IsolaAllowedEgressCIDRs :: "string list"
  IdleTTL :: duration
  IdleCheckInterval :: duration
  EnsureTimeout :: duration

datatype config_error =
    InvalidHostname string
  | PortSyntax string num_error
  | PortRange string int
  | DurationError string err
  | NamespaceRequired
  | WarmPoolRequired
  | ActorTemplateRequired
  | ActorTemplateForm string
  | InferenceRefRequired
  | KarsImageRequired
  | IsolaImageRequired
  | UnknownBackend string

type_synonym environment = "string \<Rightarrow> string"
type_synonym fraction = "nat \<Rightarrow> nat \<Rightarrow> nat \<Rightarrow> nat"

section \<open>Operations\<close>

definition envOr :: "environment \<Rightarrow> string \<Rightarrow> string \<Rightarrow> string" where
  "envOr env k dflt = (if env k \<noteq> '''' then env k else dflt)"

definition parsePort :: "string \<Rightarrow> string \<Rightarrow> bool \<Rightarrow> config_error + int" where
  "parsePort name raw allowZero =
     (case strconv_Atoi raw of
        Inl e \<Rightarrow> Inl (PortSyntax name e)
      | Inr p \<Rightarrow>
          if allowZero \<and> p = 0 then Inr 0
          else if p < 1 \<or> p > 65535 then Inl (PortRange name p)
          else Inr p)"

text \<open>The loop over \<open>SUBSTRATE_ALLOWED_HTTP_HOSTS\<close>.\<close>

definition bad_host :: "string \<Rightarrow> bool" where
  "bad_host host \<longleftrightarrow> host = '''' \<or>
     strings_ContainsAny host [CHR ''/'', CHR '':'', CHR '' '', CHR 0x09, CHR 0x0D, CHR 0x0A]"

fun parse_hosts :: "string list \<Rightarrow> string list \<Rightarrow> config_error + string list" where
  "parse_hosts [] acc = Inr acc"
| "parse_hosts (part # parts) acc =
     (let host = strings_TrimSpace part
      in if bad_host host then Inl (InvalidHostname host) else parse_hosts parts (acc @ [host]))"

definition allowed_hosts :: "string \<Rightarrow> config_error + string list" where
  "allowed_hosts v = (if v \<noteq> '''' then parse_hosts (strings_Split (CHR '','') v) [] else Inr [])"

text \<open>The loop over \<open>ISOLA_ALLOWED_EGRESS_CIDRS\<close>.\<close>

definition egress_cidrs :: "string \<Rightarrow> string list" where
  "egress_cidrs v =
     (if v \<noteq> '''' then filter (\<lambda>t. t \<noteq> '''') (map strings_TrimSpace (strings_Split (CHR '','') v)) else [])"

definition mcp_port :: "string \<Rightarrow> config_error + int" where
  "mcp_port v = (if v \<noteq> '''' then parsePort ''SANDBOX_MCP_PORT'' v True else Inr 0)"

definition parse_dur :: "fraction \<Rightarrow> string \<Rightarrow> string \<Rightarrow> config_error + duration" where
  "parse_dur ff name raw = (case time_ParseDuration ff raw of Inl e \<Rightarrow> Inl (DurationError name e) | Inr d \<Rightarrow> Inr d)"

text \<open>The checks at the end of \<open>FromEnv\<close>, on the configuration built so far.\<close>

definition finish :: "Config \<Rightarrow> config_error + Config" where
  "finish c =
     (if Namespace c = '''' then Inl NamespaceRequired
      else if Backend c = ''sandboxclaim'' then
        (if WarmPoolName c = '''' then Inl WarmPoolRequired
         else Inr (if TemplateName c = '''' then c\<lparr>TemplateName := WarmPoolName c\<rparr> else c))
      else if Backend c = ''substrate'' then
        (if SubstrateActorTemplate c = '''' then Inl ActorTemplateRequired
         else if \<not> strings_Contains (SubstrateActorTemplate c) ''/''
         then Inl (ActorTemplateForm (SubstrateActorTemplate c))
         else Inr c)
      else if Backend c = ''karssandbox'' then
        (if KarsInferenceRef c = '''' then Inl InferenceRefRequired
         else if KarsSandboxImage c = '''' then Inl KarsImageRequired
         else Inr c)
      else if Backend c = ''isola'' then
        (if IsolaSandboxImage c = '''' then Inl IsolaImageRequired else Inr c)
      else Inl (UnknownBackend (Backend c)))"

definition base_config :: "environment \<Rightarrow> Config" where
  "base_config env =
     \<lparr>ListenAddr = envOr env ''LISTEN_ADDR'' '':9000'',
      MetricsAddr = envOr env ''METRICS_ADDR'' '':9090'',
      Namespace = env ''POD_NAMESPACE'',
      LabelKey = envOr env ''PLAYWRIGHT_LABEL_KEY'' ''playwright-id'',
      Backend = envOr env ''BACKEND'' ''sandboxclaim'',
      WarmPoolName = env ''WARMPOOL_NAME'',
      TemplateName = env ''SANDBOX_TEMPLATE_NAME'',
      SandboxPort = 0,
      SandboxMCPPort = 0,
      SubstrateAPIEndpoint = envOr env ''SUBSTRATE_API_ENDPOINT'' ''api.ate-system.svc.cluster.local:443'',
      SubstrateRouterAddr = envOr env ''SUBSTRATE_ROUTER_ADDR'' ''atenet-router.ate-system.svc.cluster.local:80'',
      SubstrateActorTemplate = env ''SUBSTRATE_ACTOR_TEMPLATE'',
      SubstrateForceBoot = (envOr env ''SUBSTRATE_FORCE_BOOT'' '''' = ''true''),
      SubstrateAllowedHTTPHosts = [],
      KarsInferenceRef = env ''KARS_INFERENCE_REF'',
      KarsSandboxImage = env ''KARS_SANDBOX_IMAGE'',
      IsolaNamespace = envOr env ''ISOLA_NAMESPACE'' ''isola-sandboxes'',
      IsolaSandboxImage = env ''ISOLA_SANDBOX_IMAGE'',
      IsolaAllowedEgressCIDRs = [],
      IdleTTL = 0, IdleCheckInterval = 0, EnsureTimeout = 0\<rparr>"

definition FromEnv :: "fraction \<Rightarrow> environment \<Rightarrow> config_error + Config" where
  "FromEnv ff env =
     (let c = base_config env
      in case allowed_hosts (env ''SUBSTRATE_ALLOWED_HTTP_HOSTS'') of Inl e \<Rightarrow> Inl e | Inr hosts \<Rightarrow>
      (let c = c\<lparr>SubstrateAllowedHTTPHosts := hosts,
                 IsolaAllowedEgressCIDRs := egress_cidrs (env ''ISOLA_ALLOWED_EGRESS_CIDRS'')\<rparr>
       in case parsePort ''SANDBOX_PORT'' (envOr env ''SANDBOX_PORT'' ''9222'') False of Inl e \<Rightarrow> Inl e | Inr port \<Rightarrow>
          case mcp_port (env ''SANDBOX_MCP_PORT'') of Inl e \<Rightarrow> Inl e | Inr mcp \<Rightarrow>
          case parse_dur ff ''IDLE_TTL'' (envOr env ''IDLE_TTL'' ''10m'') of Inl e \<Rightarrow> Inl e | Inr ttl \<Rightarrow>
          case parse_dur ff ''IDLE_CHECK_INTERVAL'' (envOr env ''IDLE_CHECK_INTERVAL'' ''30s'') of Inl e \<Rightarrow> Inl e | Inr ivl \<Rightarrow>
          case parse_dur ff ''ENSURE_TIMEOUT'' (envOr env ''ENSURE_TIMEOUT'' ''30s'') of Inl e \<Rightarrow> Inl e | Inr tmo \<Rightarrow>
          finish (c\<lparr>SandboxPort := port, SandboxMCPPort := mcp, IdleTTL := ttl,
                    IdleCheckInterval := ivl, EnsureTimeout := tmo\<rparr>)))"

section \<open>Ports\<close>

lemma parsePort_iff:
  "parsePort name raw z = Inr p \<longleftrightarrow> strconv_Atoi raw = Inr p \<and> (1 \<le> p \<and> p \<le> 65535 \<or> z \<and> p = 0)"
  by (auto simp: parsePort_def split: sum.splits if_splits)

lemma mcp_port_range: "mcp_port v = Inr p \<Longrightarrow> 0 \<le> p \<and> p \<le> 65535"
  by (auto simp: mcp_port_def parsePort_iff split: if_splits)

text \<open>
  \<open>parsePort\<close> accepts exactly the decimal integers of the range: it returns \<open>p\<close> if and only
  if the text reads as \<open>p\<close> and \<open>p\<close> is a TCP port, or 0 where 0 is allowed; printing a port and
  parsing it gives the port back.
\<close>

theorem parsePort_exact:
  "(parsePort name raw z = Inr p \<longleftrightarrow>
      strconv_Atoi raw = Inr p \<and> (1 \<le> p \<and> p \<le> 65535 \<or> z \<and> p = 0)) \<and>
   (\<forall>q \<in> {1..65535}. parsePort name (strconv_Itoa q) z = Inr q)"
  by (auto simp: parsePort_iff intro: Atoi_Itoa)

theorem parsePort_exact_witness: "parsePort ''SANDBOX_PORT'' (strconv_Itoa 9222) False = Inr 9222"
  using parsePort_exact [of "''SANDBOX_PORT''" _ False] by simp

section \<open>Hosts\<close>

lemma parse_hosts_Inr:
  "parse_hosts parts acc = Inr hosts \<longleftrightarrow>
     hosts = acc @ map strings_TrimSpace parts \<and> (\<forall>p \<in> set parts. \<not> bad_host (strings_TrimSpace p))"
  by (induction parts arbitrary: acc) (auto simp: Let_def)

lemma allowed_hosts_Inr:
  "allowed_hosts v = Inr hosts \<longleftrightarrow>
     (if v = '''' then hosts = []
      else hosts = map strings_TrimSpace (strings_Split (CHR '','') v) \<and> (\<forall>h \<in> set hosts. \<not> bad_host h))"
  by (auto simp: allowed_hosts_def parse_hosts_Inr)

section \<open>Accepted configurations\<close>

text \<open>What every accepted configuration satisfies, field by field.\<close>

definition backend_ok :: "Config \<Rightarrow> bool" where
  "backend_ok c \<longleftrightarrow>
     (Backend c = ''sandboxclaim'' \<and> WarmPoolName c \<noteq> '''' \<and> TemplateName c \<noteq> '''') \<or>
     (Backend c = ''substrate'' \<and> strings_Contains (SubstrateActorTemplate c) ''/'') \<or>
     (Backend c = ''karssandbox'' \<and> KarsInferenceRef c \<noteq> '''' \<and> KarsSandboxImage c \<noteq> '''') \<or>
     (Backend c = ''isola'' \<and> IsolaSandboxImage c \<noteq> '''')"

definition fields_ok :: "Config \<Rightarrow> bool" where
  "fields_ok c \<longleftrightarrow>
     ListenAddr c \<noteq> [] \<and> MetricsAddr c \<noteq> [] \<and> LabelKey c \<noteq> [] \<and>
     1 \<le> SandboxPort c \<and> SandboxPort c \<le> 65535 \<and>
     0 \<le> SandboxMCPPort c \<and> SandboxMCPPort c \<le> 65535 \<and>
     list_all (\<lambda>h. \<not> bad_host h) (SubstrateAllowedHTTPHosts c) \<and>
     list_all (\<lambda>t. t \<noteq> []) (IsolaAllowedEgressCIDRs c)"

definition config_ok :: "Config \<Rightarrow> bool" where
  "config_ok c \<longleftrightarrow> Namespace c \<noteq> [] \<and> fields_ok c \<and> backend_ok c"

lemma envOr_nonempty: "d \<noteq> '''' \<Longrightarrow> envOr env k d \<noteq> ''''"
  by (simp add: envOr_def)

lemma finish_Inr:
  "finish c = Inr c' \<longleftrightarrow>
     Namespace c \<noteq> '''' \<and>
     ((Backend c = ''sandboxclaim'' \<and> WarmPoolName c \<noteq> '''' \<and>
        c' = (if TemplateName c = '''' then c\<lparr>TemplateName := WarmPoolName c\<rparr> else c)) \<or>
      (Backend c = ''substrate'' \<and> SubstrateActorTemplate c \<noteq> '''' \<and>
        strings_Contains (SubstrateActorTemplate c) ''/'' \<and> c' = c) \<or>
      (Backend c = ''karssandbox'' \<and> KarsInferenceRef c \<noteq> '''' \<and> KarsSandboxImage c \<noteq> '''' \<and> c' = c) \<or>
      (Backend c = ''isola'' \<and> IsolaSandboxImage c \<noteq> '''' \<and> c' = c))"
  unfolding finish_def by auto

lemma fields_ok_template [simp]: "fields_ok (c\<lparr>TemplateName := x\<rparr>) = fields_ok c"
  by (simp add: fields_ok_def)

lemma finish_config_ok: "finish c = Inr c' \<Longrightarrow> fields_ok c \<Longrightarrow> config_ok c'"
  unfolding finish_Inr by (elim conjE disjE) (simp_all add: config_ok_def backend_ok_def)

lemma FromEnv_Inr:
  "FromEnv ff env = Inr c \<longleftrightarrow>
     (\<exists>hosts port mcp ttl ivl tmo.
        allowed_hosts (env ''SUBSTRATE_ALLOWED_HTTP_HOSTS'') = Inr hosts \<and>
        parsePort ''SANDBOX_PORT'' (envOr env ''SANDBOX_PORT'' ''9222'') False = Inr port \<and>
        mcp_port (env ''SANDBOX_MCP_PORT'') = Inr mcp \<and>
        parse_dur ff ''IDLE_TTL'' (envOr env ''IDLE_TTL'' ''10m'') = Inr ttl \<and>
        parse_dur ff ''IDLE_CHECK_INTERVAL'' (envOr env ''IDLE_CHECK_INTERVAL'' ''30s'') = Inr ivl \<and>
        parse_dur ff ''ENSURE_TIMEOUT'' (envOr env ''ENSURE_TIMEOUT'' ''30s'') = Inr tmo \<and>
        finish ((base_config env)\<lparr>SubstrateAllowedHTTPHosts := hosts,
            IsolaAllowedEgressCIDRs := egress_cidrs (env ''ISOLA_ALLOWED_EGRESS_CIDRS''),
            SandboxPort := port, SandboxMCPPort := mcp, IdleTTL := ttl,
            IdleCheckInterval := ivl, EnsureTimeout := tmo\<rparr>) = Inr c)"
  unfolding FromEnv_def Let_def by (auto split: sum.splits)

text \<open>
  An accepted configuration is usable: namespace, listen addresses and label key are not
  empty, both ports are in range (0 only for the MCP port), every allowed HTTP host is a bare host
  name, every egress CIDR is non-empty, and the settings the chosen backend requires are present.
\<close>

theorem FromEnv_accepts_only_valid:
  assumes "FromEnv ff env = Inr c"
  shows "config_ok c"
proof -
  from assms obtain hosts port mcp ttl ivl tmo where
    h: "allowed_hosts (env ''SUBSTRATE_ALLOWED_HTTP_HOSTS'') = Inr hosts"
    and p: "parsePort ''SANDBOX_PORT'' (envOr env ''SANDBOX_PORT'' ''9222'') False = Inr port"
    and m: "mcp_port (env ''SANDBOX_MCP_PORT'') = Inr mcp"
    and f: "finish ((base_config env)\<lparr>SubstrateAllowedHTTPHosts := hosts,
            IsolaAllowedEgressCIDRs := egress_cidrs (env ''ISOLA_ALLOWED_EGRESS_CIDRS''),
            SandboxPort := port, SandboxMCPPort := mcp, IdleTTL := ttl,
            IdleCheckInterval := ivl, EnsureTimeout := tmo\<rparr>) = Inr c"
    unfolding FromEnv_Inr by blast
  have hh: "list_all (\<lambda>h. \<not> bad_host h) hosts"
    using h by (auto simp: allowed_hosts_Inr list_all_iff split: if_splits)
  have cc: "list_all (\<lambda>t. t \<noteq> '''') (egress_cidrs (env ''ISOLA_ALLOWED_EGRESS_CIDRS''))"
    by (simp add: egress_cidrs_def list_all_iff)
  show ?thesis
    by (rule finish_config_ok [OF f])
      (use p mcp_port_range [OF m] hh cc in
        \<open>simp add: fields_ok_def base_config_def parsePort_iff envOr_nonempty\<close>)
qed

definition env_example :: environment where
  "env_example k = (if k = ''POD_NAMESPACE'' then ''agents'' else if k = ''WARMPOOL_NAME'' then ''pw'' else [])"

lemma Atoi_9222: "strconv_Atoi ''9222'' = Inr 9222"
  by (simp add: strconv_Atoi_def is_digit_def digit_val_def)

lemma default_durations:
  "time_ParseDuration ff ''10m'' = Inr (10 * Minute)" "time_ParseDuration ff ''30s'' = Inr (30 * Second)"
  "time_ParseDuration ff ''0s'' = Inr 0"
proof -
  have d: "dec_digits 10 = ''10''" "dec_digits 30 = ''30''" "dec_digits 0 = ''0''" by code_simp+
  have u: "unitMap ''m'' = Some 60000000000" "unitMap ''s'' = Some 1000000000"
    by (simp_all add: unitMap_def)
  from ParseDuration_whole [OF u(1), of 10] ParseDuration_whole [OF u(2), of 30]
    ParseDuration_whole [OF u(2), of 0]
  show "time_ParseDuration ff ''10m'' = Inr (10 * Minute)" "time_ParseDuration ff ''30s'' = Inr (30 * Second)"
    "time_ParseDuration ff ''0s'' = Inr 0"
    by (simp_all add: d duration_defs)
qed

lemma FromEnv_example: "\<exists>c. FromEnv (\<lambda>_ _ _. 0) env_example = Inr c"
  unfolding FromEnv_Inr finish_Inr
  by (simp add: env_example_def allowed_hosts_def envOr_def parsePort_iff Atoi_9222 mcp_port_def
      parse_dur_def default_durations base_config_def)

theorem FromEnv_accepts_only_valid_witness:
  "\<exists>c. FromEnv (\<lambda>_ _ _. 0) env_example = Inr c \<and> config_ok c"
  using FromEnv_example FromEnv_accepts_only_valid by blast

section \<open>Exactly which environments are accepted\<close>

definition backend_env_ok :: "environment \<Rightarrow> bool" where
  "backend_env_ok env =
     (let b = envOr env ''BACKEND'' ''sandboxclaim''
      in if b = ''sandboxclaim'' then env ''WARMPOOL_NAME'' \<noteq> []
         else if b = ''substrate'' then CHR ''/'' \<in> set (env ''SUBSTRATE_ACTOR_TEMPLATE'')
         else if b = ''karssandbox'' then env ''KARS_INFERENCE_REF'' \<noteq> [] \<and> env ''KARS_SANDBOX_IMAGE'' \<noteq> []
         else b = ''isola'' \<and> env ''ISOLA_SANDBOX_IMAGE'' \<noteq> [])"

definition finish_ok :: "Config \<Rightarrow> bool" where
  "finish_ok c \<longleftrightarrow> Namespace c \<noteq> [] \<and>
     (if Backend c = ''sandboxclaim'' then WarmPoolName c \<noteq> []
      else if Backend c = ''substrate'' then CHR ''/'' \<in> set (SubstrateActorTemplate c)
      else if Backend c = ''karssandbox'' then KarsInferenceRef c \<noteq> [] \<and> KarsSandboxImage c \<noteq> []
      else Backend c = ''isola'' \<and> IsolaSandboxImage c \<noteq> [])"

lemma finish_ok_iff: "(\<exists>c'. finish c = Inr c') \<longleftrightarrow> finish_ok c"
  unfolding finish_def finish_ok_def strings_Contains_char
  by (simp split: if_split)

text \<open>
  C37.  \<open>FromEnv\<close> accepts an environment if and only if the namespace is set, every listed HTTP
  host is a bare host name, the ports read as numbers in range, the three durations parse, and
  the settings of the selected backend are present; nothing else is checked, in particular no
  duration has to be positive.
\<close>

theorem FromEnv_accepts_iff:
  "(\<exists>c. FromEnv ff env = Inr c) \<longleftrightarrow>
     env ''POD_NAMESPACE'' \<noteq> [] \<and>
     (env ''SUBSTRATE_ALLOWED_HTTP_HOSTS'' \<noteq> [] \<longrightarrow>
        list_all (\<lambda>p. \<not> bad_host (strings_TrimSpace p))
          (strings_Split (CHR '','') (env ''SUBSTRATE_ALLOWED_HTTP_HOSTS''))) \<and>
     (\<exists>p. strconv_Atoi (envOr env ''SANDBOX_PORT'' ''9222'') = Inr p \<and> 1 \<le> p \<and> p \<le> 65535) \<and>
     (env ''SANDBOX_MCP_PORT'' \<noteq> [] \<longrightarrow>
        (\<exists>p. strconv_Atoi (env ''SANDBOX_MCP_PORT'') = Inr p \<and> 0 \<le> p \<and> p \<le> 65535)) \<and>
     (\<exists>d. time_ParseDuration ff (envOr env ''IDLE_TTL'' ''10m'') = Inr d) \<and>
     (\<exists>d. time_ParseDuration ff (envOr env ''IDLE_CHECK_INTERVAL'' ''30s'') = Inr d) \<and>
     (\<exists>d. time_ParseDuration ff (envOr env ''ENSURE_TIMEOUT'' ''30s'') = Inr d) \<and>
     backend_env_ok env"
proof -
  have h: "(\<exists>hosts. allowed_hosts v = Inr hosts) \<longleftrightarrow>
      (v \<noteq> [] \<longrightarrow> list_all (\<lambda>p. \<not> bad_host (strings_TrimSpace p)) (strings_Split (CHR '','') v))" for v
    by (cases "v = []") (auto simp: allowed_hosts_Inr list_all_iff)
  have m: "(\<exists>p. mcp_port v = Inr p) \<longleftrightarrow>
      (v \<noteq> [] \<longrightarrow> (\<exists>p. strconv_Atoi v = Inr p \<and> 0 \<le> p \<and> p \<le> 65535))" for v
    by (auto simp: mcp_port_def parsePort_iff)
  have d: "(\<exists>x. time_ParseDuration ff v = Inr x) \<longleftrightarrow> (\<exists>x. parse_dur ff n v = Inr x)" for n v
    by (auto simp: parse_dur_def split: sum.splits)
  have f: "(\<exists>c. finish ((base_config env)\<lparr>SubstrateAllowedHTTPHosts := hosts,
            IsolaAllowedEgressCIDRs := cidrs, SandboxPort := port, SandboxMCPPort := mcp, IdleTTL := ttl,
            IdleCheckInterval := ivl, EnsureTimeout := tmo\<rparr>) = Inr c) \<longleftrightarrow>
      env ''POD_NAMESPACE'' \<noteq> [] \<and> backend_env_ok env" for hosts cidrs port mcp ttl ivl tmo
    unfolding finish_ok_iff by (simp add: finish_ok_def base_config_def backend_env_ok_def Let_def)
  have p: "(\<exists>p. parsePort n v False = Inr p) \<longleftrightarrow>
      (\<exists>p. strconv_Atoi v = Inr p \<and> 1 \<le> p \<and> p \<le> 65535)" for n v
    by (auto simp: parsePort_iff)
  have ex: "(\<exists>c h p m t i e. A h \<and> P p \<and> M m \<and> T t \<and> I i \<and> E e \<and> F h p m t i e = Inr c) \<longleftrightarrow>
      N \<and> (\<exists>h. A h) \<and> (\<exists>p. P p) \<and> (\<exists>m. M m) \<and> (\<exists>t. T t) \<and> (\<exists>i. I i) \<and> (\<exists>e. E e) \<and> B"
    if "\<And>h p m t i e. (\<exists>c. F h p m t i e = Inr c) \<longleftrightarrow> N \<and> B"
    for A P M T I E N B and F :: "string list \<Rightarrow> int \<Rightarrow> int \<Rightarrow> int \<Rightarrow> int \<Rightarrow> int \<Rightarrow> config_error + Config"
    using that by meson
  show ?thesis
    unfolding FromEnv_Inr h [symmetric] m [symmetric] p [of "''SANDBOX_PORT''", symmetric]
      d [of "envOr env ''IDLE_TTL'' ''10m''" "''IDLE_TTL''"]
      d [of "envOr env ''IDLE_CHECK_INTERVAL'' ''30s''" "''IDLE_CHECK_INTERVAL''"]
      d [of "envOr env ''ENSURE_TIMEOUT'' ''30s''" "''ENSURE_TIMEOUT''"]
    by (rule ex) (rule f)
qed

theorem FromEnv_accepts_iff_witness:
  "(\<exists>c. FromEnv (\<lambda>_ _ _. 0) env_example = Inr c) \<and> backend_env_ok env_example"
  using FromEnv_accepts_iff [of "\<lambda>_ _ _. 0" env_example] FromEnv_example by blast

end
