(* ===== verification/Kube.thy ===== *)
theory Kube
  imports Backend
begin

text \<open>
  What the three Kubernetes backends use of client-go and apimachinery, none of which is part of
  the repository: the dynamic client, the accessors of unstructured objects and
  \<open>wait.PollUntilContextCancel\<close> are arguments of the backends' definitions.  This theory gives
  their types and, as named contracts, the documented behaviour the proofs rely on.  It also has
  the helpers of \<open>sandboxclaim.go\<close> that all three backends share.
\<close>

section \<open>Unstructured objects\<close>

datatype json =
    JStr string
  | JInt int
  | JBool bool
  | JNull
  | JList "json list"
  | JMap "string \<Rightarrow> json option"

type_synonym json_map = "string \<rightharpoonup> json"

record GroupVersionResource =
  gvr_group :: string
  gvr_version :: string
  gvr_resource :: string

text \<open>The accessors; each returns the value, whether it was found, and an error.\<close>

record unstructured =
  NestedMap :: "json_map \<Rightarrow> string list \<Rightarrow> json_map \<times> bool \<times> err option"
  NestedSlice :: "json_map \<Rightarrow> string list \<Rightarrow> json list \<times> bool \<times> err option"
  NestedString :: "json_map \<Rightarrow> string list \<Rightarrow> string \<times> bool \<times> err option"
  GetLabels :: "json_map \<Rightarrow> string \<rightharpoonup> string"

text \<open>The field a path of names leads to.\<close>

fun path_get :: "json_map \<Rightarrow> string list \<Rightarrow> json option" where
  "path_get o1 [] = Some (JMap o1)"
| "path_get o1 [k] = o1 k"
| "path_get o1 (k # ks) = (case o1 k of Some (JMap m) \<Rightarrow> path_get m ks | _ \<Rightarrow> None)"

text \<open>
  The documented behaviour: an accessor returns the field at the path when it is there with the
  right type and an empty value otherwise; the labels are the string map at \<open>metadata.labels\<close>.
\<close>

definition unstructured_ok :: "unstructured \<Rightarrow> bool" where
  "unstructured_ok u \<longleftrightarrow>
     (\<forall>ob p. NestedMap u ob p = (case path_get ob p of
        Some (JMap m) \<Rightarrow> (m, True, None)
      | None \<Rightarrow> (Map.empty, False, snd (snd (NestedMap u ob p)))
      | _ \<Rightarrow> (Map.empty, False, Some (ErrExt ''not a map'')))) \<and>
     (\<forall>ob p. fst (NestedSlice u ob p) = (case path_get ob p of Some (JList xs) \<Rightarrow> xs | _ \<Rightarrow> [])) \<and>
     (\<forall>ob p. fst (NestedString u ob p) = (case path_get ob p of Some (JStr s) \<Rightarrow> s | _ \<Rightarrow> [])) \<and>
     (\<forall>ob ls. path_get ob [''metadata'', ''labels''] = Some (JMap ls) \<and> (\<forall>v \<in> ran ls. \<exists>s. v = JStr s) \<longrightarrow>
        (\<forall>k. GetLabels u ob k = (case ls k of Some (JStr s) \<Rightarrow> Some s | _ \<Rightarrow> None)))"

text \<open>Accessors with that behaviour, to show that the contract can be met.\<close>

definition std_unstructured :: unstructured where
  "std_unstructured = \<lparr>
     NestedMap = (\<lambda>ob p. case path_get ob p of
        Some (JMap m) \<Rightarrow> (m, True, None)
      | None \<Rightarrow> (Map.empty, False, None)
      | _ \<Rightarrow> (Map.empty, False, Some (ErrExt ''not a map''))),
     NestedSlice = (\<lambda>ob p. case path_get ob p of
        Some (JList xs) \<Rightarrow> (xs, True, None) | None \<Rightarrow> ([], False, None)
      | _ \<Rightarrow> ([], False, Some (ErrExt ''not a slice''))),
     NestedString = (\<lambda>ob p. case path_get ob p of
        Some (JStr s) \<Rightarrow> (s, True, None) | None \<Rightarrow> ([], False, None)
      | _ \<Rightarrow> ([], False, Some (ErrExt ''not a string''))),
     GetLabels = (\<lambda>ob k. case path_get ob [''metadata'', ''labels''] of
        Some (JMap ls) \<Rightarrow> (case ls k of Some (JStr s) \<Rightarrow> Some s | _ \<Rightarrow> None)
      | _ \<Rightarrow> None)\<rparr>"

lemma std_unstructured_ok: "unstructured_ok std_unstructured"
  by (simp add: unstructured_ok_def std_unstructured_def split: option.splits json.splits)

definition label_or_empty :: "unstructured \<Rightarrow> json_map \<Rightarrow> string \<Rightarrow> string" where
  "label_or_empty u ob k = (case GetLabels u ob k of None \<Rightarrow> [] | Some v \<Rightarrow> v)"

lemma label_or_empty_metadata:
  assumes "unstructured_ok u" and "path_get ob [''metadata'', ''labels''] = Some (JMap ls)"
    and "\<forall>v \<in> ran ls. \<exists>s. v = JStr s"
  shows "label_or_empty u ob k = (case ls k of Some (JStr s) \<Rightarrow> s | _ \<Rightarrow> [])"
proof -
  have "GetLabels u ob k = (case ls k of Some (JStr s) \<Rightarrow> Some s | _ \<Rightarrow> None)"
    using assms unfolding unstructured_ok_def by blast
  then show ?thesis by (simp add: label_or_empty_def split: option.splits json.splits)
qed

section \<open>The dynamic client\<close>

record 'w dyn =
  dget :: "GroupVersionResource \<Rightarrow> string \<Rightarrow> string \<Rightarrow> ('w, json_map result) io"
  dcreate :: "GroupVersionResource \<Rightarrow> string \<Rightarrow> json_map \<Rightarrow> ('w, json_map result) io"
  ddelete :: "GroupVersionResource \<Rightarrow> string \<Rightarrow> string \<Rightarrow> ('w, err option) io"
  dlist :: "GroupVersionResource \<Rightarrow> string \<Rightarrow> string \<Rightarrow> ('w, json_map list result) io"

section \<open>Polling\<close>

text \<open>
  A condition reports an error, \<open>None\<close> for "not yet", or \<open>Some x\<close> for "done" with the value it
  stores in the captured variable.  \<open>poll_allows\<close> is what the documentation of
  \<open>PollUntilContextCancel\<close> allows with \<open>immediate\<close> set: the condition is run, and while it says
  "not yet" the world moves on and either the context ends or the condition is run again.
\<close>

type_synonym ('w, 'a) poller = "duration \<Rightarrow> bool \<Rightarrow> ('w, 'a option result) io \<Rightarrow> ('w, 'a result) io"

inductive poll_allows :: "('w, 'a option result) io \<Rightarrow> 'w \<Rightarrow> 'a result \<times> 'w \<Rightarrow> bool"
  for cond :: "('w, 'a option result) io" where
  poll_done: "cond w = (Inr (Some x), w') \<Longrightarrow> poll_allows cond w (Inr x, w')"
| poll_failed: "cond w = (Inl e, w') \<Longrightarrow> poll_allows cond w (Inl e, w')"
| poll_ended: "cond w = (Inr None, w1) \<Longrightarrow> e \<in> {ErrCanceled, ErrDeadline} \<Longrightarrow> poll_allows cond w (Inl e, w2)"
| poll_again: "cond w = (Inr None, w1) \<Longrightarrow> poll_allows cond w2 r \<Longrightarrow> poll_allows cond w r"

definition poll_ok :: "('w, 'a) poller \<Rightarrow> bool" where
  "poll_ok poll \<longleftrightarrow> (\<forall>d cond w. poll_allows cond w (poll d True cond w))"

lemma poll_allows_Inr: "poll_allows cond w r \<Longrightarrow> r = (Inr x, w') \<Longrightarrow> \<exists>w0. cond w0 = (Inr (Some x), w')"
  by (induction rule: poll_allows.induct) auto

lemma poll_result:
  assumes "poll_ok poll" and "poll d True cond w = (Inr x, w')"
  shows "\<exists>w0. cond w0 = (Inr (Some x), w')"
  using assms poll_allows_Inr unfolding poll_ok_def by metis

lemma poll_allows_Inl:
  "poll_allows cond w r \<Longrightarrow> r = (Inl e, w') \<Longrightarrow>
     e \<in> {ErrCanceled, ErrDeadline} \<or> (\<exists>w0. cond w0 = (Inl e, w'))"
  by (induction rule: poll_allows.induct) auto

lemma poll_error:
  assumes "poll_ok poll" and "poll d True cond w = (Inl e, w')"
  shows "e \<in> {ErrCanceled, ErrDeadline} \<or> (\<exists>w0. cond w0 = (Inl e, w'))"
  using assms poll_allows_Inl unfolding poll_ok_def by metis

text \<open>A poller with that behaviour: one attempt, then the context ends.\<close>

definition poll_once :: "('w, 'a) poller" where
  "poll_once d imm cond w =
     (case cond w of
        (Inl e, w') \<Rightarrow> (Inl e, w')
      | (Inr (Some x), w') \<Rightarrow> (Inr x, w')
      | (Inr None, w') \<Rightarrow> (Inl ErrDeadline, w'))"

lemma poll_once_ok: "poll_ok (poll_once :: ('w, 'a) poller)"
proof -
  have "poll_allows cond w (poll_once d True cond w)" for d w and cond :: "('w, 'a option result) io"
    by (cases "cond w")
      (auto simp: poll_once_def split: sum.splits option.splits intro: poll_allows.intros)
  then show ?thesis by (simp add: poll_ok_def)
qed

section \<open>Shared helpers of sandboxclaim.go\<close>

definition managedByLabel :: string where
  "managedByLabel = ''playwright-proxy/managed''"

definition podUserLabelDomain :: string where
  "podUserLabelDomain = ''sandbox.users.io/''"

definition isNotFound :: "err \<Rightarrow> bool" where
  "isNotFound e = (case errors_As_status e of Some c \<Rightarrow> c = 404 | None \<Rightarrow> False)"

definition isAlreadyExists :: "err \<Rightarrow> bool" where
  "isAlreadyExists e = (case errors_As_status e of Some c \<Rightarrow> c = 409 | None \<Rightarrow> False)"

lemma isNotFound_exclusive: "isNotFound e \<Longrightarrow> \<not> isAlreadyExists e"
  by (auto simp: isNotFound_def isAlreadyExists_def split: option.splits)

text \<open>\<open>cm["k"] == "v"\<close> on a map of any values.\<close>

definition field_is :: "json_map \<Rightarrow> string \<Rightarrow> string \<Rightarrow> bool" where
  "field_is m k v = (m k = Some (JStr v))"

text \<open>The labels all three backends put on their objects give the id back.\<close>

lemma managed_label:
  assumes "unstructured_ok u"
    and "path_get ob [''metadata'', ''labels''] = Some (JMap [managedByLabel \<mapsto> JStr ''true'', key \<mapsto> JStr pid])"
  shows "label_or_empty u ob key = pid"
proof -
  have "\<forall>v \<in> ran [managedByLabel \<mapsto> JStr ''true'', key \<mapsto> JStr pid]. \<exists>s. v = JStr s"
    by (auto simp: ran_def)
  from label_or_empty_metadata [OF assms this] show ?thesis by simp
qed

section \<open>The interface of a backend over one kind of resource\<close>

text \<open>
  \<open>Delete\<close> and \<open>List\<close> of the backends that keep one custom resource per playwright-id.  The laws
  say how they act through the client; the lemmas are what the session manager relies on.
\<close>

locale cr_backend =
  fixes gvr :: GroupVersionResource and ns :: string and key :: string
    and name_of :: "string \<Rightarrow> string"
    and del :: "'w dyn \<Rightarrow> string \<Rightarrow> ('w, err option) io"
    and lst :: "unstructured \<Rightarrow> 'w dyn \<Rightarrow> ('w, string list result) io"
    and del_text :: "string \<Rightarrow> string" and lst_text :: string
  assumes del_law: "del dyn pid w =
      (case ddelete dyn gvr ns (name_of pid) w of
         (None, w') \<Rightarrow> (None, w')
       | (Some e, w') \<Rightarrow> (if isNotFound e then None else Some (ErrWrap (del_text (name_of pid)) e), w'))"
    and lst_law: "lst u dyn w =
      (case dlist dyn gvr ns (managedByLabel @ ''=true'') w of
         (Inl e, w') \<Rightarrow> (Inl (ErrWrap lst_text e), w')
       | (Inr items, w') \<Rightarrow>
           (Inr (filter (\<lambda>i. i \<noteq> []) (map (\<lambda>it. label_or_empty u it key) items)), w'))"
begin

lemma delete_ok_iff:
  "fst (del dyn pid w) = None \<longleftrightarrow>
     (case fst (ddelete dyn gvr ns (name_of pid) w) of None \<Rightarrow> True | Some e \<Rightarrow> isNotFound e)"
  by (auto simp: del_law split: prod.splits option.splits)

lemma delete_only_own: "snd (del dyn pid w) = snd (ddelete dyn gvr ns (name_of pid) w)"
  by (simp add: del_law split: prod.splits option.splits)

lemma delete_idempotent:
  assumes "fst (ddelete dyn gvr ns (name_of pid) w) = Some (ErrStatus 404)"
  shows "fst (del dyn pid w) = None"
  using assms by (simp add: delete_ok_iff isNotFound_def)

lemma list_nonempty:
  "lst u dyn w = (Inr ids, w') \<Longrightarrow> [] \<notin> set ids"
  by (auto simp: lst_law split: prod.splits sum.splits)

lemma list_members:
  assumes "dlist dyn gvr ns (managedByLabel @ ''=true'') w = (Inr items, w')"
  shows "lst u dyn w = (Inr (filter (\<lambda>i. i \<noteq> []) (map (\<lambda>it. label_or_empty u it key) items)), w')"
  using assms by (simp add: lst_law)

text \<open>Objects that carry their id under the key are all listed, with their ids.\<close>

lemma list_round_trip:
  assumes "dlist dyn gvr ns (managedByLabel @ ''=true'') w = (Inr (map mk ids), w')"
    and "\<And>i. i \<in> set ids \<Longrightarrow> label_or_empty u (mk i) key = i \<and> i \<noteq> []"
  shows "lst u dyn w = (Inr ids, w')"
proof -
  have "map (\<lambda>it. label_or_empty u it key) (map mk ids) = ids"
    using assms(2) by (simp add: map_idI)
  moreover have "filter (\<lambda>i. i \<noteq> []) ids = ids"
    using assms(2) by (simp add: filter_id_conv)
  ultimately show ?thesis using list_members [OF assms(1), of u] by simp
qed

end

end
