(* ===== verification/Sandbox_Claim.thy ===== *)
theory Sandbox_Claim
  imports Kube
begin

text \<open>
  File \<open>internal/backend/sandboxclaim.go\<close>: the backend for agent-sandbox and openshell, one
  \<open>SandboxClaim\<close> object per playwright-id.  It interprets the interfaces \<open>cr_backend\<close>,
  \<open>resource_naming\<close> and \<open>endpoint_backend\<close>.
\<close>

section \<open>State\<close>

definition sandboxClaimGVR :: GroupVersionResource where
  "sandboxClaimGVR = \<lparr>gvr_group = ''extensions.agents.x-k8s.io'', gvr_version = ''v1beta1'',
     gvr_resource = ''sandboxclaims''\<rparr>"

definition sandboxClaimAPIVersion :: string where
  "sandboxClaimAPIVersion = ''extensions.agents.x-k8s.io/v1beta1''"

record SandboxClaim =
  sc_namespace :: string
  sc_templateName :: string
  sc_warmPoolName :: string
  sc_port :: int
  sc_mcpPort :: int
  sc_labelKey :: string

definition NewSandboxClaim :: "string \<Rightarrow> string \<Rightarrow> string \<Rightarrow> int \<Rightarrow> int \<Rightarrow> string \<Rightarrow> SandboxClaim" where
  "NewSandboxClaim ns tmpl pool port mcp key =
     \<lparr>sc_namespace = ns, sc_templateName = tmpl, sc_warmPoolName = pool, sc_port = port,
      sc_mcpPort = mcp, sc_labelKey = key\<rparr>"

section \<open>Operations\<close>

definition claimName :: "string \<Rightarrow> string" where
  "claimName pid = ''pw-'' @ pid"

definition podMetadataLabelKey :: "SandboxClaim \<Rightarrow> string" where
  "podMetadataLabelKey s =
     (if strings_Contains (sc_labelKey s) ''/'' then sc_labelKey s
      else podUserLabelDomain @ sc_labelKey s)"

definition buildClaim :: "SandboxClaim \<Rightarrow> string \<Rightarrow> string \<Rightarrow> json_map" where
  "buildClaim s name pid =
     [''apiVersion'' \<mapsto> JStr sandboxClaimAPIVersion,
      ''kind'' \<mapsto> JStr ''SandboxClaim'',
      ''metadata'' \<mapsto> JMap [
        ''name'' \<mapsto> JStr name,
        ''namespace'' \<mapsto> JStr (sc_namespace s),
        ''labels'' \<mapsto> JMap [managedByLabel \<mapsto> JStr ''true'', sc_labelKey s \<mapsto> JStr pid]],
      ''spec'' \<mapsto> JMap [
        ''warmPoolRef'' \<mapsto> JMap [''name'' \<mapsto> JStr (sc_warmPoolName s)],
        ''additionalPodMetadata'' \<mapsto> JMap [
          ''labels'' \<mapsto> JMap [podMetadataLabelKey s \<mapsto> JStr pid]]]]"

text \<open>\<open>extractClaimEndpoint\<close>: \<open>None\<close> is its result \<open>("", false)\<close>.\<close>

definition ready_condition :: "json \<Rightarrow> bool" where
  "ready_condition c =
     (case c of JMap cm \<Rightarrow> field_is cm ''type'' ''Ready'' \<and> field_is cm ''status'' ''True'' | _ \<Rightarrow> False)"

fun first_ip :: "json list \<Rightarrow> string option" where
  "first_ip [] = None"
| "first_ip (v # vs) =
     (case v of JStr s \<Rightarrow> if s \<noteq> [] then Some s else first_ip vs | _ \<Rightarrow> first_ip vs)"

definition extractClaimEndpoint :: "unstructured \<Rightarrow> json_map \<Rightarrow> string option" where
  "extractClaimEndpoint u claim =
     (case NestedMap u claim [''status''] of
        (st, found, e) \<Rightarrow>
          if e \<noteq> None \<or> \<not> found then None
          else if \<not> list_ex ready_condition (fst (NestedSlice u st [''conditions''])) then None
          else first_ip (fst (NestedSlice u st [''sandbox'', ''podIPs''])))"

text \<open>The get-or-create part of \<open>Ensure\<close>, with the error it returns, if any.\<close>

definition sc_getOrCreate :: "'w dyn \<Rightarrow> SandboxClaim \<Rightarrow> string \<Rightarrow> ('w, err option) io" where
  "sc_getOrCreate dyn s pid w =
     (let name = claimName pid; ns = sc_namespace s
      in case dget dyn sandboxClaimGVR ns name w of
           (Inr _, w1) \<Rightarrow> (None, w1)
         | (Inl e, w1) \<Rightarrow>
             if \<not> isNotFound e then (Some (ErrWrap (''get SandboxClaim '' @ name) e), w1)
             else (case dcreate dyn sandboxClaimGVR ns (buildClaim s name pid) w1 of
                     (Inr _, w2) \<Rightarrow> (None, w2)
                   | (Inl e2, w2) \<Rightarrow>
                       if \<not> isAlreadyExists e2 then (Some (ErrWrap (''create SandboxClaim '' @ name) e2), w2)
                       else (case dget dyn sandboxClaimGVR ns name w2 of
                               (Inr _, w3) \<Rightarrow> (None, w3)
                             | (Inl e3, w3) \<Rightarrow> (Some (ErrWrap (''re-get SandboxClaim '' @ name) e3), w3))))"

definition sc_ready :: "unstructured \<Rightarrow> 'w dyn \<Rightarrow> SandboxClaim \<Rightarrow> string \<Rightarrow> ('w, string option result) io" where
  "sc_ready u dyn s name w =
     (case dget dyn sandboxClaimGVR (sc_namespace s) name w of
        (Inl e, w1) \<Rightarrow> (Inl e, w1)
      | (Inr cur, w1) \<Rightarrow> (Inr (extractClaimEndpoint u cur), w1))"

definition sc_Ensure ::
  "unstructured \<Rightarrow> 'w dyn \<Rightarrow> ('w, string) poller \<Rightarrow> SandboxClaim \<Rightarrow> string \<Rightarrow> ('w, Endpoint result) io" where
  "sc_Ensure u dyn poll s pid w =
     (case sc_getOrCreate dyn s pid w of
        (Some e, w1) \<Rightarrow> (Inl e, w1)
      | (None, w1) \<Rightarrow>
          (case poll (500 * Millisecond) True (sc_ready u dyn s (claimName pid)) w1 of
             (Inl e, w2) \<Rightarrow> (Inl (ErrWrap (''SandboxClaim '' @ claimName pid @ '' not ready'') e), w2)
           | (Inr ip, w2) \<Rightarrow>
               (Inr \<lparr>Host = ip, TargetActor = [], Port = sc_port s, MCPPort = sc_mcpPort s\<rparr>, w2)))"

definition sc_Delete :: "SandboxClaim \<Rightarrow> 'w dyn \<Rightarrow> string \<Rightarrow> ('w, err option) io" where
  "sc_Delete s dyn pid w =
     (case ddelete dyn sandboxClaimGVR (sc_namespace s) (claimName pid) w of
        (None, w1) \<Rightarrow> (None, w1)
      | (Some e, w1) \<Rightarrow>
          if \<not> isNotFound e then (Some (ErrWrap (''delete SandboxClaim '' @ claimName pid) e), w1)
          else (None, w1))"

fun labelled_ids :: "unstructured \<Rightarrow> string \<Rightarrow> json_map list \<Rightarrow> string list" where
  "labelled_ids u key [] = []"
| "labelled_ids u key (it # its) =
     (let pid = label_or_empty u it key
      in if pid \<noteq> [] then pid # labelled_ids u key its else labelled_ids u key its)"

definition sc_List :: "SandboxClaim \<Rightarrow> unstructured \<Rightarrow> 'w dyn \<Rightarrow> ('w, string list result) io" where
  "sc_List s u dyn w =
     (case dlist dyn sandboxClaimGVR (sc_namespace s) (managedByLabel @ ''=true'') w of
        (Inl e, w1) \<Rightarrow> (Inl (ErrWrap ''list SandboxClaims'' e), w1)
      | (Inr items, w1) \<Rightarrow> (Inr (labelled_ids u (sc_labelKey s) items), w1))"

section \<open>Interfaces\<close>

lemma labelled_ids_filter:
  "labelled_ids u key its = filter (\<lambda>i. i \<noteq> []) (map (\<lambda>it. label_or_empty u it key) its)"
  by (induction its) (simp_all add: Let_def)

interpretation claim_cr: cr_backend sandboxClaimGVR "sc_namespace s" "sc_labelKey s" claimName
  "sc_Delete s" "sc_List s" "\<lambda>n. ''delete SandboxClaim '' @ n" "''list SandboxClaims''" for s
  by unfold_locales
    (simp_all add: sc_Delete_def sc_List_def labelled_ids_filter split: prod.splits option.splits sum.splits)

interpretation claim_name: resource_naming claimName
  by unfold_locales (simp add: claimName_def)

definition claim_shape :: "SandboxClaim \<Rightarrow> string \<Rightarrow> Endpoint \<Rightarrow> bool" where
  "claim_shape s pid ep \<longleftrightarrow> TargetActor ep = [] \<and> Port ep = sc_port s \<and> MCPPort ep = sc_mcpPort s"

interpretation claim_ep: endpoint_backend "ensure_results (sc_Ensure u dyn poll s)" "claim_shape s" for u dyn poll s
  by (rule endpoint_backend_io)
    (auto simp: sc_Ensure_def claim_shape_def split: prod.splits option.splits sum.splits)

section \<open>Properties\<close>

lemma first_ip_Some: "first_ip vs = Some s \<Longrightarrow> s \<noteq> [] \<and> JStr s \<in> set vs"
  by (induction vs) (auto split: json.splits if_splits)

lemma first_ip_None: "first_ip vs = None \<longleftrightarrow> (\<forall>s. JStr s \<in> set vs \<longrightarrow> s = [])"
  by (induction vs) (auto split: json.splits)

text \<open>
  \<open>extractClaimEndpoint\<close> reports an address exactly when the claim's status has a condition
  \<open>Ready\<close> with status \<open>True\<close> and a non-empty string among \<open>sandbox.podIPs\<close>, and the address it
  reports is one of those strings.
\<close>

theorem extractClaimEndpoint_exact:
  assumes "unstructured_ok u" and "path_get claim [''status''] = Some (JMap st)"
  shows "(\<forall>ip. extractClaimEndpoint u claim = Some ip \<longrightarrow>
      ip \<noteq> [] \<and> (\<exists>xs. path_get st [''sandbox'', ''podIPs''] = Some (JList xs) \<and> JStr ip \<in> set xs)) \<and>
    ((\<exists>ip. extractClaimEndpoint u claim = Some ip) \<longleftrightarrow>
      (\<exists>cs. path_get st [''conditions''] = Some (JList cs) \<and> list_ex ready_condition cs) \<and>
      (\<exists>xs s. path_get st [''sandbox'', ''podIPs''] = Some (JList xs) \<and> JStr s \<in> set xs \<and> s \<noteq> []))"
proof -
  have m: "NestedMap u claim [''status''] = (st, True, None)"
  proof -
    have "NestedMap u claim [''status''] = (case path_get claim [''status''] of
        Some (JMap m) \<Rightarrow> (m, True, None)
      | None \<Rightarrow> (Map.empty, False, snd (snd (NestedMap u claim [''status''])))
      | _ \<Rightarrow> (Map.empty, False, Some (ErrExt ''not a map'')))"
      using assms(1) unfolding unstructured_ok_def by blast
    then show ?thesis using assms(2) by simp
  qed
  have s: "fst (NestedSlice u st p) = (case path_get st p of Some (JList xs) \<Rightarrow> xs | _ \<Rightarrow> [])" for p
    using assms(1) unfolding unstructured_ok_def by blast
  let ?ips = "fst (NestedSlice u st [''sandbox'', ''podIPs''])"
  have e: "extractClaimEndpoint u claim =
      (if list_ex ready_condition (fst (NestedSlice u st [''conditions''])) then first_ip ?ips else None)"
    by (simp add: extractClaimEndpoint_def m)
  have c: "list_ex ready_condition (fst (NestedSlice u st [''conditions''])) \<longleftrightarrow>
      (\<exists>cs. path_get st [''conditions''] = Some (JList cs) \<and> list_ex ready_condition cs)"
    by (simp add: s split: option.splits json.splits)
  have mem: "JStr x \<in> set ?ips \<longleftrightarrow>
      (\<exists>xs. path_get st [''sandbox'', ''podIPs''] = Some (JList xs) \<and> JStr x \<in> set xs)" for x
    by (cases "path_get st [''sandbox'', ''podIPs'']")
      (auto simp: s simp del: path_get.simps split: json.splits)
  have ex: "(\<exists>ip. first_ip ?ips = Some ip) \<longleftrightarrow> (\<exists>x. JStr x \<in> set ?ips \<and> x \<noteq> [])"
    using first_ip_None [of ?ips] by (metis not_Some_eq)
  show ?thesis
    unfolding e using c mem ex first_ip_Some [of ?ips] by (auto split: if_splits)
qed

definition claim_example :: json_map where
  "claim_example = [''status'' \<mapsto> JMap [
      ''conditions'' \<mapsto> JList [JMap [''type'' \<mapsto> JStr ''Ready'', ''status'' \<mapsto> JStr ''True'']],
      ''sandbox'' \<mapsto> JMap [''podIPs'' \<mapsto> JList [JStr [], JStr ''10.0.0.5'']]]]"

theorem extractClaimEndpoint_exact_witness:
  "\<exists>ip. extractClaimEndpoint std_unstructured claim_example = Some ip"
proof -
  obtain st where st: "path_get claim_example [''status''] = Some (JMap st)"
    and "path_get st [''conditions''] =
      Some (JList [JMap [''type'' \<mapsto> JStr ''Ready'', ''status'' \<mapsto> JStr ''True'']])"
    and "path_get st [''sandbox'', ''podIPs''] = Some (JList [JStr [], JStr ''10.0.0.5''])"
    by (simp add: claim_example_def)
  with extractClaimEndpoint_exact [OF std_unstructured_ok st] show ?thesis
    by (auto simp: ready_condition_def field_is_def)
qed

lemma extract_nonempty: "extractClaimEndpoint u claim = Some ip \<Longrightarrow> ip \<noteq> []"
  by (auto simp: extractClaimEndpoint_def dest: first_ip_Some split: prod.splits if_splits)

text \<open>
  A successful \<open>Ensure\<close> of the SandboxClaim backend returns an endpoint whose host was read
  from the claim of that playwright-id, in the last state of the cluster it observed, while the
  claim was ready; the host is not empty and the ports are the configured ones.
\<close>

theorem sc_Ensure_returns_ready_claim:
  assumes "poll_ok poll" and "sc_Ensure u dyn poll s pid w = (Inr ep, w')"
  shows "Host ep \<noteq> [] \<and> Port ep = sc_port s \<and> MCPPort ep = sc_mcpPort s \<and>
    (\<exists>w0 cur. dget dyn sandboxClaimGVR (sc_namespace s) (claimName pid) w0 = (Inr cur, w') \<and>
      extractClaimEndpoint u cur = Some (Host ep))"
proof -
  from assms(2) obtain w1 ip where
    p: "poll (500 * Millisecond) True (sc_ready u dyn s (claimName pid)) w1 = (Inr ip, w')"
    and ep: "ep = \<lparr>Host = ip, TargetActor = [], Port = sc_port s, MCPPort = sc_mcpPort s\<rparr>"
    by (auto simp: sc_Ensure_def split: prod.splits option.splits sum.splits)
  from poll_result [OF assms(1) p] obtain w0 where
    r: "sc_ready u dyn s (claimName pid) w0 = (Inr (Some ip), w')" by blast
  then obtain cur where "dget dyn sandboxClaimGVR (sc_namespace s) (claimName pid) w0 = (Inr cur, w')"
    and "extractClaimEndpoint u cur = Some ip"
    by (auto simp: sc_ready_def split: prod.splits sum.splits)
  then show ?thesis using ep extract_nonempty by auto
qed

text \<open>A cluster in which every claim is ready, for examples; the world counts the API calls.\<close>

definition ready_cluster :: "nat dyn" where
  "ready_cluster = \<lparr>dget = (\<lambda>g ns n w. (Inr claim_example, w + 1)), dcreate = (\<lambda>g ns ob w. (Inr ob, w + 1)),
     ddelete = (\<lambda>g ns n w. (Some (ErrStatus 404), w + 1)), dlist = (\<lambda>g ns sel w. (Inr [], w + 1))\<rparr>"

definition sc_example :: SandboxClaim where
  "sc_example = NewSandboxClaim ''agents'' ''pw'' ''pw'' 9222 9223 ''playwright-id''"

lemma sc_Ensure_example:
  "sc_Ensure std_unstructured ready_cluster poll_once sc_example ''alpha'' 0 =
     (Inr \<lparr>Host = ''10.0.0.5'', TargetActor = [], Port = 9222, MCPPort = 9223\<rparr>, 2)"
  by (simp add: sc_Ensure_def sc_getOrCreate_def ready_cluster_def poll_once_def sc_ready_def
      extractClaimEndpoint_def std_unstructured_def claim_example_def ready_condition_def field_is_def
      sc_example_def NewSandboxClaim_def)

theorem sc_Ensure_returns_ready_claim_witness:
  "\<exists>w0 cur. dget ready_cluster sandboxClaimGVR (sc_namespace sc_example) (claimName ''alpha'') w0 = (Inr cur, 2) \<and>
     extractClaimEndpoint std_unstructured cur = Some ''10.0.0.5''"
  using sc_Ensure_returns_ready_claim [OF poll_once_ok sc_Ensure_example] by simp

text \<open>
  \<open>Ensure\<close> creates a claim only when the API says there is none: unless the first \<open>Get\<close> fails
  with status 404, the get-or-create step never reaches \<open>Create\<close> (its outcome does not depend on
  it); an error other than 404 is returned, and losing the race to another creator (409) is not
  an error as long as the claim can be read again.
\<close>

theorem sc_creates_only_when_absent:
  "(\<forall>r w1 c. dget dyn sandboxClaimGVR (sc_namespace s) (claimName pid) w = (r, w1) \<and>
      (case r of Inr _ \<Rightarrow> True | Inl e \<Rightarrow> \<not> isNotFound e) \<longrightarrow>
      sc_getOrCreate (dyn\<lparr>dcreate := c\<rparr>) s pid w =
        (case r of Inr _ \<Rightarrow> None | Inl e \<Rightarrow> Some (ErrWrap (''get SandboxClaim '' @ claimName pid) e), w1)) \<and>
   (\<forall>e w1 e2 w2 ob w3.
      dget dyn sandboxClaimGVR (sc_namespace s) (claimName pid) w = (Inl e, w1) \<and> isNotFound e \<and>
      dcreate dyn sandboxClaimGVR (sc_namespace s) (buildClaim s (claimName pid) pid) w1 = (Inl e2, w2) \<and>
      isAlreadyExists e2 \<and> dget dyn sandboxClaimGVR (sc_namespace s) (claimName pid) w2 = (Inr ob, w3) \<longrightarrow>
      sc_getOrCreate dyn s pid w = (None, w3))"
  by (auto simp: sc_getOrCreate_def Let_def split: sum.splits)

theorem sc_creates_only_when_absent_witness:
  "sc_getOrCreate (ready_cluster\<lparr>dcreate := \<lambda>g ns ob w. (Inl (ErrStatus 500), w)\<rparr>) sc_example ''alpha'' 0
     = (None, 1)"
  using sc_creates_only_when_absent [of ready_cluster sc_example "''alpha''" 0]
  by (simp add: ready_cluster_def)

lemma buildClaim_label:
  "unstructured_ok u \<Longrightarrow> label_or_empty u (buildClaim s name pid) (sc_labelKey s) = pid"
  by (erule managed_label) (simp add: buildClaim_def)

text \<open>
  The ids survive the round trip through the cluster: if the API lists the claims that
  \<open>Ensure\<close> built for some non-empty ids, \<open>List\<close> returns exactly those ids in that order, whatever
  label key is configured.
\<close>

theorem sc_List_returns_ids_of_built_claims:
  assumes "unstructured_ok u" and "[] \<notin> set ids"
    and "dlist dyn sandboxClaimGVR (sc_namespace s) (managedByLabel @ ''=true'') w =
      (Inr (map (\<lambda>i. buildClaim s (claimName i) i) ids), w')"
  shows "sc_List s u dyn w = (Inr ids, w')"
  by (rule claim_cr.list_round_trip [OF assms(3)])
    (use assms(1,2) buildClaim_label in auto)

theorem sc_List_returns_ids_of_built_claims_witness:
  "sc_List sc_example std_unstructured (ready_cluster\<lparr>dlist := \<lambda>g ns sel w.
      (Inr (map (\<lambda>i. buildClaim sc_example (claimName i) i) [''alpha'', ''beta'']), w)\<rparr>) 0
    = (Inr [''alpha'', ''beta''], 0)"
  by (rule sc_List_returns_ids_of_built_claims [OF std_unstructured_ok]) simp_all

text \<open>
  What a claim carries: the label it asks to have stamped on the pod always has a domain
  prefix, as agent-sandbox requires, and is the configured key when that has one already; the
  configured template name does not occur in the claim at all, although the configuration
  documents it as the template the claim refers to.
\<close>

theorem buildClaim_contents:
  "CHR ''/'' \<in> set (podMetadataLabelKey s) \<and>
   (CHR ''/'' \<in> set (sc_labelKey s) \<longrightarrow> podMetadataLabelKey s = sc_labelKey s) \<and>
   path_get (buildClaim s name pid) [''spec'', ''additionalPodMetadata'', ''labels'', podMetadataLabelKey s]
     = Some (JStr pid) \<and>
   path_get (buildClaim s name pid) [''spec'', ''warmPoolRef'', ''name''] = Some (JStr (sc_warmPoolName s)) \<and>
   buildClaim (s\<lparr>sc_templateName := t\<rparr>) name pid = buildClaim s name pid"
  by (auto simp: buildClaim_def podMetadataLabelKey_def strings_Contains_char podUserLabelDomain_def)

theorem buildClaim_contents_witness:
  "podMetadataLabelKey (sc_example\<lparr>sc_labelKey := ''example.com/id''\<rparr>) = ''example.com/id''"
  using buildClaim_contents [of "sc_example\<lparr>sc_labelKey := ''example.com/id''\<rparr>"] by simp

end
