(* ===== verification/Kars.thy ===== *)
theory Kars
  imports Sandbox_Claim
begin

text \<open>
  File \<open>internal/backend/karssandbox.go\<close>: one \<open>KarsSandbox\<close> object per playwright-id in the
  namespace of the proxy; the controller runs the pod in a namespace of its own, into which the
  backend opens exactly the browser port to the proxy.  The typed Kubernetes client and
  \<open>apiequality.Semantic.DeepEqual\<close> are arguments.
\<close>

section \<open>State\<close>

definition karsSandboxGVR :: GroupVersionResource where
  "karsSandboxGVR = \<lparr>gvr_group = ''kars.azure.com'', gvr_version = ''v1alpha1'', gvr_resource = ''karssandboxes''\<rparr>"

definition karsSandboxAPIVersion :: string where
  "karsSandboxAPIVersion = ''kars.azure.com/v1alpha1''"

definition karsSandboxComponentLabel :: string where
  "karsSandboxComponentLabel = ''kars.azure.com/component=sandbox''"

record KarsSandboxBackend =
  kb_namespace :: string
  kb_inferenceRef :: string
  kb_image :: string
  kb_port :: int
  kb_labelKey :: string

definition NewKarsSandbox :: "string \<Rightarrow> string \<Rightarrow> string \<Rightarrow> int \<Rightarrow> string \<Rightarrow> KarsSandboxBackend" where
  "NewKarsSandbox ns iref img port key =
     \<lparr>kb_namespace = ns, kb_inferenceRef = iref, kb_image = img, kb_port = port, kb_labelKey = key\<rparr>"

text \<open>The parts of the API types the file uses: network policies and pods.\<close>

record NetworkPolicyPeer =
  peer_namespaceSelector :: "(string \<times> string) list"
  peer_podSelector :: "(string \<times> string) list"

record NetworkPolicyPort =
  npp_protocol :: string
  npp_port :: int

record IngressRule =
  ing_from :: "NetworkPolicyPeer list"
  ing_ports :: "NetworkPolicyPort list"

record NetworkPolicySpec =
  np_podSelector :: "(string \<times> string) list"
  np_policyTypes :: "string list"
  np_ingress :: "IngressRule list"
  np_egress_rules :: nat \<comment> \<open>number of egress rules\<close>

record NetworkPolicy =
  np_name :: string
  np_namespace :: string
  np_labels :: "(string \<times> string) list"
  np_spec :: NetworkPolicySpec

record KPod =
  kp_deleting :: bool
  kp_phase :: string
  kp_IP :: string
  kp_conditions :: "(string \<times> string) list"

record 'w k8s =
  npCreate :: "string \<Rightarrow> NetworkPolicy \<Rightarrow> ('w, NetworkPolicy result) io"
  npGet :: "string \<Rightarrow> string \<Rightarrow> ('w, NetworkPolicy result) io"
  podList :: "string \<Rightarrow> string \<Rightarrow> ('w, KPod list result) io"
  specEqual :: "NetworkPolicySpec \<Rightarrow> NetworkPolicySpec \<Rightarrow> bool"

section \<open>Operations\<close>

text \<open>The conversion \<open>int32(x)\<close>.\<close>

definition int32 :: "int \<Rightarrow> int" where
  "int32 x = (x + 2 ^ 31) mod 2 ^ 32 - 2 ^ 31"

definition karsName :: "string \<Rightarrow> string" where
  "karsName pid = ''pw-'' @ pid"

definition kars_buildCR :: "KarsSandboxBackend \<Rightarrow> string \<Rightarrow> string \<Rightarrow> json_map" where
  "kars_buildCR k name pid =
     [''apiVersion'' \<mapsto> JStr karsSandboxAPIVersion,
      ''kind'' \<mapsto> JStr ''KarsSandbox'',
      ''metadata'' \<mapsto> JMap [
        ''name'' \<mapsto> JStr name,
        ''namespace'' \<mapsto> JStr (kb_namespace k),
        ''labels'' \<mapsto> JMap [managedByLabel \<mapsto> JStr ''true'', kb_labelKey k \<mapsto> JStr pid]],
      ''spec'' \<mapsto> JMap [
        ''runtime'' \<mapsto> JMap [
          ''kind'' \<mapsto> JStr ''BYO'',
          ''byo'' \<mapsto> JMap [
            ''image'' \<mapsto> JStr (kb_image k),
            ''command'' \<mapsto> JList [JStr ''node'', JStr ''/server.js''],
            ''contractVersion'' \<mapsto> JStr ''v1'',
            ''env'' \<mapsto> JList [
              JMap [''name'' \<mapsto> JStr ''PORT'', ''value'' \<mapsto> JStr (strconv_Itoa (kb_port k))],
              JMap [''name'' \<mapsto> JStr ''NODE_PATH'', ''value'' \<mapsto> JStr ''/usr/local/lib/node_modules''],
              JMap [''name'' \<mapsto> JStr ''PLAYWRIGHT_BROWSERS_PATH'', ''value'' \<mapsto> JStr ''/ms-playwright''],
              JMap [''name'' \<mapsto> JStr ''CHROMIUM_ARGS'', ''value'' \<mapsto>
                JStr ''--no-sandbox,--disable-setuid-sandbox,--disable-dev-shm-usage,--disable-gpu'']]]],
        ''sandbox'' \<mapsto> JMap [
          ''isolation'' \<mapsto> JStr ''standard'',
          ''runAsNonRoot'' \<mapsto> JBool True,
          ''allowPrivilegeEscalation'' \<mapsto> JBool False],
        ''inferenceRef'' \<mapsto> JMap [''name'' \<mapsto> JStr (kb_inferenceRef k)],
        ''networkPolicy'' \<mapsto> JMap [
          ''defaultDeny'' \<mapsto> JBool False,
          ''egressMode'' \<mapsto> JStr ''Learn'']]]"

definition kars_getOrCreate :: "'w dyn \<Rightarrow> KarsSandboxBackend \<Rightarrow> string \<Rightarrow> ('w, err option) io" where
  "kars_getOrCreate dyn k pid w =
     (let name = karsName pid; ns = kb_namespace k
      in case dget dyn karsSandboxGVR ns name w of
           (Inr _, w1) \<Rightarrow> (None, w1)
         | (Inl e, w1) \<Rightarrow>
             if \<not> isNotFound e then (Some (ErrWrap (''get KarsSandbox '' @ name) e), w1)
             else (case dcreate dyn karsSandboxGVR ns (kars_buildCR k name pid) w1 of
                     (Inr _, w2) \<Rightarrow> (None, w2)
                   | (Inl e2, w2) \<Rightarrow>
                       if \<not> isAlreadyExists e2 then (Some (ErrWrap (''create KarsSandbox '' @ name) e2), w2)
                       else (None, w2)))"

text \<open>One poll of \<open>waitForRunning\<close>; the value is the namespace of the sandbox.\<close>

definition kars_phase :: "unstructured \<Rightarrow> string \<Rightarrow> json_map \<Rightarrow> string option result" where
  "kars_phase u name cur =
     (let phase = fst (NestedString u cur [''status'', ''phase''])
      in if phase = ''Running'' then
           (let ns = fst (NestedString u cur [''status'', ''namespace''])
            in if ns = [] then Inr None else Inr (Some ns))
         else if phase = ''Degraded'' \<or> phase = ''Failed'' then
           Inl (ErrMsg (''KarsSandbox '' @ name @ '' reached terminal phase '' @ phase))
         else Inr None)"

definition kars_running :: "unstructured \<Rightarrow> 'w dyn \<Rightarrow> KarsSandboxBackend \<Rightarrow> string \<Rightarrow> ('w, string option result) io" where
  "kars_running u dyn k name w =
     (case dget dyn karsSandboxGVR (kb_namespace k) name w of
        (Inl e, w1) \<Rightarrow> (Inl e, w1)
      | (Inr cur, w1) \<Rightarrow> (kars_phase u name cur, w1))"

definition kars_waitForRunning ::
  "unstructured \<Rightarrow> 'w dyn \<Rightarrow> ('w, string) poller \<Rightarrow> KarsSandboxBackend \<Rightarrow> string \<Rightarrow> ('w, string result) io" where
  "kars_waitForRunning u dyn poll k name w =
     (case poll (500 * Millisecond) True (kars_running u dyn k name) w of
        (Inl e, w1) \<Rightarrow> (Inl (ErrWrap (''KarsSandbox '' @ name @ '' did not reach Running'') e), w1)
      | (Inr ns, w1) \<Rightarrow> (Inr ns, w1))"

definition desired_policy :: "KarsSandboxBackend \<Rightarrow> string \<Rightarrow> string \<Rightarrow> NetworkPolicy" where
  "desired_policy k ns name =
     \<lparr>np_name = ''playwright-proxy-ingress'', np_namespace = ns, np_labels = [(managedByLabel, ''true'')],
      np_spec = \<lparr>
        np_podSelector = [(''kars.azure.com/sandbox'', name)],
        np_policyTypes = [''Ingress''],
        np_ingress = [\<lparr>
          ing_from = [\<lparr>
            peer_namespaceSelector = [(''kubernetes.io/metadata.name'', kb_namespace k)],
            peer_podSelector = [(''app.kubernetes.io/name'', ''playwright-proxy'')]\<rparr>],
          ing_ports = [\<lparr>npp_protocol = ''TCP'', npp_port = int32 (kb_port k)\<rparr>]\<rparr>],
        np_egress_rules = 0\<rparr>\<rparr>"

definition ensureProxyIngress :: "'w k8s \<Rightarrow> KarsSandboxBackend \<Rightarrow> string \<Rightarrow> string \<Rightarrow> ('w, err option) io" where
  "ensureProxyIngress cl k ns name w =
     (let desired = desired_policy k ns name;
          (r, w1) = npCreate cl ns desired w;
          (r, w1) = (case r of
             Inl e \<Rightarrow> if isAlreadyExists e then npGet cl ns (np_name desired) w1 else (r, w1)
           | Inr _ \<Rightarrow> (r, w1))
      in case r of
           Inl e \<Rightarrow> (Some (ErrWrap (''ensure KARS browser ingress in '' @ ns) e), w1)
         | Inr existing \<Rightarrow>
             if \<not> specEqual cl (np_spec existing) (np_spec desired)
             then (Some (ErrMsg (''KARS browser ingress policy in '' @ ns @
                    '' differs from proxy configuration; reconcile it explicitly'')), w1)
             else (None, w1))"

text \<open>One poll of \<open>waitForPodIP\<close>: the first pod that is live, running, addressed and ready.\<close>

definition pod_ready :: "KPod \<Rightarrow> bool" where
  "pod_ready p \<longleftrightarrow> \<not> kp_deleting p \<and> kp_phase p = ''Running'' \<and> kp_IP p \<noteq> [] \<and>
     list_ex (\<lambda>c. fst c = ''Ready'' \<and> snd c = ''True'') (kp_conditions p)"

definition kars_podIP :: "'w k8s \<Rightarrow> string \<Rightarrow> ('w, string option result) io" where
  "kars_podIP cl ns w =
     (case podList cl ns karsSandboxComponentLabel w of
        (Inl e, w1) \<Rightarrow> (Inl e, w1)
      | (Inr pods, w1) \<Rightarrow> (Inr (map_option kp_IP (find pod_ready pods)), w1))"

definition waitForPodIP :: "'w k8s \<Rightarrow> ('w, string) poller \<Rightarrow> string \<Rightarrow> ('w, string result) io" where
  "waitForPodIP cl poll ns w =
     (case poll (500 * Millisecond) True (kars_podIP cl ns) w of
        (Inl e, w1) \<Rightarrow> (Inl (ErrWrap (''no running pod found in '' @ ns) e), w1)
      | (Inr ip, w1) \<Rightarrow> (Inr ip, w1))"

definition kars_Ensure ::
  "unstructured \<Rightarrow> 'w dyn \<Rightarrow> 'w k8s \<Rightarrow> ('w, string) poller \<Rightarrow> KarsSandboxBackend \<Rightarrow> string \<Rightarrow> ('w, Endpoint result) io" where
  "kars_Ensure u dyn cl poll k pid w =
     (case kars_getOrCreate dyn k pid w of
        (Some e, w1) \<Rightarrow> (Inl e, w1)
      | (None, w1) \<Rightarrow>
     (case kars_waitForRunning u dyn poll k (karsName pid) w1 of
        (Inl e, w2) \<Rightarrow> (Inl e, w2)
      | (Inr ns, w2) \<Rightarrow>
     (case ensureProxyIngress cl k ns (karsName pid) w2 of
        (Some e, w3) \<Rightarrow> (Inl e, w3)
      | (None, w3) \<Rightarrow>
     (case waitForPodIP cl poll ns w3 of
        (Inl e, w4) \<Rightarrow> (Inl e, w4)
      | (Inr ip, w4) \<Rightarrow> (Inr \<lparr>Host = ip, TargetActor = [], Port = kb_port k, MCPPort = 0\<rparr>, w4)))))"

definition kars_Delete :: "KarsSandboxBackend \<Rightarrow> 'w dyn \<Rightarrow> string \<Rightarrow> ('w, err option) io" where
  "kars_Delete k dyn pid w =
     (case ddelete dyn karsSandboxGVR (kb_namespace k) (karsName pid) w of
        (None, w1) \<Rightarrow> (None, w1)
      | (Some e, w1) \<Rightarrow>
          if \<not> isNotFound e then (Some (ErrWrap (''delete KarsSandbox '' @ karsName pid) e), w1)
          else (None, w1))"

definition kars_List :: "KarsSandboxBackend \<Rightarrow> unstructured \<Rightarrow> 'w dyn \<Rightarrow> ('w, string list result) io" where
  "kars_List k u dyn w =
     (case dlist dyn karsSandboxGVR (kb_namespace k) (managedByLabel @ ''=true'') w of
        (Inl e, w1) \<Rightarrow> (Inl (ErrWrap ''list KarsSandboxes'' e), w1)
      | (Inr items, w1) \<Rightarrow> (Inr (labelled_ids u (kb_labelKey k) items), w1))"

section \<open>Interfaces\<close>

interpretation kars_cr: cr_backend karsSandboxGVR "kb_namespace k" "kb_labelKey k" karsName
  "kars_Delete k" "kars_List k" "\<lambda>n. ''delete KarsSandbox '' @ n" "''list KarsSandboxes''" for k
  by unfold_locales
    (simp_all add: kars_Delete_def kars_List_def labelled_ids_filter split: prod.splits option.splits sum.splits)

interpretation kars_name: resource_naming karsName
  by unfold_locales (simp add: karsName_def)

definition kars_shape :: "KarsSandboxBackend \<Rightarrow> string \<Rightarrow> Endpoint \<Rightarrow> bool" where
  "kars_shape k pid ep \<longleftrightarrow> TargetActor ep = [] \<and> Port ep = kb_port k \<and> MCPPort ep = 0"

interpretation kars_ep: endpoint_backend "ensure_results (kars_Ensure u dyn cl poll k)" "kars_shape k" for u dyn cl poll k
  by (rule endpoint_backend_io)
    (auto simp: kars_Ensure_def kars_shape_def split: prod.splits option.splits sum.splits)

section \<open>Properties\<close>

lemma int32_id: "- (2 ^ 31) \<le> x \<Longrightarrow> x < 2 ^ 31 \<Longrightarrow> int32 x = x"
  by (simp add: int32_def)

lemma ensureProxyIngress_ok:
  assumes "ensureProxyIngress cl k ns name w = (None, w')"
  shows "\<exists>existing. specEqual cl (np_spec existing) (np_spec (desired_policy k ns name)) \<and>
    (npCreate cl ns (desired_policy k ns name) w = (Inr existing, w') \<or>
     (\<exists>e w1. npCreate cl ns (desired_policy k ns name) w = (Inl e, w1) \<and> isAlreadyExists e \<and>
        npGet cl ns ''playwright-proxy-ingress'' w1 = (Inr existing, w')))"
  using assms
  by (auto simp: ensureProxyIngress_def Let_def desired_policy_def
      split: prod.splits sum.splits if_splits)

text \<open>
  C34.  The browser port is opened to the proxy only: the policy the backend wants admits ingress
  from one peer, the proxy's pods in the proxy's namespace, on one TCP port, the configured one,
  selects only the pods of this sandbox and has no egress rule; and \<open>ensureProxyIngress\<close> succeeds
  only if the policy it created, or found in place, has an equal specification, so a conflicting
  policy of an operator is reported and never replaced.
\<close>

theorem proxy_ingress_is_minimal:
  assumes "1 \<le> kb_port k" and "kb_port k \<le> 65535" and "ensureProxyIngress cl k ns name w = (None, w')"
  shows "\<exists>existing spec. specEqual cl (np_spec existing) spec \<and>
    spec = \<lparr>np_podSelector = [(''kars.azure.com/sandbox'', name)], np_policyTypes = [''Ingress''],
      np_ingress = [\<lparr>
        ing_from = [\<lparr>peer_namespaceSelector = [(''kubernetes.io/metadata.name'', kb_namespace k)],
                     peer_podSelector = [(''app.kubernetes.io/name'', ''playwright-proxy'')]\<rparr>],
        ing_ports = [\<lparr>npp_protocol = ''TCP'', npp_port = kb_port k\<rparr>]\<rparr>],
      np_egress_rules = 0\<rparr> \<and>
    (npCreate cl ns (desired_policy k ns name) w = (Inr existing, w') \<or>
     (\<exists>e w1. npCreate cl ns (desired_policy k ns name) w = (Inl e, w1) \<and> isAlreadyExists e \<and>
        npGet cl ns ''playwright-proxy-ingress'' w1 = (Inr existing, w')))"
proof -
  have "int32 (kb_port k) = kb_port k"
    using assms(1,2) by (intro int32_id) auto
  then show ?thesis
    using ensureProxyIngress_ok [OF assms(3)] by (simp add: desired_policy_def)
qed

definition kars_example :: KarsSandboxBackend where
  "kars_example = NewKarsSandbox ''agents'' ''policy'' ''pw:1'' 9222 ''playwright-id''"

definition kars_client :: "nat k8s" where
  "kars_client = \<lparr>npCreate = (\<lambda>ns p w. (Inr p, w + 1)), npGet = (\<lambda>ns n w. (Inl (ErrStatus 404), w + 1)),
     podList = (\<lambda>ns sel w. (Inr [
        \<lparr>kp_deleting = False, kp_phase = ''Running'', kp_IP = ''10.0.0.2'', kp_conditions = []\<rparr>,
        \<lparr>kp_deleting = False, kp_phase = ''Running'', kp_IP = ''10.0.0.3'',
         kp_conditions = [(''Ready'', ''True'')]\<rparr>], w + 1)),
     specEqual = (\<lambda>a b. a = b)\<rparr>"

lemma ingress_example: "ensureProxyIngress kars_client kars_example ''kars-pw-alpha'' ''pw-alpha'' 0 = (None, 1)"
  by (simp add: ensureProxyIngress_def kars_client_def Let_def)

theorem proxy_ingress_is_minimal_witness:
  "\<exists>existing w1. npCreate kars_client ''kars-pw-alpha''
      (desired_policy kars_example ''kars-pw-alpha'' ''pw-alpha'') 0 = (Inr existing, w1) \<and>
    map npp_port (ing_ports (hd (np_ingress (np_spec existing)))) = [9222]"
  using proxy_ingress_is_minimal [OF _ _ ingress_example]
  by (auto simp: kars_example_def NewKarsSandbox_def kars_client_def)

text \<open>
  C33.  A successful \<open>Ensure\<close> of the KARS backend went through all its gates: the \<open>KarsSandbox\<close> of
  that playwright-id was observed in phase \<open>Running\<close> with a namespace, the ingress policy was
  ensured in exactly that namespace, and the host is the address of a pod listed in it that was
  not being deleted, running and ready.
\<close>

theorem kars_Ensure_passes_gates:
  assumes "poll_ok poll" and "kars_Ensure u dyn cl poll k pid w = (Inr ep, w')"
  shows "Port ep = kb_port k \<and> MCPPort ep = 0 \<and>
    (\<exists>ns cur wa wb wc wd we pods p.
      dget dyn karsSandboxGVR (kb_namespace k) (karsName pid) wa = (Inr cur, wb) \<and>
      fst (NestedString u cur [''status'', ''phase'']) = ''Running'' \<and>
      fst (NestedString u cur [''status'', ''namespace'']) = ns \<and> ns \<noteq> [] \<and>
      ensureProxyIngress cl k ns (karsName pid) wc = (None, wd) \<and>
      podList cl ns karsSandboxComponentLabel we = (Inr pods, w') \<and>
      p \<in> set pods \<and> pod_ready p \<and> Host ep = kp_IP p)"
proof -
  from assms(2) obtain w1 ns w2 w3 ip where
    r: "kars_waitForRunning u dyn poll k (karsName pid) w1 = (Inr ns, w2)"
    and i: "ensureProxyIngress cl k ns (karsName pid) w2 = (None, w3)"
    and p: "waitForPodIP cl poll ns w3 = (Inr ip, w')"
    and ep: "ep = \<lparr>Host = ip, TargetActor = [], Port = kb_port k, MCPPort = 0\<rparr>"
    by (auto simp: kars_Ensure_def split: prod.splits option.splits sum.splits)
  from r have "poll (500 * Millisecond) True (kars_running u dyn k (karsName pid)) w1 = (Inr ns, w2)"
    by (auto simp: kars_waitForRunning_def split: prod.splits sum.splits)
  from poll_result [OF assms(1) this] obtain wa where
    "kars_running u dyn k (karsName pid) wa = (Inr (Some ns), w2)" by blast
  then obtain cur where cur: "dget dyn karsSandboxGVR (kb_namespace k) (karsName pid) wa = (Inr cur, w2)"
    and ph: "kars_phase u (karsName pid) cur = Inr (Some ns)"
    by (auto simp: kars_running_def split: prod.splits sum.splits)
  from ph have ns: "fst (NestedString u cur [''status'', ''phase'']) = ''Running''"
    "fst (NestedString u cur [''status'', ''namespace'']) = ns" "ns \<noteq> []"
    by (auto simp: kars_phase_def Let_def split: if_splits)
  from p have "poll (500 * Millisecond) True (kars_podIP cl ns) w3 = (Inr ip, w')"
    by (auto simp: waitForPodIP_def split: prod.splits sum.splits)
  from poll_result [OF assms(1) this] obtain we where
    "kars_podIP cl ns we = (Inr (Some ip), w')" by blast
  then obtain pods q where "podList cl ns karsSandboxComponentLabel we = (Inr pods, w')"
    and "find pod_ready pods = Some q" "ip = kp_IP q"
    by (auto simp: kars_podIP_def split: prod.splits sum.splits)
  with cur ns i ep find_Some_D show ?thesis by fastforce
qed

definition kars_cluster :: "nat dyn" where
  "kars_cluster = ready_cluster\<lparr>dget := \<lambda>g ns n w. (Inr [''status'' \<mapsto> JMap [
      ''phase'' \<mapsto> JStr ''Running'', ''namespace'' \<mapsto> JStr ''kars-pw-alpha'']], w + 1)\<rparr>"

lemma kars_Ensure_example:
  "kars_Ensure std_unstructured kars_cluster kars_client poll_once kars_example ''alpha'' 0 =
     (Inr \<lparr>Host = ''10.0.0.3'', TargetActor = [], Port = 9222, MCPPort = 0\<rparr>, 4)"
  by (simp add: kars_Ensure_def kars_getOrCreate_def kars_cluster_def kars_waitForRunning_def
      poll_once_def kars_running_def kars_phase_def std_unstructured_def ensureProxyIngress_def
      kars_client_def waitForPodIP_def kars_podIP_def pod_ready_def kars_example_def NewKarsSandbox_def)

theorem kars_Ensure_passes_gates_witness:
  "\<exists>we pods p. podList kars_client ''kars-pw-alpha'' karsSandboxComponentLabel we = (Inr pods, 4) \<and>
     p \<in> set pods \<and> pod_ready p \<and> kp_IP p = ''10.0.0.3''"
proof -
  have "fst (NestedString std_unstructured cur [''status'', ''namespace'']) = ''kars-pw-alpha''"
    if "dget kars_cluster karsSandboxGVR (kb_namespace kars_example) (karsName ''alpha'') wa = (Inr cur, wb)"
    for cur wa wb
    using that by (auto simp: kars_cluster_def std_unstructured_def)
  with kars_Ensure_passes_gates [OF poll_once_ok kars_Ensure_example] show ?thesis by fastforce
qed

end
