(* ===== verification/Sha256.thy ===== *)
theory Sha256
  imports Go_Lib "HOL-Library.Word"
begin

text \<open>
  \<open>crypto/sha256.Sum256\<close> (FIPS 180-4) and the \<open>%x\<close> verb of \<open>fmt\<close> on its result, which the isola
  backend uses to shorten resource names.
\<close>

unbundle bit_operations_syntax

type_synonym u32 = "32 word"

section \<open>Constants\<close>

text \<open>The fractional parts of the cube and square roots of the first primes, in decimal.\<close>

definition sha_K :: "u32 list" where
  "sha_K =
    [1116352408, 1899447441, 3049323471, 3921009573, 961987163, 1508970993, 2453635748, 2870763221,
     3624381080, 310598401, 607225278, 1426881987, 1925078388, 2162078206, 2614888103, 3248222580,
     3835390401, 4022224774, 264347078, 604807628, 770255983, 1249150122, 1555081692, 1996064986,
     2554220882, 2821834349, 2952996808, 3210313671, 3336571891, 3584528711, 113926993, 338241895,
     666307205, 773529912, 1294757372, 1396182291, 1695183700, 1986661051, 2177026350, 2456956037,
     2730485921, 2820302411, 3259730800, 3345764771, 3516065817, 3600352804, 4094571909, 275423344,
     430227734, 506948616, 659060556, 883997877, 958139571, 1322822218, 1537002063, 1747873779,
     1955562222, 2024104815, 2227730452, 2361852424, 2428436474, 2756734187, 3204031479, 3329325298]"

definition sha_H0 :: "u32 list" where
  "sha_H0 = [1779033703, 3144134277, 1013904242, 2773480762, 1359893119, 2600822924, 528734635, 1541459225]"

section \<open>Compression\<close>

definition big_sigma0 :: "u32 \<Rightarrow> u32" where
  "big_sigma0 x = word_rotr 2 x XOR word_rotr 13 x XOR word_rotr 22 x"

definition big_sigma1 :: "u32 \<Rightarrow> u32" where
  "big_sigma1 x = word_rotr 6 x XOR word_rotr 11 x XOR word_rotr 25 x"

definition small_sigma0 :: "u32 \<Rightarrow> u32" where
  "small_sigma0 x = word_rotr 7 x XOR word_rotr 18 x XOR drop_bit 3 x"

definition small_sigma1 :: "u32 \<Rightarrow> u32" where
  "small_sigma1 x = word_rotr 17 x XOR word_rotr 19 x XOR drop_bit 10 x"

definition sha_ch :: "u32 \<Rightarrow> u32 \<Rightarrow> u32 \<Rightarrow> u32" where
  "sha_ch x y z = (x AND y) XOR (NOT x AND z)"

definition sha_maj :: "u32 \<Rightarrow> u32 \<Rightarrow> u32 \<Rightarrow> u32" where
  "sha_maj x y z = (x AND y) XOR (x AND z) XOR (y AND z)"

text \<open>The message schedule, extended one word at a time.\<close>

definition sched_step :: "u32 list \<Rightarrow> u32 list" where
  "sched_step ws =
     (let t = length ws
      in ws @ [small_sigma1 (ws ! (t - 2)) + ws ! (t - 7) + small_sigma0 (ws ! (t - 15)) + ws ! (t - 16)])"

definition sha_round :: "u32 \<times> u32 \<Rightarrow> u32 list \<Rightarrow> u32 list" where
  "sha_round kw st =
     (case st of
        [a, b, c, d, e, f, g, h] \<Rightarrow>
          (let t1 = h + big_sigma1 e + sha_ch e f g + fst kw + snd kw;
               t2 = big_sigma0 a + sha_maj a b c
           in [t1 + t2, a, b, c, d + t1, e, f, g])
      | _ \<Rightarrow> st)"

definition compress :: "u32 list \<Rightarrow> u32 list \<Rightarrow> u32 list" where
  "compress block hs = map2 (+) hs (fold sha_round (zip sha_K ((sched_step ^^ 48) block)) hs)"

section \<open>Padding and digest\<close>

definition be_word :: "nat list \<Rightarrow> u32" where
  "be_word bs = of_nat (foldl (\<lambda>n b. n * 256 + b) 0 bs)"

definition be_bytes :: "nat \<Rightarrow> nat \<Rightarrow> nat list" where
  "be_bytes k n = map (\<lambda>i. n div 256 ^ (k - 1 - i) mod 256) [0..<k]"

definition sha_pad :: "nat list \<Rightarrow> nat list" where
  "sha_pad bs =
     bs @ [128] @ replicate ((119 - length bs mod 64) mod 64) 0 @ be_bytes 8 (8 * length bs)"

fun chunks :: "nat \<Rightarrow> nat \<Rightarrow> 'a list \<Rightarrow> 'a list list" where
  "chunks 0 k xs = []"
| "chunks (Suc n) k xs = take k xs # chunks n k (drop k xs)"

definition sha256_words :: "string \<Rightarrow> u32 list" where
  "sha256_words s =
     (let p = sha_pad (map of_char s)
      in foldl (\<lambda>hs b. compress (map be_word (chunks 16 4 b)) hs) sha_H0 (chunks (length p div 64) 64 p))"

definition sha256_Sum256 :: "string \<Rightarrow> nat list" where
  "sha256_Sum256 s = concat (map (\<lambda>w. be_bytes 4 (unat w)) (sha256_words s))"

definition hex_digit :: "nat \<Rightarrow> char" where
  "hex_digit d = (if d < 10 then char_of (48 + d) else char_of (87 + d))"

definition hex_bytes :: "nat list \<Rightarrow> string" where
  "hex_bytes bs = concat (map (\<lambda>b. [hex_digit (b div 16), hex_digit (b mod 16)]) bs)"

section \<open>Length of the digest\<close>

lemma length_sha_round [simp]: "length (sha_round kw st) = length st"
  by (simp add: sha_round_def Let_def split: list.splits)

lemma length_sched [simp]: "length ((sched_step ^^ n) block) = length block + n"
  by (induction n) (simp_all add: sched_step_def Let_def)

lemma length_rounds [simp]: "length (fold sha_round kws st) = length st"
  by (induction kws arbitrary: st) simp_all

lemma length_compress [simp]: "length (compress block hs) = length hs"
  by (simp add: compress_def)

lemma length_sha256_words: "length (sha256_words s) = 8"
proof -
  have "length (foldl (\<lambda>hs b. compress (f b) hs) h bs) = length h" for h bs and f :: "nat list \<Rightarrow> u32 list"
    by (induction bs arbitrary: h) simp_all
  then show ?thesis by (simp add: sha256_words_def Let_def sha_H0_def)
qed

lemma be_bytes_range: "b \<in> set (be_bytes k n) \<Longrightarrow> b < 256"
  by (auto simp: be_bytes_def)

lemma Sum256_length: "length (sha256_Sum256 s) = 32"
proof -
  have "length (concat (map (\<lambda>w. be_bytes 4 (unat w)) ws)) = 4 * length ws" for ws :: "u32 list"
    by (induction ws) (simp_all add: be_bytes_def)
  then show ?thesis by (simp add: sha256_Sum256_def length_sha256_words)
qed

lemma Sum256_range: "b \<in> set (sha256_Sum256 s) \<Longrightarrow> b < 256"
  by (auto simp: sha256_Sum256_def dest: be_bytes_range)

lemma hex_bytes_length: "length (hex_bytes bs) = 2 * length bs"
  by (induction bs) (simp_all add: hex_bytes_def)

end
