(* ===== verification/Isola.thy ===== *)
theory Isola
  imports Sandbox_Claim Sha256
begin

text \<open>
  File \<open>internal/backend/isola.go\<close>: one isola \<open>Sandbox\<close> object per playwright-id, all in one
  shared namespace, with names of at most 47 characters.  The name is the id itself where it fits
  and a truncated SHA-256 otherwise.  It interprets \<open>cr_backend\<close> and \<open>endpoint_backend\<close>; it does
  not satisfy \<open>resource_naming\<close>, and the theorems say exactly where it fails to.  The text of the
  verb \<open>%v\<close> on a JSON value, which occurs in one error message only, is the argument \<open>fv\<close>.
\<close>

section \<open>State\<close>

definition isolaSandboxGVR :: GroupVersionResource where
  "isolaSandboxGVR = \<lparr>gvr_group = ''sandbox.isola.run'', gvr_version = ''v1alpha1'', gvr_resource = ''sandboxes''\<rparr>"

definition isolaSandboxAPIVersion :: string where
  "isolaSandboxAPIVersion = ''sandbox.isola.run/v1alpha1''"

definition isolaMaxNameLen :: nat where
  "isolaMaxNameLen = 47"

definition isolaTerminalReasons :: "string \<Rightarrow> bool" where
  "isolaTerminalReasons r \<longleftrightarrow>
     r \<in> {''PodFailed'', ''PodSucceeded'', ''PodCreationFailed'', ''StartupTimeoutExceeded'', ''InvalidRuntime''}"

record IsolaBackend =
  ib_namespace :: string
  ib_image :: string
  ib_port :: int
  ib_allowedEgressCIDRs :: "string list"
  ib_labelKey :: string

definition NewIsolaBackend :: "string \<Rightarrow> string \<Rightarrow> int \<Rightarrow> string list \<Rightarrow> string \<Rightarrow> IsolaBackend" where
  "NewIsolaBackend ns img port cidrs key =
     \<lparr>ib_namespace = ns, ib_image = img, ib_port = port, ib_allowedEgressCIDRs = cidrs, ib_labelKey = key\<rparr>"

section \<open>Operations\<close>

text \<open>
  The loop over the runes of the string, on bytes: every byte of a rune outside ASCII, and the
  replacement character for malformed UTF-8, is outside the accepted ranges as well.
\<close>

fun isDNS1123 :: "string \<Rightarrow> bool" where
  "isDNS1123 [] = True"
| "isDNS1123 (r # s) =
     (if \<not> ((97 \<le> (of_char r :: nat) \<and> (of_char r :: nat) \<le> 122) \<or> (48 \<le> (of_char r :: nat) \<and> (of_char r :: nat) \<le> 57) \<or>
            r = CHR ''-'' \<or> r = CHR ''.'')
      then False else isDNS1123 s)"

definition isolaName :: "string \<Rightarrow> string" where
  "isolaName pid =
     (let name = ''pw-'' @ pid
      in if length name \<le> isolaMaxNameLen \<and> isDNS1123 pid then name
         else take isolaMaxNameLen (''pw-'' @ hex_bytes (sha256_Sum256 pid)))"

definition buildNetwork :: "IsolaBackend \<Rightarrow> json_map" where
  "buildNetwork b =
     (let n = [''allowInternetEgress'' \<mapsto> JBool True, ''allowClusterDNS'' \<mapsto> JBool True]
      in if length (ib_allowedEgressCIDRs b) > 0
         then n(''allowedEgressCIDRs'' \<mapsto> JList (map JStr (ib_allowedEgressCIDRs b))) else n)"

definition isola_buildCR :: "IsolaBackend \<Rightarrow> string \<Rightarrow> string \<Rightarrow> json_map" where
  "isola_buildCR b name pid =
     [''apiVersion'' \<mapsto> JStr isolaSandboxAPIVersion,
      ''kind'' \<mapsto> JStr ''Sandbox'',
      ''metadata'' \<mapsto> JMap [
        ''name'' \<mapsto> JStr name,
        ''namespace'' \<mapsto> JStr (ib_namespace b),
        ''labels'' \<mapsto> JMap [managedByLabel \<mapsto> JStr ''true'', ib_labelKey b \<mapsto> JStr pid]],
      ''spec'' \<mapsto> JMap [
        ''podTemplate'' \<mapsto> JMap [
          ''spec'' \<mapsto> JMap [
            ''containers'' \<mapsto> JList [
              JMap [
                ''name'' \<mapsto> JStr ''playwright'',
                ''command'' \<mapsto> JList [JStr ''node'', JStr ''/server.js''],
                ''image'' \<mapsto> JStr (ib_image b),
                ''ports'' \<mapsto> JList [JMap [''containerPort'' \<mapsto> JInt (ib_port b)]],
                ''env'' \<mapsto> JList [
                  JMap [''name'' \<mapsto> JStr ''PORT'', ''value'' \<mapsto> JStr (strconv_Itoa (ib_port b))],
                  JMap [''name'' \<mapsto> JStr ''PLAYWRIGHT_BROWSERS_PATH'', ''value'' \<mapsto> JStr ''/ms-playwright''],
                  JMap [''name'' \<mapsto> JStr ''CHROMIUM_ARGS'', ''value'' \<mapsto>
                    JStr ''--no-sandbox,--disable-setuid-sandbox,--disable-dev-shm-usage,--disable-gpu'']]]]]],
        ''network'' \<mapsto> JMap (buildNetwork b)]]"

text \<open>One poll of \<open>waitForReady\<close>: the loop over the conditions, on the object that was read.\<close>

definition reason_of :: "json_map \<Rightarrow> string" where
  "reason_of cm = (case cm ''reason'' of Some (JStr s) \<Rightarrow> s | _ \<Rightarrow> [])"

fun isola_conditions ::
  "unstructured \<Rightarrow> (json option \<Rightarrow> string) \<Rightarrow> string \<Rightarrow> json_map \<Rightarrow> json list \<Rightarrow> string option result" where
  "isola_conditions u fv name cur [] = Inr None"
| "isola_conditions u fv name cur (c # conds) =
     (case c of
        JMap cm \<Rightarrow>
          if \<not> field_is cm ''type'' ''Ready'' then isola_conditions u fv name cur conds
          else if isolaTerminalReasons (reason_of cm) then
            Inl (ErrMsg (''Sandbox '' @ name @ '' reached terminal condition '' @ reason_of cm @ '': '' @
                   fv (cm ''message'')))
          else if \<not> field_is cm ''status'' ''True'' then Inr None
          else
            (let ip = fst (NestedString u cur [''status'', ''podIP''])
             in if ip = [] then Inr None else Inr (Some ip))
      | _ \<Rightarrow> isola_conditions u fv name cur conds)"

definition isola_ready ::
  "unstructured \<Rightarrow> (json option \<Rightarrow> string) \<Rightarrow> 'w dyn \<Rightarrow> IsolaBackend \<Rightarrow> string \<Rightarrow> ('w, string option result) io" where
  "isola_ready u fv dyn b name w =
     (case dget dyn isolaSandboxGVR (ib_namespace b) name w of
        (Inl e, w1) \<Rightarrow> (Inl e, w1)
      | (Inr cur, w1) \<Rightarrow>
          (isola_conditions u fv name cur (fst (NestedSlice u cur [''status'', ''conditions''])), w1))"

definition waitForReady ::
  "unstructured \<Rightarrow> (json option \<Rightarrow> string) \<Rightarrow> 'w dyn \<Rightarrow> ('w, string) poller \<Rightarrow> IsolaBackend \<Rightarrow> string \<Rightarrow> ('w, string result) io" where
  "waitForReady u fv dyn poll b name w =
     (case poll (500 * Millisecond) True (isola_ready u fv dyn b name) w of
        (Inl e, w1) \<Rightarrow> (Inl (ErrWrap (''Sandbox '' @ name @ '' did not become Ready'') e), w1)
      | (Inr ip, w1) \<Rightarrow> (Inr ip, w1))"

definition isola_getOrCreate :: "'w dyn \<Rightarrow> IsolaBackend \<Rightarrow> string \<Rightarrow> ('w, err option) io" where
  "isola_getOrCreate dyn b pid w =
     (let name = isolaName pid
      in case dget dyn isolaSandboxGVR (ib_namespace b) name w of
           (Inr _, w1) \<Rightarrow> (None, w1)
         | (Inl e, w1) \<Rightarrow>
             if \<not> isNotFound e then (Some (ErrWrap (''get Sandbox '' @ name) e), w1)
             else (case dcreate dyn isolaSandboxGVR (ib_namespace b) (isola_buildCR b name pid) w1 of
                     (Inr _, w2) \<Rightarrow> (None, w2)
                   | (Inl e2, w2) \<Rightarrow>
                       if \<not> isAlreadyExists e2 then (Some (ErrWrap (''create Sandbox '' @ name) e2), w2)
                       else (None, w2)))"

definition isola_Ensure ::
  "unstructured \<Rightarrow> (json option \<Rightarrow> string) \<Rightarrow> 'w dyn \<Rightarrow> ('w, string) poller \<Rightarrow> IsolaBackend \<Rightarrow> string \<Rightarrow> ('w, Endpoint result) io" where
  "isola_Ensure u fv dyn poll b pid w =
     (case isola_getOrCreate dyn b pid w of
        (Some e, w1) \<Rightarrow> (Inl e, w1)
      | (None, w1) \<Rightarrow>
          (case waitForReady u fv dyn poll b (isolaName pid) w1 of
             (Inl e, w2) \<Rightarrow> (Inl e, w2)
           | (Inr ip, w2) \<Rightarrow> (Inr \<lparr>Host = ip, TargetActor = [], Port = ib_port b, MCPPort = 0\<rparr>, w2)))"

definition isola_Delete :: "IsolaBackend \<Rightarrow> 'w dyn \<Rightarrow> string \<Rightarrow> ('w, err option) io" where
  "isola_Delete b dyn pid w =
     (case ddelete dyn isolaSandboxGVR (ib_namespace b) (isolaName pid) w of
        (None, w1) \<Rightarrow> (None, w1)
      | (Some e, w1) \<Rightarrow>
          if \<not> isNotFound e then (Some (ErrWrap (''delete Sandbox '' @ isolaName pid) e), w1)
          else (None, w1))"

definition isola_List :: "IsolaBackend \<Rightarrow> unstructured \<Rightarrow> 'w dyn \<Rightarrow> ('w, string list result) io" where
  "isola_List b u dyn w =
     (case dlist dyn isolaSandboxGVR (ib_namespace b) (managedByLabel @ ''=true'') w of
        (Inl e, w1) \<Rightarrow> (Inl (ErrWrap ''list Sandboxes'' e), w1)
      | (Inr items, w1) \<Rightarrow> (Inr (labelled_ids u (ib_labelKey b) items), w1))"

section \<open>Interfaces\<close>

interpretation isola_cr: cr_backend isolaSandboxGVR "ib_namespace b" "ib_labelKey b" isolaName
  "isola_Delete b" "isola_List b" "\<lambda>n. ''delete Sandbox '' @ n" "''list Sandboxes''" for b
  by unfold_locales
    (simp_all add: isola_Delete_def isola_List_def labelled_ids_filter split: prod.splits option.splits sum.splits)

definition isola_shape :: "IsolaBackend \<Rightarrow> string \<Rightarrow> Endpoint \<Rightarrow> bool" where
  "isola_shape b pid ep \<longleftrightarrow> TargetActor ep = [] \<and> Port ep = ib_port b \<and> MCPPort ep = 0"

interpretation isola_ep: endpoint_backend "ensure_results (isola_Ensure u fv dyn poll b)" "isola_shape b" for u fv dyn poll b
  by (rule endpoint_backend_io)
    (auto simp: isola_Ensure_def isola_shape_def split: prod.splits option.splits sum.splits)

section \<open>Names\<close>

definition dns_char :: "char \<Rightarrow> bool" where
  "dns_char c \<longleftrightarrow> (of_char c :: nat) \<in> {of_char (CHR ''a'')..of_char (CHR ''z'')} \<or>
     (of_char c :: nat) \<in> {of_char (CHR ''0'')..of_char (CHR ''9'')} \<or> c = CHR ''-'' \<or> c = CHR ''.''"

lemma isDNS1123_iff: "isDNS1123 s \<longleftrightarrow> list_all dns_char s"
  by (induction s) (auto simp: dns_char_def)

lemma hex_digit_dns: "d < 16 \<Longrightarrow> dns_char (hex_digit d)"
  by (auto simp: dns_char_def hex_digit_def)

lemma hex_bytes_dns: "\<forall>b \<in> set bs. b < 256 \<Longrightarrow> list_all dns_char (hex_bytes bs)"
  by (induction bs) (auto simp: hex_bytes_def intro!: hex_digit_dns)

definition hash_name :: "string \<Rightarrow> string" where
  "hash_name pid = take 44 (hex_bytes (sha256_Sum256 pid))"

definition fits :: "string \<Rightarrow> bool" where
  "fits pid \<longleftrightarrow> length pid \<le> 44 \<and> list_all dns_char pid"

lemma isolaName_cases: "isolaName pid = ''pw-'' @ (if fits pid then pid else hash_name pid)"
  by (simp add: isolaName_def fits_def hash_name_def isDNS1123_iff isolaMaxNameLen_def Let_def)

lemma hash_name_fits: "length (hash_name pid) = 44" "fits (hash_name pid)"
proof -
  have "list_all dns_char (hex_bytes (sha256_Sum256 pid))"
    using Sum256_range by (intro hex_bytes_dns) blast
  then have "list_all dns_char (hash_name pid)"
    unfolding hash_name_def list_all_iff by (meson in_set_takeD)
  moreover show "length (hash_name pid) = 44"
    by (simp add: hash_name_def hex_bytes_length Sum256_length)
  ultimately show "fits (hash_name pid)" by (simp add: fits_def)
qed

text \<open>
  C36.  Every resource name of the isola backend is within the limits of the Sandbox type: at most
  47 characters, all of them lower-case letters, digits, dashes or dots; the id is kept verbatim
  exactly when it fits, so two ids that both fit never share a name.
\<close>

theorem isolaName_legal:
  "length (isolaName pid) \<le> 47 \<and> list_all dns_char (isolaName pid) \<and>
   (isolaName pid = ''pw-'' @ pid \<longleftrightarrow> length pid \<le> 44 \<and> isDNS1123 pid) \<and>
   (fits a \<and> fits b \<and> isolaName a = isolaName b \<longrightarrow> a = b)"
proof -
  have "list_all dns_char ''pw-''" by code_simp
  moreover have "hash_name pid = pid \<Longrightarrow> fits pid" using hash_name_fits(2) [of pid] by simp
  ultimately show ?thesis
    using hash_name_fits [of pid]
    by (auto simp: isolaName_cases isDNS1123_iff fits_def)
qed

theorem isolaName_legal_witness: "isolaName ''alpha'' \<noteq> isolaName ''beta''"
proof -
  have f: "fits ''alpha''" "fits ''beta''" by code_simp+
  show ?thesis using isolaName_legal [of "''alpha''" "''alpha''" "''beta''"] f by auto
qed

text \<open>
  Names of hashed ids can be claimed on purpose: for every id that is too long or has other
  characters there is another id, a legal label value that is used verbatim, with the same name.
  The two ids are two sessions of the proxy that share one sandbox: \<open>Delete\<close> for the second
  removes the object of the first.
\<close>

theorem isola_hashed_names_collide:
  assumes "\<not> (length pid \<le> 44 \<and> isDNS1123 pid)"
  shows "\<exists>q. q \<noteq> pid \<and> length q = 44 \<and> isDNS1123 q \<and> isolaName q = isolaName pid \<and>
    snd (isola_Delete b dyn q w) = snd (ddelete dyn isolaSandboxGVR (ib_namespace b) (isolaName pid) w)"
proof (intro exI conjI)
  let ?q = "hash_name pid"
  have nf: "\<not> fits pid" using assms by (simp add: fits_def isDNS1123_iff)
  then show "?q \<noteq> pid" using hash_name_fits(2) [of pid] by auto
  show "length ?q = 44" by (rule hash_name_fits)
  show "isDNS1123 ?q" using hash_name_fits(2) [of pid] by (simp add: fits_def isDNS1123_iff)
  show e: "isolaName ?q = isolaName pid" using nf hash_name_fits(2) [of pid] by (simp add: isolaName_cases)
  show "snd (isola_Delete b dyn ?q w) = snd (ddelete dyn isolaSandboxGVR (ib_namespace b) (isolaName pid) w)"
    by (simp add: isola_cr.delete_only_own e)
qed

definition isola_example :: IsolaBackend where
  "isola_example = NewIsolaBackend ''isola-sandboxes'' ''pw:1'' 9222 [] ''playwright-id''"

theorem isola_hashed_names_collide_witness:
  "\<exists>q. q \<noteq> ''Team_A'' \<and> isDNS1123 q \<and> isolaName q = isolaName ''Team_A''"
  using isola_hashed_names_collide [of "''Team_A''" isola_example ready_cluster 0] by auto

text \<open>
  The names Kubernetes accepts for such an object, and the values it accepts for a label.
\<close>

definition alnum :: "char \<Rightarrow> bool" where
  "alnum c \<longleftrightarrow> dns_char c \<and> c \<noteq> CHR ''-'' \<and> c \<noteq> CHR ''.''"

definition dns1123_subdomain :: "string \<Rightarrow> bool" where
  "dns1123_subdomain s \<longleftrightarrow> length s \<le> 253 \<and>
     list_all (\<lambda>l. l \<noteq> [] \<and> alnum (hd l) \<and> alnum (List.last l) \<and> list_all dns_char l) (strings_Split (CHR ''.'') s)"

definition upper_or_underscore :: "char \<Rightarrow> bool" where
  "upper_or_underscore c \<longleftrightarrow> c = CHR ''_'' \<or> (65 \<le> (of_char c :: nat) \<and> (of_char c :: nat) \<le> 90)"

definition label_value_ok :: "string \<Rightarrow> bool" where
  "label_value_ok s \<longleftrightarrow> length s \<le> 63 \<and> list_all (\<lambda>c. dns_char c \<or> upper_or_underscore c) s \<and>
     (s \<noteq> [] \<longrightarrow> list_all (\<lambda>c. alnum c \<or> upper_or_underscore c \<and> c \<noteq> CHR ''_'') [hd s, List.last s])"

text \<open>
  Not every name is a legal object name: an id with two adjacent dots is a legal label value
  and passes \<open>isDNS1123\<close>, which looks at single characters only, so it is used verbatim, and the
  result is no DNS-1123 subdomain; the API rejects the object each time.
\<close>

theorem isolaName_not_always_subdomain:
  "label_value_ok ''a..b'' \<and> isDNS1123 ''a..b'' \<and> isolaName ''a..b'' = ''pw-a..b'' \<and>
   \<not> dns1123_subdomain (isolaName ''a..b'')"
proof -
  have 1: "isDNS1123 ''a..b''" by simp
  then have 2: "isolaName ''a..b'' = ''pw-a..b''" by (simp add: isolaName_def isolaMaxNameLen_def)
  have "strings_Split (CHR ''.'') ''pw-a..b'' = [''pw-a'', [], ''b'']" by code_simp
  then have 3: "\<not> dns1123_subdomain (isolaName ''a..b'')" by (simp add: 2 dns1123_subdomain_def)
  have "label_value_ok ''a..b''"
    by (simp add: label_value_ok_def dns_char_def alnum_def)
  with 1 2 3 show ?thesis by blast
qed

section \<open>Readiness\<close>

definition ready_cond :: "json \<Rightarrow> bool" where
  "ready_cond c = (case c of JMap cm \<Rightarrow> field_is cm ''type'' ''Ready'' | _ \<Rightarrow> False)"

text \<open>Only the first condition of type \<open>Ready\<close> counts.\<close>

lemma isola_conditions_first:
  "isola_conditions u fv name cur conds =
     (case find ready_cond conds of
        Some (JMap cm) \<Rightarrow>
          if isolaTerminalReasons (reason_of cm) then
            Inl (ErrMsg (''Sandbox '' @ name @ '' reached terminal condition '' @ reason_of cm @ '': '' @
                   fv (cm ''message'')))
          else if \<not> field_is cm ''status'' ''True'' then Inr None
          else let ip = fst (NestedString u cur [''status'', ''podIP''])
               in if ip = [] then Inr None else Inr (Some ip)
      | _ \<Rightarrow> Inr None)"
  by (induction conds) (auto simp: ready_cond_def split: json.splits)

lemma isola_conditions_Some:
  assumes "isola_conditions u fv name cur conds = Inr (Some ip)"
  shows "\<exists>cm. find ready_cond conds = Some (JMap cm) \<and> field_is cm ''status'' ''True'' \<and>
    \<not> isolaTerminalReasons (reason_of cm) \<and> ip = fst (NestedString u cur [''status'', ''podIP'']) \<and> ip \<noteq> []"
  using assms unfolding isola_conditions_first
  by (auto simp: Let_def split: option.splits json.splits if_splits)

lemma isola_conditions_Inl:
  assumes "isola_conditions u fv name cur conds = Inl e"
  shows "\<exists>cm. find ready_cond conds = Some (JMap cm) \<and> isolaTerminalReasons (reason_of cm)"
  using assms unfolding isola_conditions_first
  by (auto simp: Let_def split: option.splits json.splits if_splits)

lemma isola_ready_Some:
  assumes "isola_ready u fv dyn b name w0 = (Inr (Some ip), w')"
  shows "\<exists>cur cm. dget dyn isolaSandboxGVR (ib_namespace b) name w0 = (Inr cur, w') \<and>
    find ready_cond (fst (NestedSlice u cur [''status'', ''conditions''])) = Some (JMap cm) \<and>
    field_is cm ''status'' ''True'' \<and> \<not> isolaTerminalReasons (reason_of cm) \<and>
    ip = fst (NestedString u cur [''status'', ''podIP'']) \<and> ip \<noteq> []"
proof -
  from assms obtain cur where g: "dget dyn isolaSandboxGVR (ib_namespace b) name w0 = (Inr cur, w')"
    and c: "isola_conditions u fv name cur (fst (NestedSlice u cur [''status'', ''conditions''])) = Inr (Some ip)"
    by (auto simp: isola_ready_def split: prod.splits sum.splits)
  show ?thesis using isola_conditions_Some [OF c] g by blast
qed

lemma isola_ready_Inl:
  assumes "isola_ready u fv dyn b name w0 = (Inl e, w')"
  shows "dget dyn isolaSandboxGVR (ib_namespace b) name w0 = (Inl e, w') \<or>
    (\<exists>cur cm. dget dyn isolaSandboxGVR (ib_namespace b) name w0 = (Inr cur, w') \<and>
       find ready_cond (fst (NestedSlice u cur [''status'', ''conditions''])) = Some (JMap cm) \<and>
       isolaTerminalReasons (reason_of cm))"
proof (cases "dget dyn isolaSandboxGVR (ib_namespace b) name w0")
  case (Pair r w1)
  with assms show ?thesis
    using isola_conditions_Inl by (fastforce simp: isola_ready_def split: sum.splits)
qed

text \<open>
  C35.  A successful \<open>Ensure\<close> of the isola backend returns the non-empty \<open>status.podIP\<close> of the
  sandbox object with that id's name, in the last state it read, whose first \<open>Ready\<close> condition
  had status \<open>True\<close> and no terminal reason.  If the wait fails, then because the context ended, the
  API failed, or the first \<open>Ready\<close> condition of an object it read had a terminal reason.
\<close>

theorem isola_Ensure_returns_ready_sandbox:
  assumes "poll_ok poll"
  shows "(\<forall>ep w'. isola_Ensure u fv dyn poll b pid w = (Inr ep, w') \<longrightarrow>
      Port ep = ib_port b \<and>
      (\<exists>w0 cur cm. dget dyn isolaSandboxGVR (ib_namespace b) (isolaName pid) w0 = (Inr cur, w') \<and>
        find ready_cond (fst (NestedSlice u cur [''status'', ''conditions''])) = Some (JMap cm) \<and>
        field_is cm ''status'' ''True'' \<and> \<not> isolaTerminalReasons (reason_of cm) \<and>
        Host ep = fst (NestedString u cur [''status'', ''podIP'']) \<and> Host ep \<noteq> [])) \<and>
    (\<forall>e w' w1. waitForReady u fv dyn poll b name w1 = (Inl e, w') \<longrightarrow>
      (\<exists>t e0. e = ErrWrap t e0 \<and>
        (e0 \<in> {ErrCanceled, ErrDeadline} \<or>
         (\<exists>w0. dget dyn isolaSandboxGVR (ib_namespace b) name w0 = (Inl e0, w')) \<or>
         (\<exists>w0 cur cm. dget dyn isolaSandboxGVR (ib_namespace b) name w0 = (Inr cur, w') \<and>
            find ready_cond (fst (NestedSlice u cur [''status'', ''conditions''])) = Some (JMap cm) \<and>
            isolaTerminalReasons (reason_of cm)))))"
proof (rule conjI; intro allI impI)
  fix ep w' assume "isola_Ensure u fv dyn poll b pid w = (Inr ep, w')"
  then obtain ip w1 where "waitForReady u fv dyn poll b (isolaName pid) w1 = (Inr ip, w')"
    and ep: "ep = \<lparr>Host = ip, TargetActor = [], Port = ib_port b, MCPPort = 0\<rparr>"
    by (auto simp: isola_Ensure_def split: prod.splits option.splits sum.splits)
  then have "poll (500 * Millisecond) True (isola_ready u fv dyn b (isolaName pid)) w1 = (Inr ip, w')"
    by (auto simp: waitForReady_def split: prod.splits sum.splits)
  from poll_result [OF assms this] obtain w0 where
    r: "isola_ready u fv dyn b (isolaName pid) w0 = (Inr (Some ip), w')" by blast
  show "Port ep = ib_port b \<and>
      (\<exists>w0 cur cm. dget dyn isolaSandboxGVR (ib_namespace b) (isolaName pid) w0 = (Inr cur, w') \<and>
        find ready_cond (fst (NestedSlice u cur [''status'', ''conditions''])) = Some (JMap cm) \<and>
        field_is cm ''status'' ''True'' \<and> \<not> isolaTerminalReasons (reason_of cm) \<and>
        Host ep = fst (NestedString u cur [''status'', ''podIP'']) \<and> Host ep \<noteq> [])"
    using isola_ready_Some [OF r] unfolding ep by auto
next
  fix e w' w1 assume "waitForReady u fv dyn poll b name w1 = (Inl e, w')"
  then obtain t e0 where t: "e = ErrWrap t e0"
    and p: "poll (500 * Millisecond) True (isola_ready u fv dyn b name) w1 = (Inl e0, w')"
    by (auto simp: waitForReady_def split: prod.splits sum.splits)
  show "\<exists>t e0. e = ErrWrap t e0 \<and>
        (e0 \<in> {ErrCanceled, ErrDeadline} \<or>
         (\<exists>w0. dget dyn isolaSandboxGVR (ib_namespace b) name w0 = (Inl e0, w')) \<or>
         (\<exists>w0 cur cm. dget dyn isolaSandboxGVR (ib_namespace b) name w0 = (Inr cur, w') \<and>
            find ready_cond (fst (NestedSlice u cur [''status'', ''conditions''])) = Some (JMap cm) \<and>
            isolaTerminalReasons (reason_of cm)))"
    (is "\<exists>t e0. e = ErrWrap t e0 \<and> ?why e0")
  proof -
    have "?why e0"
      using poll_error [OF assms p]
    proof
      assume "\<exists>w0. isola_ready u fv dyn b name w0 = (Inl e0, w')"
      then obtain w0 where "isola_ready u fv dyn b name w0 = (Inl e0, w')" ..
      from isola_ready_Inl [OF this] show ?thesis by (elim disjE exE) (auto intro: exI)
    qed (rule disjI1)
    with t show ?thesis by blast
  qed
qed

definition isola_cluster :: "nat dyn" where
  "isola_cluster = ready_cluster\<lparr>dget := \<lambda>g ns n w. (Inr [''status'' \<mapsto> JMap [
      ''podIP'' \<mapsto> JStr ''10.0.0.9'',
      ''conditions'' \<mapsto> JList [JMap [''type'' \<mapsto> JStr ''Ready'', ''status'' \<mapsto> JStr ''True'']]]], w + 1)\<rparr>"

lemma isola_Ensure_example:
  "isola_Ensure std_unstructured fv isola_cluster poll_once isola_example ''alpha'' 0 =
     (Inr \<lparr>Host = ''10.0.0.9'', TargetActor = [], Port = 9222, MCPPort = 0\<rparr>, 2)"
  by (simp add: isola_Ensure_def isola_getOrCreate_def isola_cluster_def waitForReady_def poll_once_def
      isola_ready_def std_unstructured_def reason_of_def isolaTerminalReasons_def field_is_def
      isola_example_def NewIsolaBackend_def Let_def)

theorem isola_Ensure_returns_ready_sandbox_witness:
  "\<exists>w0 cur. dget isola_cluster isolaSandboxGVR ''isola-sandboxes'' (isolaName ''alpha'') w0 = (Inr cur, 2) \<and>
     fst (NestedString std_unstructured cur [''status'', ''podIP'']) = ''10.0.0.9''"
proof -
  have ns: "ib_namespace isola_example = ''isola-sandboxes''"
    by (simp add: isola_example_def NewIsolaBackend_def)
  show ?thesis
    using conjunct1 [OF isola_Ensure_returns_ready_sandbox [OF poll_once_ok, of std_unstructured "\<lambda>_. []"
        isola_cluster isola_example "''alpha''" 0]] isola_Ensure_example [of "\<lambda>_. []"]
    unfolding ns by fastforce
qed

end
