(* ===== verification/Server.thy ===== *)
theory Server
  imports Proxy_Conns Substrate_Props Config Kars Isola
begin

text \<open>
  File \<open>cmd/playwright-proxy/main.go\<close>: the process.  \<open>run\<close> reads the configuration, builds the
  backend, the metrics, the index and the session manager, reconciles, starts the reaper and the two
  servers, and waits until something cancels its context.  The Kubernetes client constructors, the
  Prometheus handler and the listeners are outside; they appear as results and as events.
  \<open>ReapLoop\<close> of \<open>session.go\<close> is here too, as it is the goroutine \<open>run\<close> starts.
\<close>

section \<open>Backends\<close>

datatype backend_impl =
    BkSandboxClaim SandboxClaim
  | BkSubstrate Substrate
  | BkKars KarsSandboxBackend
  | BkIsola IsolaBackend

text \<open>The clients the backends are given.\<close>

record 'w services =
  sv_un :: unstructured
  sv_dyn :: "'w dyn"
  sv_env :: "'w sub_env"
  sv_ctl :: "'w control"

fun bk_Delete :: "'w services \<Rightarrow> backend_impl \<Rightarrow> string \<Rightarrow> ('w, err option) io" where
  "bk_Delete sv (BkSandboxClaim s) pid = sc_Delete s (sv_dyn sv) pid"
| "bk_Delete sv (BkSubstrate s) pid = sub_Delete (sv_env sv) (sv_ctl sv) s pid"
| "bk_Delete sv (BkKars k) pid = kars_Delete k (sv_dyn sv) pid"
| "bk_Delete sv (BkIsola b) pid = isola_Delete b (sv_dyn sv) pid"

text \<open>\<open>List\<close>; \<open>None\<close> if the control plane never stops paging.\<close>

fun bk_List :: "'w services \<Rightarrow> backend_impl \<Rightarrow> 'w \<Rightarrow> (string list result \<times> 'w) option" where
  "bk_List sv (BkSandboxClaim s) w = Some (sc_List s (sv_un sv) (sv_dyn sv) w)"
| "bk_List sv (BkSubstrate s) w = sub_List (sv_ctl sv) s w"
| "bk_List sv (BkKars k) w = Some (kars_List k (sv_un sv) (sv_dyn sv) w)"
| "bk_List sv (BkIsola b) w = Some (isola_List b (sv_un sv) (sv_dyn sv) w)"

section \<open>Startup\<close>

datatype run_error =
    ConfigFailed config_error
  | InClusterFailed err
  | ClientsetFailed err
  | DynamicFailed err
  | SubstrateFailed sub_config_error
  | BackendUnknown string

text \<open>The results of the three client constructors.\<close>

record cluster =
  inClusterConfig :: "err option"
  newClientset :: "err option"
  newDynamic :: "err option"

definition select_backend :: "sub_host \<Rightarrow> Config \<Rightarrow> run_error + backend_impl" where
  "select_backend h cfg =
     (if Backend cfg = ''sandboxclaim'' then
        Inr (BkSandboxClaim (NewSandboxClaim (Namespace cfg) (TemplateName cfg) (WarmPoolName cfg)
          (SandboxPort cfg) (SandboxMCPPort cfg) (LabelKey cfg)))
      else if Backend cfg = ''substrate'' then
        (case NewSubstrateWithOptions h (SubstrateAPIEndpoint cfg) (SubstrateRouterAddr cfg)
            (SubstrateActorTemplate cfg) (SubstrateForceBoot cfg) (SubstrateAllowedHTTPHosts cfg) of
           Inl e \<Rightarrow> Inl (SubstrateFailed e)
         | Inr s \<Rightarrow> Inr (BkSubstrate s))
      else if Backend cfg = ''karssandbox'' then
        Inr (BkKars (NewKarsSandbox (Namespace cfg) (KarsInferenceRef cfg) (KarsSandboxImage cfg)
          (SandboxPort cfg) (LabelKey cfg)))
      else if Backend cfg = ''isola'' then
        Inr (BkIsola (NewIsolaBackend (IsolaNamespace cfg) (IsolaSandboxImage cfg) (SandboxPort cfg)
          (IsolaAllowedEgressCIDRs cfg) (LabelKey cfg)))
      else Inl (BackendUnknown (Backend cfg)))"

record process =
  pc_cfg :: Config
  pc_bk :: backend_impl
  pc_idx :: Index
  pc_mgr :: Manager

text \<open>The objects \<open>run\<close> builds once it has a backend, with the sessions it reconciles.\<close>

definition build :: "'w services \<Rightarrow> string \<Rightarrow> string \<Rightarrow> instant \<Rightarrow> Config \<Rightarrow> backend_impl \<Rightarrow> 'w \<Rightarrow> (process \<times> 'w) option" where
  "build sv version commit now cfg bk w =
     (let mx = New_Metrics (Backend cfg) version commit;
          idx = New_Index (LabelKey cfg) True (Namespace cfg) mx;
          sm = New_Manager (Backend cfg) (EnsureTimeout cfg) (IdleTTL cfg) (idx_metrics idx)
      in case bk_List sv bk w of
           None \<Rightarrow> None
         | Some (listed, w1) \<Rightarrow>
             Some (\<lparr>pc_cfg = cfg, pc_bk = bk, pc_idx = idx, pc_mgr = snd (Reconcile now listed sm)\<rparr>, w1))"

definition configure :: "fraction \<Rightarrow> environment \<Rightarrow> cluster \<Rightarrow> sub_host \<Rightarrow> run_error + Config \<times> backend_impl" where
  "configure ff env cl h =
     (case FromEnv ff env of
        Inl e \<Rightarrow> Inl (ConfigFailed e)
      | Inr cfg \<Rightarrow>
          (case inClusterConfig cl of Some e \<Rightarrow> Inl (InClusterFailed e) | None \<Rightarrow>
           case newClientset cl of Some e \<Rightarrow> Inl (ClientsetFailed e) | None \<Rightarrow>
           case newDynamic cl of Some e \<Rightarrow> Inl (DynamicFailed e) | None \<Rightarrow>
           case select_backend h cfg of Inl e \<Rightarrow> Inl e | Inr bk \<Rightarrow> Inr (cfg, bk)))"

section \<open>The reaper goroutine\<close>

text \<open>
  One tick: what the other goroutines did since the last one, the instants of the scan and of the
  bookkeeping, and the order in which Go visits the map.  \<open>time.NewTicker\<close> panics unless the
  interval is positive; the value \<open>None\<close> is that panic.
\<close>

record 'w tick =
  tk_before :: "Manager \<Rightarrow> 'w \<Rightarrow> Manager \<times> 'w"
  tk_scan :: instant
  tk_done :: instant
  tk_order :: "string list"

fun reap_ticks :: "(string \<Rightarrow> ('w, err option) io) \<Rightarrow> 'w tick list \<Rightarrow> Manager \<Rightarrow> 'w \<Rightarrow> Manager \<times> 'w" where
  "reap_ticks del [] m w = (m, w)"
| "reap_ticks del (t # ts) m w =
     (let (m1, w1) = tk_before t m w;
          (m2, w2) = reapOnce (tk_scan t) (tk_done t) (tk_order t) del m1 w1
      in reap_ticks del ts m2 w2)"

definition ReapLoop ::
  "duration \<Rightarrow> (string \<Rightarrow> ('w, err option) io) \<Rightarrow> 'w tick list \<Rightarrow> Manager \<Rightarrow> 'w \<Rightarrow> (Manager \<times> 'w) option" where
  "ReapLoop interval del ts m w = (if interval \<le> 0 then None else Some (reap_ticks del ts m w))"

section \<open>Running and stopping\<close>

datatype proc_event =
    SignalReceived
  | InformerStopped err \<comment> \<open>\<open>idx.Run\<close> returned an error while the context was live\<close>
  | DataServerStopped err
  | MgmtServerStopped err

definition cancels :: "proc_event \<Rightarrow> bool" where
  "cancels e \<longleftrightarrow> (case e of MgmtServerStopped _ \<Rightarrow> False | _ \<Rightarrow> True)"

datatype run_outcome =
    RunFailed run_error \<comment> \<open>\<open>run\<close> returns the error\<close>
  | RunStuck \<comment> \<open>the reconciliation never returns\<close>
  | RunPanicked \<comment> \<open>a goroutine panics\<close>
  | RunServing process
  | RunStopped process \<comment> \<open>\<open>run\<close> returns nil after the shutdown\<close>

definition run ::
  "'w services \<Rightarrow> fraction \<Rightarrow> environment \<Rightarrow> cluster \<Rightarrow> sub_host \<Rightarrow> string \<Rightarrow> string \<Rightarrow> instant \<Rightarrow>
   proc_event list \<Rightarrow> 'w \<Rightarrow> run_outcome" where
  "run sv ff env cl h version commit now evs w =
     (case configure ff env cl h of
        Inl e \<Rightarrow> RunFailed e
      | Inr (cfg, bk) \<Rightarrow>
          (case build sv version commit now cfg bk w of
             None \<Rightarrow> RunStuck
           | Some (p, w1) \<Rightarrow>
               if ReapLoop (IdleCheckInterval cfg) (bk_Delete sv bk) [] (pc_mgr p) w1 = None then RunPanicked
               else if list_ex cancels evs then RunStopped p
               else RunServing p))"

text \<open>\<open>main\<close>: the exit status, if the process ends.\<close>

definition main_exit :: "run_outcome \<Rightarrow> int option" where
  "main_exit r = (case r of RunFailed _ \<Rightarrow> Some 1 | RunPanicked \<Rightarrow> Some 2 | RunStopped _ \<Rightarrow> Some 0 | _ \<Rightarrow> None)"

section \<open>The data plane\<close>

text \<open>
  \<open>dataHandler\<close>, and what the server does with it: requests come one after the other here, each after
  the informer events that arrived before it; what other requests do to the sessions meanwhile is part
  of the environment of \<open>ServeHTTP\<close>.
\<close>

definition data_handler :: "process \<Rightarrow> 'w \<Rightarrow> 'w pst" where
  "data_handler p w = New_Handler (pc_mgr p) (pc_idx p) (Backend (pc_cfg p)) (idx_metrics (pc_idx p)) w"

definition inform :: "event list \<Rightarrow> 'w pst \<Rightarrow> 'w pst" where
  "inform evs st = st\<lparr>p_idx := fold handle_event evs (p_idx st)\<rparr>"

fun serve_all :: "'w proxy_env \<Rightarrow> (event list \<times> request) list \<Rightarrow> 'w pst \<Rightarrow> 'w pst" where
  "serve_all env [] st = st"
| "serve_all env ((evs, rq) # rs) st = serve_all env rs (snd (ServeHTTP env rq (inform evs st)))"

section \<open>The management endpoints\<close>

text \<open>The mux; \<open>scrape\<close> is the Prometheus handler over the registry.\<close>

definition mgmt_handler :: "(Metrics option \<Rightarrow> string) \<Rightarrow> Metrics option \<Rightarrow> Index \<Rightarrow> string \<Rightarrow> int \<times> string" where
  "mgmt_handler scrape mx idx path =
     (if path = ''/metrics'' then (200, scrape mx)
      else if path = ''/healthz'' then (200, ''ok'')
      else if path = ''/readyz'' then
        (if \<not> Ready idx then (503, ''informer cache not synced'') else (200, ''ok''))
      else (404, ''404 page not found''))"

end
