(* ===== verification/Server_Props.thy ===== *)
theory Server_Props
  imports Server
begin

text \<open>
  The properties of the process: configuration against construction, exit status, readiness and
  the reaper goroutine.
\<close>

section \<open>Properties\<close>

fun bk_kind :: "backend_impl \<Rightarrow> string" where
  "bk_kind (BkSandboxClaim _) = ''sandboxclaim''"
| "bk_kind (BkSubstrate _) = ''substrate''"
| "bk_kind (BkKars _) = ''karssandbox''"
| "bk_kind (BkIsola _) = ''isola''"

lemma FromEnv_backend:
  assumes "FromEnv ff env = Inr cfg"
  shows "Backend cfg \<in> {''sandboxclaim'', ''substrate'', ''karssandbox'', ''isola''}"
  using FromEnv_accepts_only_valid [OF assms] by (auto simp: config_ok_def backend_ok_def)

text \<open>
  The backend switch of \<open>run\<close> and the check of \<open>FromEnv\<close> agree.  For a configuration that
  \<open>FromEnv\<close> accepted, the default branch is unreachable, a constructed backend is of the
  configured kind, and only the substrate constructor can still fail.
\<close>

theorem backend_switch_matches_config:
  assumes "FromEnv ff env = Inr cfg"
  shows "(\<exists>bk. select_backend h cfg = Inr bk \<and> bk_kind bk = Backend cfg) \<or>
    (Backend cfg = ''substrate'' \<and> (\<exists>e. select_backend h cfg = Inl (SubstrateFailed e)))"
  using FromEnv_backend [OF assms]
  by (auto simp: select_backend_def split: sum.splits)

definition host_example :: sub_host where
  "host_example = \<lparr>tokenFileEnv = [], os_Stat = (\<lambda>_. None), os_IsNotExist = (\<lambda>_. False), grpc_NewClient = (\<lambda>_ _. None)\<rparr>"

theorem backend_switch_matches_config_witness:
  "\<exists>cfg bk. FromEnv (\<lambda>_ _ _. 0) env_example = Inr cfg \<and> select_backend host_example cfg = Inr bk \<and>
     bk_kind bk = Backend cfg"
proof -
  obtain cfg where c: "FromEnv (\<lambda>_ _ _. 0) env_example = Inr cfg" using FromEnv_example by blast
  then have "Backend cfg = ''sandboxclaim''"
    unfolding FromEnv_Inr finish_Inr by (auto simp: base_config_def env_example_def envOr_def)
  with backend_switch_matches_config [OF c, of host_example] c show ?thesis by auto
qed

text \<open>Environments for examples: the one of \<open>env_example\<close> with some variables set.\<close>

definition env_with :: "(string \<rightharpoonup> string) \<Rightarrow> environment" where
  "env_with f k = (case f k of Some v \<Rightarrow> v | None \<Rightarrow> env_example k)"

definition env_substrate :: "string \<Rightarrow> string \<Rightarrow> environment" where
  "env_substrate tmpl force = env_with [''BACKEND'' \<mapsto> ''substrate'', ''SUBSTRATE_ACTOR_TEMPLATE'' \<mapsto> tmpl,
     ''SUBSTRATE_FORCE_BOOT'' \<mapsto> force, ''SUBSTRATE_API_ENDPOINT'' \<mapsto> ''api:443'', ''SUBSTRATE_ROUTER_ADDR'' \<mapsto> ''router:80'']"

lemma env_substrate_vars:
  "env_substrate tmpl force ''POD_NAMESPACE'' = ''agents''" "env_substrate tmpl force ''BACKEND'' = ''substrate''"
  "env_substrate tmpl force ''SUBSTRATE_ACTOR_TEMPLATE'' = tmpl" "env_substrate tmpl force ''SUBSTRATE_FORCE_BOOT'' = force"
  "env_substrate tmpl force ''SUBSTRATE_API_ENDPOINT'' = ''api:443''" "env_substrate tmpl force ''SUBSTRATE_ROUTER_ADDR'' = ''router:80''"
  "env_substrate tmpl force ''SUBSTRATE_ALLOWED_HTTP_HOSTS'' = []" "env_substrate tmpl force ''SANDBOX_PORT'' = []"
  "env_substrate tmpl force ''SANDBOX_MCP_PORT'' = []" "env_substrate tmpl force ''IDLE_TTL'' = []"
  "env_substrate tmpl force ''IDLE_CHECK_INTERVAL'' = []" "env_substrate tmpl force ''ENSURE_TIMEOUT'' = []"
  "env_substrate tmpl force ''PLAYWRIGHT_LABEL_KEY'' = []"
  by (simp_all add: env_substrate_def env_with_def env_example_def)

lemma FromEnv_substrate:
  assumes "CHR ''/'' \<in> set tmpl"
  shows "\<exists>cfg. FromEnv ff (env_substrate tmpl force) = Inr cfg \<and> Backend cfg = ''substrate'' \<and>
     SubstrateActorTemplate cfg = tmpl \<and> SubstrateForceBoot cfg = (force = ''true'') \<and>
     SubstrateAPIEndpoint cfg = ''api:443'' \<and> SubstrateRouterAddr cfg = ''router:80'' \<and> SubstrateAllowedHTTPHosts cfg = [] \<and>
     LabelKey cfg = ''playwright-id''"
proof -
  have t: "tmpl \<noteq> []" "strings_Contains tmpl ''/''" using assms by (auto simp: strings_Contains_char)
  show ?thesis
    unfolding FromEnv_Inr finish_Inr
    by (simp add: env_substrate_vars allowed_hosts_def envOr_def parsePort_iff Atoi_9222 mcp_port_def
        parse_dur_def default_durations base_config_def t)
qed

text \<open>
  \<open>FromEnv\<close> only checks that the template reference contains a slash and does not look at
  \<open>SUBSTRATE_FORCE_BOOT\<close> at all, so it accepts two kinds of configuration with which the process
  cannot start: a reference with two slashes, and forced boot, are refused by the constructor.
\<close>

theorem substrate_config_refused_late:
  "(\<exists>cfg. FromEnv ff (env_substrate ''a/b/c'' []) = Inr cfg \<and>
      select_backend h cfg = Inl (SubstrateFailed (TemplateForm ''a/b/c''))) \<and>
   (\<exists>cfg. FromEnv ff (env_substrate ''a/b'' ''true'') = Inr cfg \<and>
      select_backend h cfg = Inl (SubstrateFailed ForceBootUnsupported))"
proof -
  have cut: "strings_Cut ''router:80'' (CHR '':'') = (''router'', ''80'', True)"
    "strings_Cut ''a/b/c'' (CHR ''/'') = (''a'', ''b/c'', True)" "strings_Contains ''b/c'' ''/''" "strconv_Atoi ''80'' = Inr 80"
    by (simp_all add: strings_Cut_def strings_Contains_char strconv_Atoi_def is_digit_def digit_val_def)
  obtain c1 where c1: "FromEnv ff (env_substrate ''a/b/c'' []) = Inr c1" "Backend c1 = ''substrate''"
    "SubstrateActorTemplate c1 = ''a/b/c''" "\<not> SubstrateForceBoot c1" "SubstrateAPIEndpoint c1 = ''api:443''"
    "SubstrateRouterAddr c1 = ''router:80''"
    using FromEnv_substrate [of "''a/b/c''" ff "[]"] by auto
  then have "select_backend h c1 = Inl (SubstrateFailed (TemplateForm ''a/b/c''))"
    by (simp add: select_backend_def NewSubstrateWithOptions_def cut)
  moreover obtain c2 where "FromEnv ff (env_substrate ''a/b'' ''true'') = Inr c2"
    "select_backend h c2 = Inl (SubstrateFailed ForceBootUnsupported)"
    using FromEnv_substrate [of "''a/b''" ff "''true''"] by (auto simp: select_backend_def NewSubstrateWithOptions_def)
  ultimately show ?thesis using c1(1) by blast
qed

lemma FromEnv_zero_interval:
  "\<exists>cfg. FromEnv ff (env_with [''IDLE_CHECK_INTERVAL'' \<mapsto> ''0s'']) = Inr cfg \<and> Backend cfg = ''sandboxclaim'' \<and>
     IdleCheckInterval cfg = 0"
  unfolding FromEnv_Inr finish_Inr
  by (simp add: env_with_def env_example_def allowed_hosts_def envOr_def parsePort_iff Atoi_9222 mcp_port_def
      parse_dur_def default_durations base_config_def)

definition in_cluster :: cluster where
  "in_cluster = \<lparr>inClusterConfig = None, newClientset = None, newDynamic = None\<rparr>"

text \<open>
  An idle check interval of zero is accepted by \<open>FromEnv\<close> and crashes the process: in any
  cluster and whatever the API answers, \<open>run\<close> gets as far as starting the reaper, where
  \<open>time.NewTicker\<close> panics.
\<close>

theorem zero_interval_crashes_the_process:
  "\<exists>cfg. FromEnv ff (env_with [''IDLE_CHECK_INTERVAL'' \<mapsto> ''0s'']) = Inr cfg \<and>
     run sv ff (env_with [''IDLE_CHECK_INTERVAL'' \<mapsto> ''0s'']) in_cluster h version commit now evs w = RunPanicked"
proof -
  obtain cfg where c: "FromEnv ff (env_with [''IDLE_CHECK_INTERVAL'' \<mapsto> ''0s'']) = Inr cfg"
    "Backend cfg = ''sandboxclaim''" "IdleCheckInterval cfg = 0" using FromEnv_zero_interval by blast
  then have "run sv ff (env_with [''IDLE_CHECK_INTERVAL'' \<mapsto> ''0s'']) in_cluster h version commit now evs w = RunPanicked"
    by (simp add: run_def configure_def in_cluster_def select_backend_def build_def Let_def ReapLoop_def split: prod.splits)
  with c(1) show ?thesis by blast
qed

text \<open>
  What the exit status says.  The process exits with 1 exactly if the configuration or a client
  or backend could not be constructed; once it serves, a signal, the end of the informer and the end
  of the data listener all end it with status 0, and the end of the management listener does not end
  it at all.
\<close>

theorem exit_status_of_the_process:
  "(main_exit (run sv ff env cl h version commit now evs w) = Some 1 \<longleftrightarrow> (\<exists>e. configure ff env cl h = Inl e)) \<and>
   main_exit (run sv ff env cl h version commit now evs w) =
     (case run sv ff env cl h version commit now [] w of
        RunServing p \<Rightarrow> if list_ex (\<lambda>e. \<forall>x. e \<noteq> MgmtServerStopped x) evs then Some 0 else None
      | r \<Rightarrow> main_exit r)"
proof -
  have c: "cancels = (\<lambda>e. \<forall>x. e \<noteq> MgmtServerStopped x)"
    by (auto simp: fun_eq_iff cancels_def split: proc_event.splits)
  show ?thesis
    by (auto simp: run_def main_exit_def c split: sum.splits option.splits prod.splits if_splits)
qed

text \<open>
  C32.  What the readiness probe says.  It succeeds exactly when the handlers could be installed and the
  informer's store had the initial list (\<open>inf.HasSynced\<close>).  This does not mean that the handlers have run: then the
  index holds, for every address, what the last of the \<open>n\<close> events handled so far says, and it holds all of the
  initial list only when the handlers of the remaining events have run too; through all of them the probe
  goes on succeeding.
\<close>

theorem readyz_means_informer_synced:
  assumes "Run herr evs n synced (New_Index key client ns mx) = (res, idx, rest)"
  shows "(fst (mgmt_handler scrape mx' idx ''/readyz'') = 200 \<longleftrightarrow> herr = None \<and> synced) \<and>
    (fst (mgmt_handler scrape mx' idx ''/readyz'') = 200 \<longrightarrow> res = None \<and> rest = drop n evs \<and>
       (\<forall>ip. byPodIP idx ip = (case last_effect key ip (take n evs) of None \<Rightarrow> None | Some v \<Rightarrow> v)) \<and>
       (\<forall>ip. byPodIP (fold handle_event rest idx) ip = (case last_effect key ip evs of None \<Rightarrow> None | Some v \<Rightarrow> v)) \<and>
       (\<forall>k. fst (mgmt_handler scrape mx' (fold handle_event (take k rest) idx) ''/readyz'') = 200))"
proof -
  have h: "idx_ready (handle_event ev i) = idx_ready i" for ev i
    by (cases ev) (auto simp: upsertFromObj_def deleteFromObj_def deletePod_def Let_def split: obj.splits option.splits)
  have r: "idx_ready (fold handle_event evs i) = idx_ready i" for evs i
    by (induction evs arbitrary: i) (simp_all add: h)
  have b: "byPodIP (fold handle_event evs i) ip = (case last_effect (labelKey i) ip evs of None \<Rightarrow> byPodIP i ip | Some v \<Rightarrow> v)" for evs i ip
    by (rule last_event_wins)
  have g: "byPodIP (fold handle_event evs (i\<lparr>idx_ready := x\<rparr>)) = byPodIP (fold handle_event evs i)" for evs i x
    by (rule ext) (simp add: b split: option.split)
  have all: "fold handle_event (drop n evs) (fold handle_event (take n evs) i) = fold handle_event evs i" for i
    by (metis append_take_drop_id fold_append comp_apply)
  have n: "idx_ready (New_Index key client ns mx) = False" "byPodIP (New_Index key client ns mx) = Map.empty"
    "labelKey (New_Index key client ns mx) = key" by (simp_all add: New_Index_def)
  show ?thesis
  proof (cases "herr = None \<and> synced")
    case True
    then have "res = None" "rest = drop n evs"
      "idx = (fold handle_event (take n evs) (New_Index key client ns mx))\<lparr>idx_ready := True\<rparr>"
      using assms by (simp_all add: Run_def Let_def)
    with True show ?thesis by (simp add: mgmt_handler_def Ready_def r g all) (simp add: b n split: option.split)
  next
    case False
    then have "\<not> idx_ready idx" using assms by (auto simp: Run_def Let_def r n split: option.splits if_splits)
    with False show ?thesis by (simp add: mgmt_handler_def Ready_def)
  qed
qed

text \<open>
  So the process can be ready while a pod of the initial list is still unknown to the index: its first request
  is a cache miss and depends on the API.
\<close>

definition listed_pod :: event where
  "listed_pod = AddEv (PodObj \<lparr>pod_name = ''p'', pod_labels = [''k'' \<mapsto> ''a''], pod_IP = ''10.0.0.1''\<rparr>)"

lemma listed_pod_effect: "last_effect ''k'' ''10.0.0.1'' [listed_pod] = Some (Some ''a'')"
  by (simp add: event_effect_def label_value_def listed_pod_def)

lemma ready_before_handlers_ran:
  "case Run None [listed_pod] 0 True (New_Index ''k'' True ''ns'' None) of (res, idx, rest) \<Rightarrow>
     fst (mgmt_handler (\<lambda>_. []) None idx ''/readyz'') = 200 \<and> lookupCache ''10.0.0.1'' idx = None \<and>
     lookupCache ''10.0.0.1'' (fold handle_event rest idx) = Some ''a''"
  by (simp add: Run_def New_Index_def mgmt_handler_def Ready_def lookupCache_def handle_event.simps upsertFromObj_def
      Let_def label_value_def listed_pod_def fun_upd_def)

theorem readyz_means_informer_synced_witness:
  "case Run None [listed_pod] 1 True (New_Index ''k'' True ''ns'' None) of (res, idx, rest) \<Rightarrow>
     fst (mgmt_handler (\<lambda>_. []) None idx ''/readyz'') = 200 \<and> byPodIP idx ''10.0.0.1'' = Some ''a''"
proof -
  obtain res idx rest where r: "Run None [listed_pod] 1 True (New_Index ''k'' True ''ns'' None) = (res, idx, rest)"
    by (cases "Run None [listed_pod] 1 True (New_Index ''k'' True ''ns'' None)") auto
  from readyz_means_informer_synced [OF r, of "\<lambda>_. []" None] r listed_pod_effect show ?thesis by simp
qed

section \<open>The reaper goroutine\<close>

text \<open>
  The ticks are a run of the program: between two scans the other goroutines run critical sections
  and leave the victims to the reaper, and each scan visits every key of the map once.
\<close>

fun ticks_ok :: "(string \<Rightarrow> Endpoint result \<Rightarrow> bool) \<Rightarrow> (string \<Rightarrow> ('w, err option) io) \<Rightarrow> 'w tick list \<Rightarrow> Manager \<Rightarrow> 'w \<Rightarrow> bool" where
  "ticks_ok ens del [] m w \<longleftrightarrow> True"
| "ticks_ok ens del (t # ts) m w \<longleftrightarrow>
     (case tk_before t m w of (m1, w1) \<Rightarrow>
        (mgr_step ens)\<^sup>*\<^sup>* m m1 \<and> victims m1 = [] \<and> distinct (tk_order t) \<and> set (tk_order t) = dom (sessions m1) \<and>
        (case reapOnce (tk_scan t) (tk_done t) (tk_order t) del m1 w1 of (m2, w2) \<Rightarrow> ticks_ok ens del ts m2 w2))"

lemma reap_deletes_steps: "(mgr_step ens)\<^sup>*\<^sup>* m (fst (reap_deletes now del n m w))"
proof (induction n arbitrary: m w)
  case (Suc n)
  show ?case
  proof (cases "victims m")
    case (Cons r rs)
    let ?pid = "case heap m r of None \<Rightarrow> [] | Some s \<Rightarrow> sID s"
    obtain res w1 where d: "del ?pid w = (res, w1)" by fastforce
    have "mgr_step ens m (reap_delete now res m)" by (rule mgr_step.deleted)
    with Suc.IH [of "reap_delete now res m" w1] Cons d show ?thesis
      by (simp add: Let_def converse_rtranclp_into_rtranclp)
  qed simp
qed simp

lemma reapOnce_steps:
  assumes "victims m = []" and "distinct order" and "set order = dom (sessions m)"
  shows "(mgr_step ens)\<^sup>*\<^sup>* m (fst (reapOnce now now' order del m w))"
  using converse_rtranclp_into_rtranclp [OF mgr_step.scan [OF assms] reap_deletes_steps]
  by (simp add: reapOnce_def Let_def)

lemma idleTTL_step: "mgr_step ens m m' \<Longrightarrow> idleTTL m' = idleTTL m"
proof (induction rule: mgr_step.induct)
  case (resolved r m s res t t' m')
  then show ?case
    by (auto simp: resolve_def close_ready_def record_failure_def record_success_def upd_session_def
        split: sum.splits option.splits if_splits)
next
  case (reconcile m now listed)
  have "idleTTL (reconcile_ids now ids m) = idleTTL m" for ids
    by (induction ids arbitrary: m) (simp_all add: start_session_def split: option.splits)
  then show ?case by (simp add: Reconcile_def split: sum.splits)
next
  case (scan m order now)
  have "idleTTL (fold (reap_visit c) ids m) = idleTTL m" for c ids m
    by (induction ids arbitrary: m) (simp_all add: reap_visit_def split: option.splits)
  then show ?case by (simp add: reap_scan_def Let_def)
next
  case (deleted m now res)
  then show ?case by (simp add: reap_delete_def Let_def split: list.splits option.splits)
next
  case (refresh m r s t t')
  then show ?case by (simp add: Refresh_enter_def Let_def split: option.splits)
qed (simp_all add: Get_enter_def Get_ready_def start_session_def upd_session_def split: option.splits)

lemma idleTTL_steps: "(mgr_step ens)\<^sup>*\<^sup>* m m' \<Longrightarrow> idleTTL m' = idleTTL m"
  by (induction rule: rtranclp_induct) (simp_all add: idleTTL_step)

text \<open>The state the scan of the \<open>i\<close>-th tick finds.\<close>

definition at_scan :: "(string \<Rightarrow> ('w, err option) io) \<Rightarrow> 'w tick list \<Rightarrow> nat \<Rightarrow> Manager \<Rightarrow> 'w \<Rightarrow> Manager \<times> 'w" where
  "at_scan del ts i m w = (case reap_ticks del (take i ts) m w of (m0, w0) \<Rightarrow> tk_before (ts ! i) m0 w0)"

lemma reap_ticks_Suc:
  "i < length ts \<Longrightarrow> reap_ticks del (take (Suc i) ts) m w =
     (case at_scan del ts i m w of (m1, w1) \<Rightarrow>
        reapOnce (tk_scan (ts ! i)) (tk_done (ts ! i)) (tk_order (ts ! i)) del m1 w1)"
proof (induction ts arbitrary: i m w)
  case (Cons t ts)
  show ?case
  proof (cases i)
    case 0
    then show ?thesis by (simp add: at_scan_def split: prod.splits)
  next
    case (Suc j)
    with Cons.prems Cons.IH [of j] show ?thesis by (simp add: at_scan_def split: prod.splits)
  qed
qed simp

lemma scan_ok:
  assumes "mgr_reach ens m" and "victims m = []" and "ticks_ok ens del ts m w" and "i < length ts"
    and "at_scan del ts i m w = (m1, w1)"
  shows "mgr_reach ens m1 \<and> idleTTL m1 = idleTTL m \<and> distinct (tk_order (ts ! i)) \<and> set (tk_order (ts ! i)) = dom (sessions m1)"
  using assms
proof (induction ts arbitrary: i m w)
  case (Cons t ts)
  obtain m0 w0 where b: "tk_before t m w = (m0, w0)" by fastforce
  obtain m2 w2 where o: "reapOnce (tk_scan t) (tk_done t) (tk_order t) del m0 w0 = (m2, w2)" by fastforce
  have ok: "(mgr_step ens)\<^sup>*\<^sup>* m m0" "victims m0 = []" "distinct (tk_order t)" "set (tk_order t) = dom (sessions m0)"
    "ticks_ok ens del ts m2 w2" using Cons.prems(3) b o by auto
  have r0: "mgr_reach ens m0" using steps_reach [OF ok(1) Cons.prems(1)] .
  show ?case
  proof (cases i)
    case 0
    with Cons.prems(5) b ok r0 idleTTL_steps [OF ok(1)] show ?thesis by (simp add: at_scan_def)
  next
    case (Suc j)
    have "(mgr_step ens)\<^sup>*\<^sup>* m0 m2"
      using reapOnce_steps [OF ok(2-4), of ens "tk_scan t" "tk_done t" del w0] o by simp
    then have r2: "mgr_reach ens m2" "idleTTL m2 = idleTTL m"
      using steps_reach r0 idleTTL_steps idleTTL_steps [OF ok(1)] by (blast, metis)
    have "mgr_reach ens (reap_scan (tk_scan t) (tk_order t) m0)"
      using mgr_reach.step [OF r0 mgr_step.scan [OF ok(2-4)]] .
    then have "\<forall>r \<in> set (victims (reap_scan (tk_scan t) (tk_order t) m0)).
        heap (reap_scan (tk_scan t) (tk_order t) m0) r \<noteq> None"
      using inv_victims [OF reach_inv] by blast
    then have v: "victims m2 = []"
      using reap_deletes_effect [OF refl, of "reap_scan (tk_scan t) (tk_order t) m0" "tk_done t" del w0] o
      by (simp add: reapOnce_def Let_def)
    have "at_scan del ts j m2 w2 = (m1, w1)" using Cons.prems(5) Suc b o by (simp add: at_scan_def)
    from Cons.IH [OF r2(1) v ok(5) _ this] Cons.prems(4) Suc r2(2) show ?thesis by simp
  qed
qed simp

text \<open>Ticks that come often enough reach every later instant without overshooting it by more than the gap.\<close>

lemma first_tick_due:
  fixes due gap :: int
  assumes "\<forall>i. Suc i < length ts \<longrightarrow> f (ts ! Suc i) \<le> f (ts ! i) + gap" and "ts \<noteq> []"
    and "f (ts ! 0) < due + gap" and "due \<le> f (ts ! (length ts - 1))"
  shows "\<exists>i < length ts. due \<le> f (ts ! i) \<and> f (ts ! i) < due + gap \<and> (\<forall>j < i. f (ts ! j) < due)"
proof -
  define k where "k = (LEAST i. due \<le> f (ts ! i))"
  have d: "due \<le> f (ts ! k)" unfolding k_def by (rule LeastI) (rule assms(4))
  have l: "k \<le> length ts - 1" unfolding k_def by (rule Least_le) (rule assms(4))
  have b: "f (ts ! j) < due" if "j < k" for j using not_less_Least [of j] that unfolding k_def by fastforce
  have len: "k < length ts" using l assms(2) by (cases ts) auto
  have "f (ts ! k) < due + gap"
  proof (cases k)
    case 0
    then show ?thesis using assms(3) by simp
  next
    case (Suc j)
    with assms(1) len have "f (ts ! k) \<le> f (ts ! j) + gap" by simp
    moreover have "f (ts ! j) < due" using b Suc by simp
    ultimately show ?thesis by simp
  qed
  with d b len show ?thesis by blast
qed

text \<open>The current session of an id is resolved, has no open connections and was last active at the latest at \<open>a\<close>.\<close>

definition idle_since :: "instant \<Rightarrow> string \<Rightarrow> Manager \<Rightarrow> bool" where
  "idle_since a pid m \<longleftrightarrow> (\<exists>r s. sessions m pid = Some r \<and> heap m r = Some s \<and> ready s \<and> ActiveConns s \<le> 0 \<and> LastActive s \<le> a)"

text \<open>
  C18.  An idle session is torn down in time.  Let \<open>ReapLoop\<close> run with a positive interval, in a reachable state
  of the manager, and let an id be due at \<open>a + idleTTL\<close>.  Assumed: consecutive scans are at most \<open>gap\<close> apart
  (the interval of the ticker, or what a round of deletions takes if that is longer), the first one is
  before \<open>a + idleTTL + gap\<close> and the last one not before \<open>a + idleTTL\<close>; between the rounds other goroutines run any
  critical sections, and no others during a round; and every scan up to the first one that is due finds a
  session of the id that is resolved, without open connections and last active no later than \<open>a\<close>.  Then a scan
  before \<open>a + idleTTL + gap\<close> drops the session, and its round calls \<open>Delete\<close> for the id.
\<close>

theorem idle_session_deleted_in_time:
  assumes "0 < interval" and "mgr_reach ens m" and "victims m = []" and "ticks_ok ens del ts m w" and "ts \<noteq> []"
    and "\<forall>i. Suc i < length ts \<longrightarrow> tk_scan (ts ! Suc i) \<le> tk_scan (ts ! i) + gap"
    and "tk_scan (ts ! 0) < a + idleTTL m + gap" and "a + idleTTL m \<le> tk_scan (ts ! (length ts - 1))"
    and "\<forall>i < length ts. (\<forall>j < i. tk_scan (ts ! j) < a + idleTTL m) \<longrightarrow> idle_since a pid (fst (at_scan del ts i m w))"
  shows "\<exists>i < length ts. \<exists>m2 w2 before after. tk_scan (ts ! i) < a + idleTTL m + gap \<and>
    ReapLoop interval del (take (Suc i) ts) m w = Some (m2, w2) \<and> sessions m2 pid = None \<and>
    w2 = fold (\<lambda>q v. snd (del q v)) (before @ pid # after) (snd (at_scan del ts i m w))"
proof -
  from first_tick_due [OF assms(6,5,7,8)] obtain i where i: "i < length ts" "a + idleTTL m \<le> tk_scan (ts ! i)"
    "tk_scan (ts ! i) < a + idleTTL m + gap" "\<forall>j < i. tk_scan (ts ! j) < a + idleTTL m" by blast
  let ?t = "ts ! i"
  obtain m1 w1 where s: "at_scan del ts i m w = (m1, w1)" by fastforce
  note ok = scan_ok [OF assms(2-4) i(1) s]
  obtain m2 w2 where o: "reapOnce (tk_scan ?t) (tk_done ?t) (tk_order ?t) del m1 w1 = (m2, w2)" by fastforce
  let ?d = "doomed (tk_scan ?t - idleTTL m1) m1"
  have "idle_since a pid m1" using assms(9) i(1,4) s by (metis fst_conv)
  then have d: "?d pid" using i(2) ok by (auto simp: idle_since_def doomed_def reapable_def)
  then have "pid \<in> set (filter ?d (tk_order ?t))" using ok by (auto simp: doomed_def)
  then obtain bef aft where f: "filter ?d (tk_order ?t) = bef @ pid # aft" by (meson split_list)
  have "mgr_reach ens m1" "distinct (tk_order ?t)" "set (tk_order ?t) = dom (sessions m1)" using ok by simp_all
  note e = reapOnce_effect [OF this, of "tk_scan ?t" "tk_done ?t" del w1]
  have "w2 = fold (\<lambda>q v. snd (del q v)) (bef @ pid # aft) w1" using e o f by simp
  moreover have "sessions m2 pid = None" using e o d reap_scan_effect(1) [of "tk_order ?t" m1 "tk_scan ?t"] ok by simp
  moreover have "ReapLoop interval del (take (Suc i) ts) m w = Some (m2, w2)"
    using assms(1) reap_ticks_Suc [OF i(1), of del m w] s o by (simp add: ReapLoop_def)
  ultimately show ?thesis using i(1,3) s by (intro exI [of _ i] conjI exI [of _ m2] exI [of _ w2] exI [of _ bef] exI [of _ aft]) simp_all
qed

text \<open>Two ticks, 30 seconds apart, of which the second one finds the session idle for too long.\<close>

definition tick_at :: "instant \<Rightarrow> string list \<Rightarrow> nat tick" where
  "tick_at t order = \<lparr>tk_before = (\<lambda>m w. (m, w)), tk_scan = t, tk_done = t, tk_order = order\<rparr>"

lemma one_session_kept: "reapOnce 590 590 [''a''] del (one_session ep_example) w = (one_session ep_example, w)"
proof -
  have "m\<lparr>victims := []\<rparr> = m" if "victims m = []" for m :: Manager using that by (cases m) simp
  then have "(one_session ep_example)\<lparr>victims := []\<rparr> = one_session ep_example" by simp
  then show ?thesis
    by (simp add: reapOnce_def reap_scan_def reap_visit_def one_session_cell_def reapable_def LastActive_def Let_def)
qed

theorem idle_session_deleted_in_time_witness:
  "\<exists>i < 2. \<exists>m2 w2. ReapLoop 30 (\<lambda>_ w. (None, Suc w)) (take (Suc i) [tick_at 590 [''a''], tick_at 620 [''a'']]) (one_session ep_example) 0 =
      Some (m2, w2) \<and> sessions m2 ''a'' = None \<and> 0 < w2"
proof -
  let ?ts = "[tick_at 590 [''a''], tick_at 620 [''a'']]" and ?del = "\<lambda>_ w. (None, Suc w)" and ?m = "one_session ep_example"
  have idle: "idle_since 0 ''a'' ?m" by (simp add: idle_since_def one_session_cell_def ActiveConns_def LastActive_def)
  have s: "at_scan ?del ?ts i ?m 0 = (?m, 0)" if "i < 2" for i
    using that by (cases i) (simp_all add: at_scan_def tick_at_def one_session_kept)
  have ok: "ticks_ok (\<lambda>_ res. res = Inr ep_example) ?del ?ts ?m 0" by (simp add: tick_at_def one_session_kept split: prod.splits)
  have p: "?ts \<noteq> []" "\<forall>i. Suc i < length ?ts \<longrightarrow> tk_scan (?ts ! Suc i) \<le> tk_scan (?ts ! i) + 30"
    "tk_scan (?ts ! 0) < 0 + idleTTL ?m + 30" "0 + idleTTL ?m \<le> tk_scan (?ts ! (length ?ts - 1))"
    "\<forall>i < length ?ts. (\<forall>j < i. tk_scan (?ts ! j) < 0 + idleTTL ?m) \<longrightarrow> idle_since 0 ''a'' (fst (at_scan ?del ?ts i ?m 0))"
    using s idle by (simp_all add: tick_at_def)
  have "(0 :: int) < 30" "victims ?m = []" by simp_all
  note t = idle_session_deleted_in_time [OF this(1) reach_one_session this(2) ok p]
  moreover have "fold (\<lambda>q v. snd (?del q v)) (before @ ''a'' # after) n > 0" for before after :: "string list" and n :: nat
  proof -
    have "fold (\<lambda>q v. snd (?del q v)) xs n = n + length xs" for xs :: "string list" and n by (induction xs arbitrary: n) simp_all
    then show ?thesis by simp
  qed
  ultimately show ?thesis using t by (fastforce simp: numeral_2_eq_2)
qed

end
