(* ===== verification/Session_Spec.thy ===== *)
theory Session_Spec
  imports Session_Reap
begin

text \<open>
  What the session manager promises for one playwright-id, as a state machine of four phases, and the
  proof that every critical section of \<open>internal/session/session.go\<close>, in every interleaving, refines it
  under the abstraction \<open>phase_of\<close>.  What a client may conclude is proved of the specification and
  carried over.
\<close>

section \<open>The life of a session\<close>

text \<open>What a client can know of an id: the abstract state.\<close>

datatype phase =
    Absent
  | Resolving
  | Serving Endpoint
  | Broken err

definition phase_of :: "Manager \<Rightarrow> string \<Rightarrow> phase" where
  "phase_of m pid =
     (case sessions m pid of
        None \<Rightarrow> Absent
      | Some r \<Rightarrow>
          (case heap m r of
             None \<Rightarrow> Absent
           | Some s \<Rightarrow>
               if \<not> ready s then Resolving
               else case serr s of None \<Rightarrow> Serving (sEndpoint s) | Some e \<Rightarrow> Broken e))"

text \<open>The specification: one id on its own, as a state machine with four states.\<close>

inductive lifecycle :: "(Endpoint result \<Rightarrow> bool) \<Rightarrow> phase \<Rightarrow> phase \<Rightarrow> bool"
  for ens :: "Endpoint result \<Rightarrow> bool" where
  stay: "lifecycle ens p p"
| start: "lifecycle ens Absent Resolving"
| succeed: "ens (Inr ep) \<Longrightarrow> lifecycle ens Resolving (Serving ep)"
| fail: "ens (Inl e) \<Longrightarrow> lifecycle ens Resolving (Broken e)"
| retire: "lifecycle ens (Serving ep) Absent"
| discard: "lifecycle ens (Broken e) Absent"

inductive_cases lifecycle_from_Resolving: "lifecycle ens Resolving p"
inductive_cases lifecycle_from_Serving: "lifecycle ens (Serving ep) p"
inductive_cases lifecycle_to_Serving: "lifecycle ens p (Serving ep)"

lemma lifecycle_resolving: "lifecycle ens Resolving p \<Longrightarrow> p \<noteq> Absent"
  by (auto elim: lifecycle_from_Resolving)

lemma lifecycle_serving: "lifecycle ens (Serving ep) p \<Longrightarrow> p = Serving ep \<or> p = Absent"
  by (auto elim: lifecycle_from_Serving)

lemma lifecycle_provenance: "(lifecycle ens)\<^sup>*\<^sup>* Absent p \<Longrightarrow> p = Serving ep \<Longrightarrow> ens (Inr ep)"
  by (induction rule: rtranclp_induct) (auto elim: lifecycle_to_Serving)

lemma phase_cong:
  assumes "sessions m' pid = sessions m pid"
    and "\<And>r. sessions m pid = Some r \<Longrightarrow> map_option (\<lambda>s. (ready s, serr s, sEndpoint s)) (heap m' r) =
      map_option (\<lambda>s. (ready s, serr s, sEndpoint s)) (heap m r)"
  shows "phase_of m' pid = phase_of m pid"
  using assms
  by (cases "sessions m pid"; cases "heap m' (the (sessions m pid))"; cases "heap m (the (sessions m pid))")
    (auto simp: phase_of_def split: option.split)

lemma phase_start:
  assumes "mgr_inv ens m" and "sessions m pid = None"
  shows "phase_of (snd (start_session pid c a m)) p = (if p = pid then Resolving else phase_of m p)"
proof (cases "p = pid")
  case True
  then show ?thesis by (simp add: phase_of_def start_session_def)
next
  case False
  have "phase_of (snd (start_session pid c a m)) p = phase_of m p"
    using False inv_sessions [OF assms(1), of p] inv_fresh [OF assms(1)]
    by (intro phase_cong) (fastforce simp: start_session_def)+
  with False show ?thesis by simp
qed

lemma phase_absent: "mgr_inv ens m \<Longrightarrow> sessions m pid = None \<longleftrightarrow> phase_of m pid = Absent"
  using inv_sessions [of ens m pid] by (auto simp: phase_of_def split: option.splits)

lemma phase_reconcile:
  "mgr_inv ens m \<Longrightarrow> phase_of (reconcile_ids now ids m) p =
     (if phase_of m p = Absent \<and> p \<in> set ids then Resolving else phase_of m p)"
proof (induction ids arbitrary: m)
  case (Cons pid ids)
  show ?case
  proof (cases "sessions m pid")
    case None
    with Cons.prems have "mgr_inv ens (snd (start_session pid now now m))" by (rule inv_start_session)
    from Cons.IH [OF this] None show ?thesis
      using phase_start [OF Cons.prems None, of now now p] phase_absent [OF Cons.prems, of pid] by auto
  next
    case (Some r)
    with Cons phase_absent [OF Cons.prems, of pid] show ?thesis by auto
  qed
qed simp

lemma phase_drop:
  "sessions m' = (sessions m)(pid := None) \<Longrightarrow> heap m' = heap m \<Longrightarrow>
     phase_of m' p = (if p = pid then Absent else phase_of m p)"
  by (simp add: phase_of_def split: option.split)

lemma phase_upd_session:
  assumes "\<And>s. ready (f s) = ready s \<and> serr (f s) = serr s \<and> sEndpoint (f s) = sEndpoint s"
  shows "phase_of (upd_session r f m) p = phase_of m p"
  using assms by (intro phase_cong) (auto simp: upd_session_def split: option.splits)

lemma phase_resolved:
  assumes "mgr_inv ens m" and "heap m r = Some s" and "\<not> ready s" and "ens (sID s) res"
    and "resolve r t t' res m = Some m'"
  shows "lifecycle (ens p) (phase_of m p) (phase_of m' p)"
proof -
  from resolve_effect [OF assms(2,3), of t t' res] assms(5) obtain mx where
    m': "m' = m\<lparr>mmetrics := mx, heap := (heap m)(r \<mapsto> publish res s), resolving := remove1 r (resolving m)\<rparr>"
    by auto
  show ?thesis
  proof (cases "sessions m p = Some r")
    case True
    then have id: "sID s = p" using inv_sessions [OF assms(1) True] assms(2) by auto
    have before: "phase_of m p = Resolving" using True assms(2,3) by (simp add: phase_of_def)
    have ok: "serr s = None" using inv_heap [OF assms(1,2)] assms(3) by (simp add: session_ok_def)
    have "phase_of m' p = (case res of Inl e \<Rightarrow> Broken e | Inr ep \<Rightarrow> Serving ep)"
      using True ok by (simp add: phase_of_def m' publish_def split: sum.splits)
    with before assms(4) id show ?thesis
      by (cases res) (auto intro: lifecycle.succeed lifecycle.fail)
  next
    case False
    have "phase_of m' p = phase_of m p"
      using False by (intro phase_cong) (auto simp: m')
    then show ?thesis by (simp add: lifecycle.stay)
  qed
qed

lemma lifecycle_drop:
  assumes "phase_of m' p = (if p = pid then Absent else phase_of m p)"
    and "phase_of m pid \<noteq> Resolving"
  shows "lifecycle ens (phase_of m p) (phase_of m' p)"
  using assms by (cases "phase_of m p") (auto intro: lifecycle.intros)

lemma lifecycle_same:
  assumes "sessions m' = sessions m" and "heap m' = heap m"
  shows "lifecycle ens (phase_of m p) (phase_of m' p)"
proof -
  have "phase_of m' p = phase_of m p" using assms by (intro phase_cong) simp_all
  then show ?thesis by (simp add: lifecycle.stay)
qed

lemma lifecycle_Get_enter:
  assumes "mgr_inv ens m"
  shows "lifecycle (ens p) (phase_of m p) (phase_of (snd (Get_enter c a pid m)) p)"
proof (cases "sessions m pid")
  case None
  with phase_start [OF assms None, of c a p] phase_absent [OF assms, of pid]
  show ?thesis by (auto simp: Get_enter_def intro: lifecycle.intros)
next
  case (Some r)
  then show ?thesis by (auto simp: Get_enter_def intro: lifecycle.stay)
qed

lemma lifecycle_Get_ready:
  assumes "heap m r = Some s" and "ready s"
  shows "lifecycle ens (phase_of m p) (phase_of (snd (Get_ready (sID s) r m)) p)"
proof (cases "serr s \<noteq> None \<and> sessions m (sID s) = Some r")
  case True
  with assms have "snd (Get_ready (sID s) r m) = m\<lparr>sessions := (sessions m)(sID s := None)\<rparr>"
    by (auto simp: Get_ready_def)
  then have "phase_of (snd (Get_ready (sID s) r m)) p = (if p = sID s then Absent else phase_of m p)"
    by (simp add: phase_drop)
  moreover have "phase_of m (sID s) \<noteq> Resolving" using True assms by (auto simp: phase_of_def split: option.splits)
  ultimately show ?thesis by (rule lifecycle_drop)
next
  case False
  with assms have "snd (Get_ready (sID s) r m) = m" by (auto simp: Get_ready_def split: option.splits)
  then show ?thesis by (simp add: lifecycle.stay)
qed

lemma lifecycle_Refresh_enter:
  assumes "heap m r = Some s" and "ready s"
  shows "lifecycle ens (phase_of m p) (phase_of (snd (Refresh_enter t t' r (sID s) m)) p)"
proof (cases "sessions (snd (Refresh_enter t t' r (sID s) m)) = sessions m")
  case True
  then show ?thesis by (intro lifecycle_same) simp_all
next
  case False
  then have d: "sessions (snd (Refresh_enter t t' r (sID s) m)) = (sessions m)(sID s := None)" "sessions m (sID s) = Some r"
    by (auto simp: Refresh_enter_def Let_def split: option.splits if_splits)
  have "phase_of m (sID s) \<noteq> Resolving" using d(2) assms by (simp add: phase_of_def split: option.split)
  with phase_drop [OF d(1), of p] show ?thesis by (intro lifecycle_drop) simp_all
qed

lemma lifecycle_reap_scan:
  assumes "distinct order" and "set order = dom (sessions m)"
  shows "lifecycle ens (phase_of m p) (phase_of (reap_scan now order m) p)"
proof -
  have "phase_of (reap_scan now order m) p = (if doomed (now - idleTTL m) m p then Absent else phase_of m p)"
    using reap_scan_effect(1) [OF assms, of now] by (simp add: phase_of_def split: option.split)
  moreover have "phase_of m p \<noteq> Resolving" if "doomed (now - idleTTL m) m p"
    using that by (auto simp: doomed_def reapable_def phase_of_def split: option.splits)
  ultimately show ?thesis by (cases "phase_of m p") (auto intro: lifecycle.intros)
qed

lemma step_lifecycle:
  assumes "mgr_step ens m m'" and "mgr_inv ens m"
  shows "lifecycle (ens p) (phase_of m p) (phase_of m' p)"
  using assms
proof cases
  case (resolved r s res t t')
  moreover have "\<not> ready s" using inv_resolving [OF assms(2) resolved(1)] resolved(2) by auto
  ultimately show ?thesis using phase_resolved [OF assms(2)] by blast
next
  case (reconcile now listed)
  then show ?thesis
    using phase_reconcile [OF assms(2), of now _ p]
    by (cases listed) (auto simp: Reconcile_def intro: lifecycle.intros)
next
  case (deleted now res)
  then show ?thesis
    by (intro lifecycle_same) (simp_all add: reap_delete_def Let_def split: list.splits option.splits)
next
  case (counted mx)
  then show ?thesis by (intro lifecycle_same) simp_all
qed (simp_all add: lifecycle_Get_enter lifecycle_Get_ready lifecycle_Refresh_enter lifecycle_reap_scan
    phase_upd_session MarkActive_def ConnOpened_def ConnClosed_def lifecycle.stay)

lemma reach_lifecycle: "mgr_reach ens m \<Longrightarrow> (lifecycle (ens pid))\<^sup>*\<^sup>* Absent (phase_of m pid)"
proof (induction rule: mgr_reach.induct)
  case (init kind timeout ttl mx)
  show ?case by (simp add: phase_of_def New_Manager_def)
next
  case (step m m')
  from step(3) step_lifecycle [OF step(2) reach_inv [OF step(1)]] show ?case
    by (rule rtranclp.rtrancl_into_rtrancl)
qed

text \<open>
  C4.  The session manager refines the life of each id on its own.  Seen from one playwright-id, every
  reachable state is the result of a run of the four-state machine \<open>lifecycle\<close> from \<open>Absent\<close>, and
  every critical section of any goroutine is at most one of its transitions.  So a session in
  resolution is never dropped before \<open>Ensure\<close> answered, an endpoint in use is never exchanged in
  place, and what is served is an answer of \<open>Ensure\<close> for that id.
\<close>

theorem sessions_refine_lifecycle:
  assumes "mgr_reach ens m"
  shows "(lifecycle (ens pid))\<^sup>*\<^sup>* Absent (phase_of m pid) \<and>
    (\<forall>m'. mgr_step ens m m' \<longrightarrow> lifecycle (ens pid) (phase_of m pid) (phase_of m' pid) \<and>
       (phase_of m pid = Resolving \<longrightarrow> phase_of m' pid \<noteq> Absent) \<and>
       (\<forall>ep. phase_of m pid = Serving ep \<longrightarrow> phase_of m' pid \<in> {Serving ep, Absent})) \<and>
    (\<forall>ep. phase_of m pid = Serving ep \<longrightarrow> ens pid (Inr ep))"
proof (intro conjI allI impI)
  show r: "(lifecycle (ens pid))\<^sup>*\<^sup>* Absent (phase_of m pid)" by (rule reach_lifecycle [OF assms])
  then show "ens pid (Inr ep)" if "phase_of m pid = Serving ep" for ep using that by (rule lifecycle_provenance)
  fix m' assume "mgr_step ens m m'"
  then show s: "lifecycle (ens pid) (phase_of m pid) (phase_of m' pid)"
    using reach_inv [OF assms] by (rule step_lifecycle)
  show "phase_of m' pid \<noteq> Absent" if "phase_of m pid = Resolving" using s that lifecycle_resolving by metis
  show "phase_of m' pid \<in> {Serving ep, Absent}" if "phase_of m pid = Serving ep" for ep
    using s that lifecycle_serving by fastforce
qed

theorem sessions_refine_lifecycle_witness:
  "(lifecycle (\<lambda>res. res = Inr ep_example))\<^sup>*\<^sup>* Absent (phase_of (one_session ep_example) ''a'') \<and>
   phase_of (one_session ep_example) ''a'' = Serving ep_example"
proof -
  have "phase_of (one_session ep_example) ''a'' = Serving ep_example"
    by (simp add: phase_of_def one_session_cell_def)
  with sessions_refine_lifecycle [OF reach_one_session, of ep_example "''a''"] show ?thesis by simp
qed

text \<open>
  C5.  The state of the manager is well formed in every interleaving: no reference dangles, an entry of
  the map is a session of its own key, the goroutines in flight are distinct and are exactly the
  sessions whose channel is open, these are all in the map, and the sessions given to the reaper are
  resolved.
\<close>

theorem manager_state_well_formed:
  assumes "mgr_reach ens m"
  shows "(\<forall>pid r. sessions m pid = Some r \<longrightarrow> (\<exists>s. heap m r = Some s \<and> sID s = pid)) \<and>
    distinct (resolving m) \<and>
    (\<forall>r. r \<in> set (resolving m) \<longleftrightarrow> (\<exists>s. heap m r = Some s \<and> \<not> ready s)) \<and>
    (\<forall>r s. heap m r = Some s \<and> \<not> ready s \<longrightarrow> sessions m (sID s) = Some r) \<and>
    (\<forall>r \<in> set (victims m). \<exists>s. heap m r = Some s \<and> ready s) \<and>
    finite (dom (sessions m)) \<and> activeCount m \<le> fresh m"
proof -
  note inv = reach_inv [OF assms]
  have r: "r \<in> set (resolving m)" if "heap m r = Some s" "\<not> ready s" for r s
    using inv_heap [OF inv that(1)] that(2) by (simp add: session_ok_def)
  have inj: "inj_on (the \<circ> sessions m) (dom (sessions m))"
  proof (rule inj_onI)
    fix p q assume "p \<in> dom (sessions m)" "q \<in> dom (sessions m)" "(the \<circ> sessions m) p = (the \<circ> sessions m) q"
    then obtain k where k: "sessions m p = Some k" "sessions m q = Some k" by auto
    from inv_sessions [OF inv k(1)] inv_sessions [OF inv k(2)] show "p = q" by auto
  qed
  moreover have "(the \<circ> sessions m) ` dom (sessions m) \<subseteq> {..< fresh m}"
    using inv_sessions [OF inv] inv_fresh [OF inv] by fastforce
  ultimately have "card (dom (sessions m)) \<le> card {..< fresh m}"
    by (metis card_image card_mono finite_lessThan)
  then have c: "activeCount m \<le> fresh m" by (simp add: activeCount_def)
  show ?thesis
    using inv_sessions [OF inv] inv_distinct [OF inv] inv_resolving [OF inv] r inv_unready_current [OF inv]
      inv_victims [OF inv] inv_finite [OF inv] c by blast
qed

theorem manager_state_well_formed_witness:
  "distinct (resolving (refresh_race ep_example)) \<and> activeCount (refresh_race ep_example) \<le> 2"
proof -
  have "fresh (refresh_race ep_example) = 2" by (simp add: refresh_race_def mgr_eval)
  with manager_state_well_formed [OF reach_refresh_race, of ep_example] show ?thesis by simp
qed

section \<open>Waiters\<close>

lemma outcome_publish: "serr s = None \<Longrightarrow> outcome (publish res s) = res"
  by (cases res) (simp_all add: outcome_def publish_def)

text \<open>
  C7.  No waiter is stranded.  A session whose channel is open has an \<open>Ensure\<close> in flight; whatever
  answer \<open>Ensure\<close> gives for its id, the \<open>resolve\<close> in flight publishes it without a panic, and from then on,
  in every state the goroutines can bring about, even after the session was reaped, dropped or replaced, a
  caller of \<open>Get\<close> that waits on this session returns with that answer: the session with the endpoint, or
  the error.
\<close>

theorem waiters_get_the_answer:
  assumes "mgr_reach ens m" and "heap m r = Some s" and "\<not> ready s"
  shows "r \<in> set (resolving m) \<and>
    (\<forall>res t t'. ens (sID s) res \<longrightarrow> (\<exists>m1. resolve r t t' res m = Some m1 \<and> mgr_step ens m m1 \<and>
      (\<forall>m2. (mgr_step ens)\<^sup>*\<^sup>* m1 m2 \<longrightarrow> (\<exists>s2. heap m2 r = Some s2 \<and> ready s2 \<and>
         fst (Get_ready (sID s) r m2) = (case res of Inl e \<Rightarrow> Inl e | Inr _ \<Rightarrow> Inr r) \<and>
         (\<forall>ep. res = Inr ep \<longrightarrow> sEndpoint s2 = ep)))))"
proof (intro conjI allI impI)
  have inv: "mgr_inv ens m" using assms(1) by (rule reach_inv)
  have ok: "r \<in> set (resolving m)" "serr s = None" using inv_heap [OF inv assms(2)] assms(3) by (simp_all add: session_ok_def)
  show "r \<in> set (resolving m)" by (rule ok(1))
  fix res t t' assume e: "ens (sID s) res"
  obtain m1 where m1: "resolve r t t' res m = Some m1" "heap m1 r = Some (publish res s)"
    using resolve_effect [OF assms(2,3), of t t' res] by auto
  have st: "mgr_step ens m m1" using ok(1) assms(2) e m1(1) by (rule mgr_step.resolved)
  then have inv1: "mgr_inv ens m1" using inv inv_step by blast
  have "\<exists>s2. heap m2 r = Some s2 \<and> ready s2 \<and>
       fst (Get_ready (sID s) r m2) = (case res of Inl e \<Rightarrow> Inl e | Inr _ \<Rightarrow> Inr r) \<and>
       (\<forall>ep. res = Inr ep \<longrightarrow> sEndpoint s2 = ep)" if run: "(mgr_step ens)\<^sup>*\<^sup>* m1 m2" for m2
  proof -
    obtain s2 where s2: "heap m2 r = Some s2" "keeps (publish res s) s2"
      using steps_keep [OF run inv1] m1(2) unfolding heap_keeps_def by blast
    then have "ready s2" "outcome s2 = res" using outcome_publish [OF ok(2)] by (simp_all add: keeps_def)
    with s2(1) show ?thesis by (auto simp: Get_ready_def outcome_def split: option.splits)
  qed
  with m1(1) st show "\<exists>m1. resolve r t t' res m = Some m1 \<and> mgr_step ens m m1 \<and>
      (\<forall>m2. (mgr_step ens)\<^sup>*\<^sup>* m1 m2 \<longrightarrow> (\<exists>s2. heap m2 r = Some s2 \<and> ready s2 \<and>
         fst (Get_ready (sID s) r m2) = (case res of Inl e \<Rightarrow> Inl e | Inr _ \<Rightarrow> Inr r) \<and>
         (\<forall>ep. res = Inr ep \<longrightarrow> sEndpoint s2 = ep)))" by blast
qed

theorem waiters_get_the_answer_witness:
  "let m = snd (Get_enter 0 0 ''a'' (New_Manager ''sandboxclaim'' 30 600 None))
   in \<exists>m1. resolve 0 0 1 (Inr ep_example) m = Some m1 \<and> fst (Get_ready ''a'' 0 m1) = Inr 0"
proof -
  let ?m = "snd (Get_enter 0 0 ''a'' (New_Manager ''sandboxclaim'' 30 600 None))" and ?e = "\<lambda>_ _. True"
  let ?s = "\<lparr>sID = ''a'', sEndpoint = zero_Endpoint, created = 0, lastActive = 0, activeConn = 0, ready = False, serr = None\<rparr>"
  have h: "heap ?m 0 = Some ?s" by (simp add: Get_enter_def New_Manager_def start_session_def)
  have nr: "\<not> ready ?s" by simp
  from waiters_get_the_answer [OF reach_one_flight [of ?e] h nr] obtain m1 where
    m1: "resolve 0 0 1 (Inr ep_example) ?m = Some m1"
    "\<forall>m2. (mgr_step ?e)\<^sup>*\<^sup>* m1 m2 \<longrightarrow> fst (Get_ready (sID ?s) 0 m2) = (Inr 0 :: sref result)" by force
  have "fst (Get_ready ''a'' 0 m1) = Inr 0" using m1(2) by force
  with m1(1) show ?thesis unfolding Let_def by blast
qed

end
