(* ===== verification/Substrate_Frame.thy ===== *)
theory Substrate_Frame
  imports Substrate_Props
begin

text \<open>
  Which actors the substrate backend touches: \<open>Ensure\<close> and \<open>Delete\<close> of an id change nothing but the actor
  of that id.
\<close>

section \<open>Other actors are left alone\<close>

text \<open>
  What a call may change: \<open>obs ns n w\<close> is what can be observed of the actor \<open>n\<close> of the atespace \<open>ns\<close>,
  and a call that names one actor, in its reference, in the metadata of a creation or as the target of
  a request through the router, changes no other; timers change none.
\<close>

definition names_own :: "(string \<Rightarrow> string \<Rightarrow> 'w \<Rightarrow> 'x) \<Rightarrow> ObjectRef option \<Rightarrow> ('w, 'a) io \<Rightarrow> bool" where
  "names_own obs r f \<longleftrightarrow> (\<forall>ns n w. r \<noteq> Some \<lparr>or_Atespace = ns, or_Name = n\<rparr> \<longrightarrow> obs ns n (snd (f w)) = obs ns n w)"

definition actor_frames :: "(string \<Rightarrow> string \<Rightarrow> 'w \<Rightarrow> 'x) \<Rightarrow> 'w sub_env \<Rightarrow> 'w control \<Rightarrow> bool" where
  "actor_frames obs env ctl \<longleftrightarrow>
     (\<forall>r. names_own obs (gar_Actor r) (cGetActor ctl r)) \<and>
     (\<forall>a md. names_own obs (Some \<lparr>or_Atespace = rm_Atespace md, or_Name = rm_Name md\<rparr>)
        (cCreateActor ctl \<lparr>car_Actor = Some (a\<lparr>a_Metadata := Some md\<rparr>)\<rparr>)) \<and>
     (\<forall>r. names_own obs (sar_Actor r) (cSuspendActor ctl r)) \<and>
     (\<forall>r. names_own obs (rar_Actor r) (cResumeActor ctl r)) \<and>
     (\<forall>r. names_own obs (dar_Actor r) (cDeleteActor ctl r)) \<and>
     (\<forall>r. names_own obs (gepr_Actor r) (cGetActorEgressPolicy ctl r)) \<and>
     (\<forall>r. names_own obs (cepr_Actor r) (cCreateActorEgressPolicy ctl r)) \<and>
     (\<forall>u t ns n w. t \<noteq> ns @ ''/'' @ n \<longrightarrow> obs ns n (snd (probeDo env u t w)) = obs ns n w) \<and>
     (\<forall>d ns n w. obs ns n (snd (after env d w)) = obs ns n w)"

text \<open>The step from one world to another leaves all actors of the atespace but \<open>i\<close> alone.\<close>

definition others_same :: "(string \<Rightarrow> string \<Rightarrow> 'w \<Rightarrow> 'x) \<Rightarrow> Substrate \<Rightarrow> string \<Rightarrow> 'w \<Rightarrow> 'w \<Rightarrow> bool" where
  "others_same obs s i w w' \<longleftrightarrow> (\<forall>n. n \<noteq> i \<longrightarrow> obs (actorTemplateNS s) n w' = obs (actorTemplateNS s) n w)"

lemma others_refl: "others_same obs s i w w"
  by (simp add: others_same_def)

lemma others_trans: "others_same obs s i w w1 \<Longrightarrow> others_same obs s i w1 w2 \<Longrightarrow> others_same obs s i w w2"
  by (simp add: others_same_def)

lemma own_call: "names_own obs (Some (actorRef s i)) f \<Longrightarrow> f w = (x, w') \<Longrightarrow> others_same obs s i w w'"
  unfolding names_own_def others_same_def actorRef_def
  by (metis ObjectRef.select_convs(2) option.inject snd_conv)

lemma frame_calls:
  assumes "actor_frames obs env ctl"
  shows "cGetActor ctl \<lparr>gar_Actor = Some (actorRef s i)\<rparr> w = (x1, w') \<Longrightarrow> others_same obs s i w w'"
    and "cCreateActor ctl \<lparr>car_Actor = Some \<lparr>a_Metadata = Some \<lparr>rm_Atespace = actorTemplateNS s, rm_Name = i\<rparr>,
        a_ActorTemplate = t, a_Status = st\<rparr>\<rparr> w = (x1, w') \<Longrightarrow> others_same obs s i w w'"
    and "cSuspendActor ctl \<lparr>sar_Actor = Some (actorRef s i)\<rparr> w = (x2, w') \<Longrightarrow> others_same obs s i w w'"
    and "cResumeActor ctl \<lparr>rar_Actor = Some (actorRef s i)\<rparr> w = (x2, w') \<Longrightarrow> others_same obs s i w w'"
    and "cDeleteActor ctl \<lparr>dar_Actor = Some (actorRef s i), dar_AnyState = b\<rparr> w = (x1, w') \<Longrightarrow> others_same obs s i w w'"
    and "cGetActorEgressPolicy ctl \<lparr>gepr_Actor = Some (actorRef s i), gepr_Name = k\<rparr> w = (x3, w') \<Longrightarrow> others_same obs s i w w'"
    and "cCreateActorEgressPolicy ctl \<lparr>cepr_Actor = Some (actorRef s i), cepr_EgressPolicy = p\<rparr> w = (x3, w') \<Longrightarrow>
      others_same obs s i w w'"
    and "probeDo env u (target_actor s i) w = (x4, w') \<Longrightarrow> others_same obs s i w w'"
    and "after env d w = (x2, w') \<Longrightarrow> others_same obs s i w w'"
proof -
  have f: "\<And>r. names_own obs (gar_Actor r) (cGetActor ctl r)"
    "\<And>a md. names_own obs (Some \<lparr>or_Atespace = rm_Atespace md, or_Name = rm_Name md\<rparr>)
        (cCreateActor ctl \<lparr>car_Actor = Some (a\<lparr>a_Metadata := Some md\<rparr>)\<rparr>)"
    "\<And>r. names_own obs (sar_Actor r) (cSuspendActor ctl r)" "\<And>r. names_own obs (rar_Actor r) (cResumeActor ctl r)"
    "\<And>r. names_own obs (dar_Actor r) (cDeleteActor ctl r)"
    "\<And>r. names_own obs (gepr_Actor r) (cGetActorEgressPolicy ctl r)"
    "\<And>r. names_own obs (cepr_Actor r) (cCreateActorEgressPolicy ctl r)"
    and p: "\<And>u t ns n w. t \<noteq> ns @ ''/'' @ n \<Longrightarrow> obs ns n (snd (probeDo env u t w)) = obs ns n w"
    and d: "\<And>d ns n w. obs ns n (snd (after env d w)) = obs ns n w"
    using assms by (simp_all add: actor_frames_def)
  show "cGetActor ctl \<lparr>gar_Actor = Some (actorRef s i)\<rparr> w = (x1, w') \<Longrightarrow> others_same obs s i w w'"
    using f(1) [of "\<lparr>gar_Actor = Some (actorRef s i)\<rparr>"] by (auto intro: own_call)
  show "cSuspendActor ctl \<lparr>sar_Actor = Some (actorRef s i)\<rparr> w = (x2, w') \<Longrightarrow> others_same obs s i w w'"
    using f(3) [of "\<lparr>sar_Actor = Some (actorRef s i)\<rparr>"] by (auto intro: own_call)
  show "cResumeActor ctl \<lparr>rar_Actor = Some (actorRef s i)\<rparr> w = (x2, w') \<Longrightarrow> others_same obs s i w w'"
    using f(4) [of "\<lparr>rar_Actor = Some (actorRef s i)\<rparr>"] by (auto intro: own_call)
  show "cDeleteActor ctl \<lparr>dar_Actor = Some (actorRef s i), dar_AnyState = b\<rparr> w = (x1, w') \<Longrightarrow> others_same obs s i w w'"
    using f(5) [of "\<lparr>dar_Actor = Some (actorRef s i), dar_AnyState = b\<rparr>"] by (auto intro: own_call)
  show "cGetActorEgressPolicy ctl \<lparr>gepr_Actor = Some (actorRef s i), gepr_Name = k\<rparr> w = (x3, w') \<Longrightarrow> others_same obs s i w w'"
    using f(6) [of "\<lparr>gepr_Actor = Some (actorRef s i), gepr_Name = k\<rparr>"] by (auto intro: own_call)
  show "cCreateActorEgressPolicy ctl \<lparr>cepr_Actor = Some (actorRef s i), cepr_EgressPolicy = p\<rparr> w = (x3, w') \<Longrightarrow> others_same obs s i w w'"
    using f(7) [of "\<lparr>cepr_Actor = Some (actorRef s i), cepr_EgressPolicy = p\<rparr>"] by (auto intro: own_call)
  show "cCreateActor ctl \<lparr>car_Actor = Some \<lparr>a_Metadata = Some \<lparr>rm_Atespace = actorTemplateNS s, rm_Name = i\<rparr>,
        a_ActorTemplate = t, a_Status = st\<rparr>\<rparr> w = (x1, w') \<Longrightarrow> others_same obs s i w w'"
    using f(2) [of "\<lparr>rm_Atespace = actorTemplateNS s, rm_Name = i\<rparr>" "\<lparr>a_Metadata = None, a_ActorTemplate = t, a_Status = st\<rparr>"]
    by (auto intro: own_call simp flip: actorRef_def)
  show "probeDo env u (target_actor s i) w = (x4, w') \<Longrightarrow> others_same obs s i w w'"
    using p [of "target_actor s i" "actorTemplateNS s" _ u w] by (auto simp: others_same_def target_actor_def)
  show "after env d w = (x2, w') \<Longrightarrow> others_same obs s i w w'"
    using d [of "actorTemplateNS s" _ d w] by (auto simp: others_same_def)
qed

lemma own_getOrCreate:
  assumes "actor_frames obs env ctl" and "sub_getOrCreate env ctl s i w = (x, w')"
  shows "others_same obs s i w w'"
  using assms(2)
  by (auto simp: sub_getOrCreate_def split: prod.splits sum.splits if_splits
      dest!: frame_calls(1,2) [OF assms(1)] intro: others_trans)

lemma own_fetch_policy:
  assumes "actor_frames obs env ctl" and "fetch_policy env ctl s i w = (x, w')"
  shows "others_same obs s i w w'"
  using assms(2)
  by (auto simp: fetch_policy_def Let_def split: prod.splits sum.splits if_splits
      dest!: frame_calls(6,7) [OF assms(1)] intro: others_trans)

lemma own_ensureEgressPolicy:
  assumes "actor_frames obs env ctl" and "ensureEgressPolicy env ctl s i w = (x, w')"
  shows "others_same obs s i w w'"
  using assms(2)
  by (auto simp: ensureEgressPolicy_def split: prod.splits sum.splits if_splits
      dest!: own_fetch_policy [OF assms(1)] intro: others_refl)

lemma own_resume_once:
  assumes "actor_frames obs env ctl" and "resume_once env ctl s i resumed st w = (x, w')"
  shows "others_same obs s i w w'"
  using assms(2)
  by (auto simp: resume_once_def split: prod.splits option.splits if_splits
      dest!: frame_calls(4) [OF assms(1)] intro: others_refl)

lemma own_running_loop:
  assumes c: "actor_frames obs env ctl" and "running_loop env ctl s i dl resumed actor w = Some (y, w')"
  shows "others_same obs s i w w'"
  by (rule running_loop_rel [where R = "\<lambda>_. others_same obs s i", OF assms(2)])
    (blast intro: others_refl others_trans dest: own_resume_once [OF c] frame_calls(1,9) [OF c])+

lemma own_upstream_loop:
  assumes c: "actor_frames obs env ctl" and "upstream_loop env s i dl k w = Some (y, w')"
  shows "others_same obs s i w w'"
  by (rule upstream_loop_rel [where R = "others_same obs s i", OF assms(2)])
    (blast intro: others_refl others_trans dest: frame_calls(8,9) [OF c])+

lemma own_Ensure:
  assumes "actor_frames obs env ctl" and "sub_Ensure env ctl s pid w = Some (r, w')"
  shows "others_same obs s (actorID pid) w w'"
  using assms(2)
  by (auto simp: sub_Ensure_def Let_def waitForRunning_def waitUpstreamReady_def
      split: prod.splits sum.splits option.splits if_splits
      dest!: own_getOrCreate [OF assms(1)] own_ensureEgressPolicy [OF assms(1)] own_running_loop [OF assms(1)]
        own_upstream_loop [OF assms(1)] intro: others_trans)

lemma own_Delete:
  assumes "actor_frames obs env ctl"
  shows "others_same obs s (actorID pid) w (snd (sub_Delete env ctl s pid w))"
  by (auto simp: sub_Delete_def delete_actor_def Let_def split: prod.splits sum.splits option.splits
      dest!: frame_calls(3,5) [OF assms] intro: others_trans)

text \<open>
  C28.  One client's sandbox operations never touch another client's actor.  If a control-plane call only
  changes the actor it names and a request through the router only the actor it targets, then
  \<open>Ensure\<close> and \<open>Delete\<close> of an id, on every path through them including all failures, leave every
  actor of the atespace other than \<open>pw-\<close> followed by that id as it was.
\<close>

theorem substrate_leaves_other_actors_alone:
  assumes "actor_frames obs env ctl" and "n \<noteq> ''pw-'' @ pid"
  shows "(\<forall>r w'. sub_Ensure env ctl s pid w = Some (r, w') \<longrightarrow>
       obs (actorTemplateNS s) n w' = obs (actorTemplateNS s) n w) \<and>
    obs (actorTemplateNS s) n (snd (sub_Delete env ctl s pid w)) = obs (actorTemplateNS s) n w"
  using own_Ensure [OF assms(1), of s pid w] own_Delete [OF assms(1), of s pid w] assms(2)
  by (auto simp: others_same_def actorID_def)

text \<open>A control plane whose world is the set of its actors, all of them running.\<close>

definition pw :: "string \<Rightarrow> ObjectRef" where
  "pw n = \<lparr>or_Atespace = ''pw'', or_Name = n\<rparr>"

definition store_ctl :: "ObjectRef set control" where
  "store_ctl =
     \<lparr>cGetActor = (\<lambda>r w. (if set_option (gar_Actor r) \<subseteq> w
        then Inr (running_actor ''pw'' ''browser'' (ObjectRef_GetName (gar_Actor r))) else Inl (ErrStatus 5), w)),
     cCreateActor = (\<lambda>r w. case Actor_GetMetadata (car_Actor r) of
        None \<Rightarrow> (Inl (ErrStatus 3), w)
      | Some md \<Rightarrow> (Inr (running_actor ''pw'' ''browser'' (rm_Name md)),
          insert \<lparr>or_Atespace = rm_Atespace md, or_Name = rm_Name md\<rparr> w)),
     cSuspendActor = (\<lambda>r w. (None, w)), cResumeActor = (\<lambda>r w. (None, w)),
     cDeleteActor = (\<lambda>r w. (Inr (running_actor ''pw'' ''browser'' []), w - set_option (dar_Actor r))),
     cGetActorEgressPolicy = (\<lambda>r w. (Inl (ErrStatus 5), w)),
     cCreateActorEgressPolicy = (\<lambda>r w. (Inl (ErrStatus 5), w)),
     cListActors = (\<lambda>r w. (Inl (ErrStatus 5), w))\<rparr>"

definition store_env :: "ObjectRef set sub_env" where
  "store_env = \<lparr>fromError = (\<lambda>e. case e of ErrStatus c \<Rightarrow> Some c | _ \<Rightarrow> None), ruleEqual = (=),
     statusString = (\<lambda>_. []), newRequest = (\<lambda>_. None), probeDo = (\<lambda>u t w. (Inr 404, w)),
     sclock = (\<lambda>w. 0), after = (\<lambda>d w. (None, w))\<rparr>"

lemma store_frames: "actor_frames (\<lambda>ns n w. \<lparr>or_Atespace = ns, or_Name = n\<rparr> \<in> w) store_env store_ctl"
  by (auto simp: actor_frames_def names_own_def store_env_def store_ctl_def getter_defs)

lemma store_Ensure:
  "\<exists>r. sub_Ensure store_env store_ctl sub_example ''alpha'' {pw ''pw-beta''} = Some (r, {pw ''pw-alpha'', pw ''pw-beta''})"
  by (simp add: sub_Ensure_def sub_getOrCreate_def ensureEgressPolicy_def waitForRunning_def waitUpstreamReady_def
      running_loop.simps upstream_loop.simps store_ctl_def store_env_def sub_example_def running_actor_def getter_defs
      actor_state_def probe_ok_def target_actor_def actorID_def actorRef_def pw_def status_Code_def code_defs Let_def)

theorem substrate_leaves_other_actors_alone_witness:
  "(\<exists>r w'. sub_Ensure store_env store_ctl sub_example ''alpha'' {pw ''pw-beta''} = Some (r, w') \<and> pw ''pw-beta'' \<in> w') \<and>
   pw ''pw-beta'' \<in> snd (sub_Delete store_env store_ctl sub_example ''alpha'' {pw ''pw-alpha'', pw ''pw-beta''})"
proof -
  have ns: "actorTemplateNS sub_example = ''pw''" by (simp add: sub_example_def)
  have n: "''pw-beta'' \<noteq> ''pw-'' @ ''alpha''" by simp
  note t = substrate_leaves_other_actors_alone [OF store_frames n, where s = sub_example, unfolded ns, folded pw_def]
  from store_Ensure obtain r where
    e: "sub_Ensure store_env store_ctl sub_example ''alpha'' {pw ''pw-beta''} = Some (r, {pw ''pw-alpha'', pw ''pw-beta''})"
    by blast
  have "pw ''pw-beta'' \<in> snd (sub_Delete store_env store_ctl sub_example ''alpha'' {pw ''pw-alpha'', pw ''pw-beta''})"
    using t [THEN conjunct2, of "{pw ''pw-alpha'', pw ''pw-beta''}"] by simp
  moreover have "pw ''pw-beta'' \<in> {pw ''pw-alpha'', pw ''pw-beta''}"
    using t [THEN conjunct1, rule_format, OF e] by simp
  ultimately show ?thesis using e by blast
qed

end
