(* ===== verification/Process_Life.thy ===== *)
theory Process_Life
  imports Server_Props Session_Spec Substrate_Frame
begin

text \<open>
  The parts put together: what a reaper round does to the sandboxes behind the configured backend, and
  what the process sends from its start through any number of requests.
\<close>

section \<open>The reaper and the sandboxes\<close>

text \<open>The object outside the process that an id stands for.\<close>

datatype resource =
    KubeObject GroupVersionResource string string
  | SubstrateActor string string

fun resource_of :: "backend_impl \<Rightarrow> string \<Rightarrow> resource" where
  "resource_of (BkSandboxClaim s) pid = KubeObject sandboxClaimGVR (sc_namespace s) (claimName pid)"
| "resource_of (BkSubstrate s) pid = SubstrateActor (actorTemplateNS s) (actorID pid)"
| "resource_of (BkKars k) pid = KubeObject karsSandboxGVR (kb_namespace k) (karsName pid)"
| "resource_of (BkIsola b) pid = KubeObject isolaSandboxGVR (ib_namespace b) (isolaName pid)"

text \<open>A call changes only the object it names.\<close>

definition services_frame :: "(resource \<Rightarrow> 'w \<Rightarrow> 'x) \<Rightarrow> 'w services \<Rightarrow> bool" where
  "services_frame obs sv \<longleftrightarrow>
     (\<forall>g ns n r w. r \<noteq> KubeObject g ns n \<longrightarrow> obs r (snd (ddelete (sv_dyn sv) g ns n w)) = obs r w) \<and>
     actor_frames (\<lambda>ns n. obs (SubstrateActor ns n)) (sv_env sv) (sv_ctl sv)"

lemma bk_Delete_frame:
  assumes "services_frame obs sv" and "resource_of bk q \<noteq> resource_of bk pid"
  shows "obs (resource_of bk q) (snd (bk_Delete sv bk pid w)) = obs (resource_of bk q) w"
proof (cases bk)
  case (BkSubstrate s)
  have "actor_frames (\<lambda>ns n. obs (SubstrateActor ns n)) (sv_env sv) (sv_ctl sv)"
    using assms(1) by (simp add: services_frame_def)
  from own_Delete [OF this, of s pid w] assms(2) BkSubstrate show ?thesis by (simp add: others_same_def)
qed (use assms in \<open>simp_all add: services_frame_def claim_cr.delete_only_own kars_cr.delete_only_own
      isola_cr.delete_only_own\<close>)

lemma deletes_frame:
  assumes "services_frame obs sv" and "\<forall>pid \<in> set ids. resource_of bk q \<noteq> resource_of bk pid"
  shows "obs (resource_of bk q) (fold (\<lambda>pid w. snd (bk_Delete sv bk pid w)) ids w) = obs (resource_of bk q) w"
  using assms(2) by (induction ids arbitrary: w) (simp_all add: bk_Delete_frame [OF assms(1)])

text \<open>Distinct ids stand for distinct objects, except for isola.\<close>

lemma resource_of_inj:
  assumes "resource_of bk p = resource_of bk q" and "\<forall>b. bk = BkIsola b \<longrightarrow> isolaName p = isolaName q \<longrightarrow> p = q"
  shows "p = q"
  using assms by (cases bk) (auto dest: claim_name.name_inj actor_name.name_inj kars_name.name_inj)

text \<open>
  C11.  A round of the reaper spares the sandboxes in use, with every backend.  If the services change only
  the object a call names, then a session that is still resolving, has an open connection or was
  active after the cutoff finds the object behind it, claim, sandbox or actor, exactly as it was
  before the round, whatever else the round deletes and whichever deletions fail.  For isola this
  needs that no reaped id has the same resource name.
\<close>

theorem reaper_spares_sandboxes_in_use:
  assumes "services_frame obs sv" and "mgr_reach ens m" and "distinct order" and "set order = dom (sessions m)"
    and "sessions m pid = Some r" and "heap m r = Some s"
    and "\<not> ready s \<or> ActiveConns s > 0 \<or> LastActive s > now - idleTTL m"
    and "\<forall>b q. bk = BkIsola b \<longrightarrow> isolaName q = isolaName pid \<longrightarrow> q = pid"
  shows "obs (resource_of bk pid) (snd (reapOnce now now' order (bk_Delete sv bk) m w)) = obs (resource_of bk pid) w"
proof -
  have live: "\<not> doomed (now - idleTTL m) m pid" using assms(5-7) by (auto simp: doomed_def reapable_def)
  have "\<forall>q \<in> set (filter (doomed (now - idleTTL m) m) order). resource_of bk pid \<noteq> resource_of bk q"
  proof
    fix q assume "q \<in> set (filter (doomed (now - idleTTL m) m) order)"
    with live have "pid \<noteq> q" by auto
    with resource_of_inj [of bk pid q] assms(8) show "resource_of bk pid \<noteq> resource_of bk q" by metis
  qed
  with reapOnce_effect [OF assms(2-4), of now now' "bk_Delete sv bk" w]
  show ?thesis by (simp add: deletes_frame [OF assms(1)])
qed

text \<open>Services over a set of objects, and a session that was active a moment ago.\<close>

definition idle_env :: "'w sub_env" where
  "idle_env = \<lparr>fromError = (\<lambda>e. None), ruleEqual = (=), statusString = (\<lambda>_. []), newRequest = (\<lambda>_. None),
     probeDo = (\<lambda>u t w. (Inr 404, w)), sclock = (\<lambda>w. 0), after = (\<lambda>d w. (None, w))\<rparr>"

definition idle_ctl :: "'w control" where
  "idle_ctl = \<lparr>cGetActor = (\<lambda>r w. (Inl (ErrStatus 5), w)), cCreateActor = (\<lambda>r w. (Inl (ErrStatus 5), w)),
     cSuspendActor = (\<lambda>r w. (None, w)), cResumeActor = (\<lambda>r w. (None, w)),
     cDeleteActor = (\<lambda>r w. (Inl (ErrStatus 5), w)), cGetActorEgressPolicy = (\<lambda>r w. (Inl (ErrStatus 5), w)),
     cCreateActorEgressPolicy = (\<lambda>r w. (Inl (ErrStatus 5), w)), cListActors = (\<lambda>r w. (Inl (ErrStatus 5), w))\<rparr>"

definition store_services :: "resource set services" where
  "store_services = \<lparr>sv_un = std_unstructured, sv_dyn = \<lparr>dget = (\<lambda>g ns n w. (Inl (ErrStatus 5), w)),
       dcreate = (\<lambda>g ns j w. (Inl (ErrStatus 5), w)), ddelete = (\<lambda>g ns n w. (None, w - {KubeObject g ns n})),
       dlist = (\<lambda>g ns l w. (Inr [], w))\<rparr>,
     sv_env = idle_env, sv_ctl = idle_ctl\<rparr>"

lemma store_services_frame: "services_frame (\<lambda>r w. r \<in> w) store_services"
  by (auto simp: services_frame_def store_services_def idle_env_def idle_ctl_def actor_frames_def names_own_def)

definition claim_backend :: backend_impl where
  "claim_backend = BkSandboxClaim (NewSandboxClaim ''ns'' ''t'' ''p'' 9222 0 ''playwright-id'')"

theorem reaper_spares_sandboxes_in_use_witness:
  "resource_of claim_backend ''a'' \<in>
     snd (reapOnce 500 500 [''a''] (bk_Delete store_services claim_backend) (one_session ep_example)
       {resource_of claim_backend ''a''})"
proof -
  have d: "set [''a''] = dom (sessions (one_session ep_example))" by simp
  show ?thesis
    using reaper_spares_sandboxes_in_use [OF store_services_frame reach_one_session [of ep_example] _ d,
        of "''a''" 0 "one_session_cell ep_example" 500 claim_backend 500 "{resource_of claim_backend ''a''}"]
    by (simp add: one_session_cell_def LastActive_def claim_backend_def)
qed

end
