(* ===== verification/Identify_Spec.thy ===== *)
theory Identify_Spec
  imports Identify
begin

text \<open>
  What the index of \<open>internal/identify\<close> stands for: the pods that are alive.  The abstract side is a
  cluster, the live pods by name, with the watch events its changes cause under the label selector
  of \<open>Run\<close>; the index, fed with these events, is exactly the map from the address of a live pod to
  its playwright-id.  The assumptions about the cluster are the guards of its steps; one theorem
  shows what happens without one of them.
\<close>

section \<open>The cluster\<close>

type_synonym live_pods = "string \<rightharpoonup> Pod"

text \<open>The label selector asks for the presence of the label, whatever its value.\<close>

definition selected :: "string \<Rightarrow> Pod \<Rightarrow> bool" where
  "selected key p \<longleftrightarrow> pod_labels p key \<noteq> None"

text \<open>No other live pod has the address.\<close>

definition ip_free :: "live_pods \<Rightarrow> string \<Rightarrow> string \<Rightarrow> bool" where
  "ip_free c n ip \<longleftrightarrow> ip = '''' \<or> (\<forall>n' p. c n' = Some p \<and> n' \<noteq> n \<longrightarrow> pod_IP p \<noteq> ip)"

text \<open>A watch with a selector reports a pod that starts or stops to match as added or deleted.\<close>

definition update_events :: "string \<Rightarrow> Pod \<Rightarrow> Pod \<Rightarrow> event list" where
  "update_events key p p' =
     (if selected key p \<and> selected key p' then [UpdateEv (PodObj p) (PodObj p')]
      else if selected key p' then [AddEv (PodObj p')]
      else if selected key p then [DeleteEv (PodObj p)]
      else [])"

text \<open>
  The steps of the cluster with the events they cause: an address belongs to at most one live pod, a
  pod keeps the address it got, and the value of the label does not become empty.
\<close>

inductive cluster_step :: "string \<Rightarrow> live_pods \<Rightarrow> event list \<Rightarrow> live_pods \<Rightarrow> bool" for key :: string where
  pod_created: "c n = None \<Longrightarrow> ip_free c n (pod_IP p) \<Longrightarrow>
    cluster_step key c (if selected key p then [AddEv (PodObj p)] else []) (c(n \<mapsto> p))"
| pod_updated: "c n = Some p \<Longrightarrow> ip_free c n (pod_IP p') \<Longrightarrow> pod_IP p = '''' \<or> pod_IP p' = pod_IP p \<Longrightarrow>
    label_value key p = '''' \<or> \<not> selected key p' \<or> label_value key p' \<noteq> '''' \<Longrightarrow>
    cluster_step key c (update_events key p p') (c(n \<mapsto> p'))"
| pod_deleted: "c n = Some p \<Longrightarrow> ob \<in> {PodObj p, Tombstone (Some p)} \<Longrightarrow>
    cluster_step key c (if selected key p then [DeleteEv ob] else []) (c(n := None))"

inductive cluster_run :: "string \<Rightarrow> event list \<Rightarrow> live_pods \<Rightarrow> bool" for key :: string where
  run_empty: "cluster_run key [] Map.empty"
| run_step: "cluster_run key evs c \<Longrightarrow> cluster_step key c new c' \<Longrightarrow> cluster_run key (evs @ new) c'"

section \<open>The abstraction\<close>

text \<open>A live pod with this address and this playwright-id.\<close>

definition pod_with :: "string \<Rightarrow> live_pods \<Rightarrow> string \<Rightarrow> string \<Rightarrow> bool" where
  "pod_with key c ip pid \<longleftrightarrow> ip \<noteq> '''' \<and> pid \<noteq> '''' \<and> (\<exists>n p. c n = Some p \<and> pod_IP p = ip \<and> label_value key p = pid)"

definition distinct_ips :: "live_pods \<Rightarrow> bool" where
  "distinct_ips c \<longleftrightarrow> (\<forall>n p. c n = Some p \<longrightarrow> ip_free c n (pod_IP p))"

definition in_sync :: "string \<Rightarrow> string \<Rightarrow> live_pods \<Rightarrow> Index \<Rightarrow> bool" where
  "in_sync key ns c i \<longleftrightarrow> labelKey i = key \<and> idx_namespace i = ns \<and> distinct_ips c \<and> (\<forall>ip pid. byPodIP i ip = Some pid \<longleftrightarrow> pod_with key c ip pid)"

lemma not_selected: "\<not> selected key p \<Longrightarrow> label_value key p = ''''"
  by (simp add: selected_def label_value_def)

lemma distinct_ips_upd: "distinct_ips c \<Longrightarrow> ip_free c n (pod_IP p) \<Longrightarrow> distinct_ips (c(n \<mapsto> p))"
  unfolding distinct_ips_def ip_free_def by (simp, metis)

lemma distinct_ips_del: "distinct_ips c \<Longrightarrow> distinct_ips (c(n := None))"
  by (auto simp: distinct_ips_def ip_free_def split: if_splits)

text \<open>The pods other than \<open>n\<close>, seen at one address: changing \<open>n\<close> does not touch them.\<close>

definition other_with :: "string \<Rightarrow> live_pods \<Rightarrow> string \<Rightarrow> string \<Rightarrow> string \<Rightarrow> bool" where
  "other_with key c n ip pid \<longleftrightarrow> (\<exists>m q. m \<noteq> n \<and> c m = Some q \<and> pod_IP q = ip \<and> label_value key q = pid)"

lemma pod_with_cases:
  "pod_with key c ip pid \<longleftrightarrow> ip \<noteq> '''' \<and> pid \<noteq> '''' \<and>
     ((\<exists>q. c n = Some q \<and> pod_IP q = ip \<and> label_value key q = pid) \<or> other_with key c n ip pid)"
  unfolding pod_with_def other_with_def by metis

lemma other_with_upd [simp]: "other_with key (c(n := v)) n ip pid = other_with key c n ip pid"
  unfolding other_with_def by (metis fun_upd_other)

lemma ip_free_other: "ip_free c n ip \<Longrightarrow> ip \<noteq> '''' \<Longrightarrow> \<not> other_with key c n ip pid"
  unfolding ip_free_def other_with_def by metis

lemma byPodIP_upsert:
  "byPodIP (upsertFromObj (PodObj p) i) ip =
     (if ip = pod_IP p \<and> ip \<noteq> '''' \<and> label_value (labelKey i) p \<noteq> '''' then Some (label_value (labelKey i) p)
      else byPodIP i ip)"
  by (simp add: upsertFromObj_def Let_def)

lemma byPodIP_delete:
  "ob \<in> {PodObj p, Tombstone (Some p)} \<Longrightarrow>
     byPodIP (deleteFromObj ob i) ip = (if ip = pod_IP p \<and> ip \<noteq> '''' then None else byPodIP i ip)"
  by (auto simp: deleteFromObj_def deletePod_def)

lemma namespace_handle [simp]: "idx_namespace (handle_event ev i) = idx_namespace i"
  by (cases ev)
    (simp_all add: upsertFromObj_def deleteFromObj_def deletePod_def Let_def split: obj.splits option.splits)

lemma in_syncD:
  "in_sync key ns c i \<Longrightarrow> labelKey i = key"
  "in_sync key ns c i \<Longrightarrow> idx_namespace i = ns"
  "in_sync key ns c i \<Longrightarrow> distinct_ips c"
  "in_sync key ns c i \<Longrightarrow> byPodIP i ip = Some pid \<longleftrightarrow> pod_with key c ip pid"
  by (simp_all add: in_sync_def)

section \<open>The index refines the cluster\<close>

lemma sync_upsert:
  assumes "in_sync key ns c i" and "ip_free c n (pod_IP p)"
    and "\<And>q. c n = Some q \<Longrightarrow> pod_IP q = '''' \<or> pod_IP q = pod_IP p \<and> (label_value key q = '''' \<or> label_value key p \<noteq> '''')"
  shows "in_sync key ns (c(n \<mapsto> p)) (upsertFromObj (PodObj p) i)"
proof -
  note s = in_syncD [OF assms(1)]
  have "labelKey (upsertFromObj (PodObj p) i) = key" "idx_namespace (upsertFromObj (PodObj p) i) = ns"
    using s(1,2) labelKey_handle [of "AddEv (PodObj p)" i] namespace_handle [of "AddEv (PodObj p)" i] by simp_all
  moreover have "distinct_ips (c(n \<mapsto> p))" using s(3) assms(2) by (rule distinct_ips_upd)
  moreover have "byPodIP (upsertFromObj (PodObj p) i) ip = Some pid \<longleftrightarrow> pod_with key (c(n \<mapsto> p)) ip pid" for ip pid
  proof (cases "ip = pod_IP p")
    case here: True
    show ?thesis
    proof (cases "ip = ''''")
      case True
      then show ?thesis using s(4) [of ip pid] by (simp add: byPodIP_upsert pod_with_def)
    next
      case False
      then have "\<not> other_with key c n ip pid" using ip_free_other assms(2) here by blast
      then show ?thesis
        using s(1) s(4) [of ip pid] assms(3) here False
        by (auto simp: byPodIP_upsert pod_with_cases [of _ _ _ _ n])
    qed
  next
    case False
    then have "\<not> (\<exists>q. c n = Some q \<and> pod_IP q = ip \<and> ip \<noteq> '''')" using assms(3) by metis
    with False show ?thesis
      using s(4) [of ip pid] by (auto simp: byPodIP_upsert pod_with_cases [of _ _ _ _ n])
  qed
  ultimately show ?thesis by (simp add: in_sync_def)
qed

lemma sync_delete:
  assumes "in_sync key ns c i" and "c n = Some p" and "ob \<in> {PodObj p, Tombstone (Some p)}"
  shows "in_sync key ns (c(n := None)) (deleteFromObj ob i)"
proof -
  note s = in_syncD [OF assms(1)]
  have "labelKey (deleteFromObj ob i) = key" "idx_namespace (deleteFromObj ob i) = ns"
    using s(1,2) labelKey_handle [of "DeleteEv ob" i] namespace_handle [of "DeleteEv ob" i] by simp_all
  moreover have "byPodIP (deleteFromObj ob i) ip = Some pid \<longleftrightarrow> pod_with key (c(n := None)) ip pid" for ip pid
  proof (cases "ip = pod_IP p \<and> ip \<noteq> ''''")
    case True
    have "ip_free c n (pod_IP p)" using s(3) assms(2) by (simp add: distinct_ips_def)
    with True have "\<not> other_with key c n ip pid" using ip_free_other by blast
    with True show ?thesis by (auto simp: byPodIP_delete [OF assms(3)] pod_with_cases [of _ _ _ _ n])
  next
    case False
    then show ?thesis
      using s(4) [of ip pid] assms(2) by (auto simp: byPodIP_delete [OF assms(3)] pod_with_cases [of _ _ _ _ n])
  qed
  ultimately show ?thesis using distinct_ips_del [OF s(3)] by (simp add: in_sync_def)
qed

text \<open>A pod without the label can come, change and go without an event.\<close>

lemma sync_silent:
  assumes "in_sync key ns c i" and "\<And>q. c n = Some q \<Longrightarrow> label_value key q = ''''"
    and "\<And>p. v = Some p \<Longrightarrow> label_value key p = '''' \<and> ip_free c n (pod_IP p)"
  shows "in_sync key ns (c(n := v)) i"
proof -
  note s = in_syncD [OF assms(1)]
  have "distinct_ips (c(n := v))"
    using distinct_ips_upd [OF s(3)] distinct_ips_del [OF s(3)] assms(3) by (cases v) simp_all
  moreover have "pod_with key (c(n := v)) ip pid \<longleftrightarrow> pod_with key c ip pid" for ip pid
    using assms(2,3) by (auto simp: pod_with_cases [of _ _ _ _ n])
  ultimately show ?thesis using s by (simp add: in_sync_def)
qed

lemma sync_update:
  assumes "in_sync key ns c i" and "c n = Some p" and "ip_free c n (pod_IP p')" and "pod_IP p = '''' \<or> pod_IP p' = pod_IP p"
    and "label_value key p = '''' \<or> \<not> selected key p' \<or> label_value key p' \<noteq> ''''"
  shows "in_sync key ns (c(n \<mapsto> p')) (fold handle_event (update_events key p p') i)"
proof (cases "selected key p'")
  case True
  then have "fold handle_event (update_events key p p') i = upsertFromObj (PodObj p') i"
    by (simp add: update_events_def)
  then show ?thesis using sync_upsert [OF assms(1,3)] assms(2,4,5) True by auto
next
  case False
  note nl = not_selected [OF False]
  show ?thesis
  proof (cases "selected key p")
    case True
    have "in_sync key ns (c(n := None)) (deleteFromObj (PodObj p) i)" using sync_delete [OF assms(1,2)] by blast
    moreover have "ip_free (c(n := None)) n (pod_IP p')" using assms(3) by (auto simp: ip_free_def)
    ultimately show ?thesis
      using sync_silent [of key ns "c(n := None)" _ n "Some p'"] nl True False by (simp add: update_events_def)
  next
    case unlabelled: False
    then show ?thesis
      using sync_silent [OF assms(1), of n "Some p'"] not_selected [OF unlabelled] nl assms(2,3) False
      by (simp add: update_events_def)
  qed
qed

lemma sync_step: "cluster_step key c new c' \<Longrightarrow> in_sync key ns c i \<Longrightarrow> in_sync key ns c' (fold handle_event new i)"
proof (induction rule: cluster_step.induct)
  case (pod_created c n p)
  show ?case
  proof (cases "selected key p")
    case True
    have "in_sync key ns (c(n \<mapsto> p)) (upsertFromObj (PodObj p) i)"
      by (rule sync_upsert) (use pod_created in auto)
    with True show ?thesis by (simp add: fun_upd_def)
  next
    case False
    have "in_sync key ns (c(n \<mapsto> p)) i"
      by (rule sync_silent) (use pod_created not_selected [OF False] in auto)
    with False show ?thesis by (simp add: fun_upd_def)
  qed
next
  case (pod_updated c n p p')
  then show ?case by (intro sync_update)
next
  case (pod_deleted c n p ob)
  show ?case
  proof (cases "selected key p")
    case True
    with sync_delete [OF pod_deleted(3,1,2)] show ?thesis by (simp add: fun_upd_def)
  next
    case False
    have "in_sync key ns (c(n := None)) i"
      by (rule sync_silent) (use pod_deleted not_selected [OF False] in auto)
    with False show ?thesis by (simp add: fun_upd_def)
  qed
qed

lemma run_in_sync: "cluster_run key evs c \<Longrightarrow> in_sync key ns c (fold handle_event evs (New_Index key client ns mx))"
proof (induction rule: cluster_run.induct)
  case run_empty
  show ?case by (simp add: in_sync_def New_Index_def distinct_ips_def pod_with_def)
next
  case (run_step evs c new c')
  then show ?case using sync_step [OF run_step(2,3)] by simp
qed

text \<open>
  C30.  The index is the live pods.  Whatever pods are created, change and go, as long as no two live
  pods share an address, a pod keeps its address and a label is not blanked, the index that has
  handled the watch events maps an address to a playwright-id exactly if a live pod has this address
  and carries this id; pods without the label or without an address are not in it, and deleted pods
  leave no trace.
\<close>

theorem index_refines_cluster:
  assumes "cluster_run key evs c"
  shows "byPodIP (fold handle_event evs (New_Index key client ns mx)) ip = Some pid \<longleftrightarrow>
    ip \<noteq> '''' \<and> pid \<noteq> '''' \<and> (\<exists>n p. c n = Some p \<and> pod_IP p = ip \<and> label_value key p = pid)"
  using run_in_sync [OF assms] unfolding in_sync_def pod_with_def by blast

definition pod_a :: Pod where
  "pod_a = \<lparr>pod_name = ''a'', pod_labels = [''k'' \<mapsto> ''alpha''], pod_IP = ''10.0.0.7''\<rparr>"

definition pod_b :: Pod where
  "pod_b = \<lparr>pod_name = ''b'', pod_labels = [''k'' \<mapsto> ''beta''], pod_IP = ''10.0.0.7''\<rparr>"

text \<open>One pod goes and another gets its address.\<close>

lemma reuse_run:
  "cluster_run ''k'' [AddEv (PodObj pod_a), DeleteEv (Tombstone (Some pod_a)), AddEv (PodObj pod_b)] [''b'' \<mapsto> pod_b]"
proof -
  have s: "selected ''k'' pod_a" "selected ''k'' pod_b" by (simp_all add: selected_def pod_a_def pod_b_def)
  have 1: "cluster_run ''k'' [AddEv (PodObj pod_a)] [''a'' \<mapsto> pod_a]"
    using run_step [OF run_empty pod_created [of Map.empty "''a''" pod_a "''k''"]] s by (simp add: ip_free_def)
  have 2: "cluster_run ''k'' [AddEv (PodObj pod_a), DeleteEv (Tombstone (Some pod_a))] Map.empty"
    using run_step [OF 1 pod_deleted [of _ "''a''" pod_a "Tombstone (Some pod_a)"]] s by simp
  show ?thesis
    using run_step [OF 2 pod_created [of Map.empty "''b''" pod_b]] s by (simp add: ip_free_def)
qed

theorem index_refines_cluster_witness:
  "byPodIP (fold handle_event [AddEv (PodObj pod_a), DeleteEv (Tombstone (Some pod_a)), AddEv (PodObj pod_b)]
     (New_Index ''k'' True ''ns'' None)) ''10.0.0.7'' = Some ''beta''"
  unfolding index_refines_cluster [OF reuse_run] by (auto simp: pod_b_def label_value_def)

section \<open>Lookup against the cluster\<close>

text \<open>
  What \<open>Lookup\<close> may rely on: a listing by label and address either fails or is the live pods of that
  address that have the label, and other goroutines keep the index in step with the cluster.
\<close>

definition api_truthful :: "string \<Rightarrow> string \<Rightarrow> live_pods \<Rightarrow> 'w lookup_env \<Rightarrow> bool" where
  "api_truthful key ns c env \<longleftrightarrow>
     (\<forall>ip w pods w'. listPods env ns (Some key) (''status.podIP='' @ ip) w = (Inr pods, w') \<longrightarrow>
        set pods = {p. selected key p \<and> pod_IP p = ip \<and> (\<exists>n. c n = Some p)}) \<and>
     (\<forall>i w. in_sync key ns c i \<longrightarrow> in_sync key ns c (during env i w)) \<and>
     (\<forall>d i w. in_sync key ns c i \<longrightarrow> in_sync key ns c (fst (sleep env d i w)))"

lemma in_sync_same:
  "in_sync key ns c (snd (claimDiagnostic now ip i)) = in_sync key ns c i"
  "in_sync key ns c (releaseDiagnostic ip i) = in_sync key ns c i"
  "in_sync key ns c (count_lookup r i) = in_sync key ns c i"
  by (simp_all add: in_sync_def claimDiagnostic_def releaseDiagnostic_def count_lookup_def split: option.splits)

lemma lookupViaAPI_in_sync:
  assumes "api_truthful key ns c env" and "in_sync key ns c i" and "ip \<noteq> ''''" and "byPodIP i ip = None"
    and "lookupViaAPI env ip i w = (res, i', w')"
  shows "res = None \<and> in_sync key ns c i'"
proof -
  note s = in_syncD [OF assms(2)]
  let ?l = "listPods env ns (Some key) (''status.podIP='' @ ip) w"
  have d: "in_sync key ns c (during env j v)" if "in_sync key ns c j" for j v
    using assms(1) that by (simp add: api_truthful_def)
  have listed: "set pods = {p. selected key p \<and> pod_IP p = ip \<and> (\<exists>n. c n = Some p)}"
    if "?l = (Inr pods, w1)" for pods w1
    using assms(1) that unfolding api_truthful_def by blast
  consider (err) e w1 where "?l = (Inl e, w1)" | (none) w1 where "?l = (Inr [], w1)"
    | (pod) p ps w1 where "?l = (Inr (p # ps), w1)"
    by (metis list.exhaust old.sum.exhaust surj_pair)
  then show ?thesis
  proof cases
    case err
    then show ?thesis using assms(5) s(1,2) d [OF assms(2)] by (auto simp: lookupViaAPI_def)
  next
    case (pod p ps w1)
    have "selected key p \<and> pod_IP p = ip \<and> (\<exists>n. c n = Some p)"
      using listed [OF pod] by auto
    moreover have "\<not> pod_with key c ip (label_value key p)" using s(4) [of ip] assms(4) by simp
    ultimately have "label_value key p = ''''" using assms(3) unfolding pod_with_def by blast
    with pod show ?thesis
      using assms(5) s(1,2) d [OF assms(2)] by (auto simp: lookupViaAPI_def in_sync_same)
  next
    case (none w1)
    obtain b i1 where c: "claimDiagnostic (clock env w1) ip (during env i w1) = (b, i1)" by fastforce
    have i1: "in_sync key ns c i1"
      using in_sync_same(1) [of key ns c "clock env w1" ip "during env i w1"] c d [OF assms(2)] by simp
    obtain r w2 where "listPods env ns None (''status.podIP='' @ ip) w1 = (r, w2)" by fastforce
    then show ?thesis
      using assms(5) s(1,2) none c i1 d [OF i1, of w2]
      by (cases r; cases b) (auto simp: lookupViaAPI_def in_sync_same)
  qed
qed

lemma lookup_loop_in_sync:
  assumes "api_truthful key ns c env" and "ip \<noteq> ''''"
  shows "in_sync key ns c i \<Longrightarrow> lookup_loop env ip n i w = (res, i', w') \<Longrightarrow>
    in_sync key ns c i' \<and> (\<forall>pid. res = Some pid \<longrightarrow> pod_with key c ip pid)"
proof (induction n arbitrary: i w)
  case 0
  then show ?case by (auto simp: in_sync_same)
next
  case (Suc n)
  show ?case
  proof (cases "byPodIP i ip")
    case (Some pid)
    with Suc.prems in_syncD(4) [OF Suc.prems(1)] show ?thesis by (auto simp: lookupCache_def in_sync_same)
  next
    case None
    obtain r i1 w1 where api: "lookupViaAPI env ip i w = (r, i1, w1)" by (metis prod_cases3)
    from lookupViaAPI_in_sync [OF assms(1) Suc.prems(1) assms(2) None api]
    have r: "r = None" "in_sync key ns c i1" by simp_all
    obtain i2 w2 where sl: "sleep env (100 * Millisecond) i1 w1 = (i2, w2)" by fastforce
    have "in_sync key ns c i2" using assms(1) r(2) sl unfolding api_truthful_def by (metis fst_conv)
    from Suc.IH [OF this, of w2] show ?thesis using Suc.prems(2) None api r(1) sl by (simp add: lookupCache_def)
  qed
qed

lemma Lookup_in_sync:
  assumes "api_truthful key ns c env" and "in_sync key ns c i" and "ip \<noteq> ''''" and "Lookup env ip i w = (res, i', w')"
  shows "in_sync key ns c i'" and "res = Some pid \<longleftrightarrow> pod_with key c ip pid"
proof -
  note s = in_syncD(4) [OF assms(2)]
  have "in_sync key ns c i' \<and> (res = Some pid \<longleftrightarrow> pod_with key c ip pid)"
  proof (cases "byPodIP i ip")
    case (Some x)
    with assms(4,2) s [of ip pid] show ?thesis by (auto simp: Lookup_def lookupCache_def in_sync_same)
  next
    case None
    then have np: "\<not> pod_with key c ip q" for q using s [of ip q] by simp
    show ?thesis
    proof (cases "idx_client i \<and> idx_namespace i \<noteq> ''''")
      case True
      with None assms(4) have "lookup_loop env ip 100 i w = (res, i', w')"
        by (auto simp: Lookup_def lookupCache_def)
      from lookup_loop_in_sync [OF assms(1,3,2) this] np show ?thesis by blast
    next
      case False
      with None assms(2,4) np show ?thesis by (auto simp: Lookup_def lookupCache_def in_sync_same)
    qed
  qed
  then show "in_sync key ns c i'" "res = Some pid \<longleftrightarrow> pod_with key c ip pid" by simp_all
qed

text \<open>
  A pod whose event has not arrived yet is found: when the index has nothing for the address and the
  listing answers with the live pods, \<open>Lookup\<close> returns the id of the pod in its first round and
  stores it.
\<close>

theorem Lookup_finds_unannounced_pod:
  assumes "distinct_ips c" and "pod_with (labelKey i) c ip pid" and "byPodIP i ip = None"
    and "idx_client i" and "idx_namespace i \<noteq> ''''"
    and "listPods env (idx_namespace i) (Some (labelKey i)) (''status.podIP='' @ ip) w = (Inr pods, w')"
    and "set pods = {p. selected (labelKey i) p \<and> pod_IP p = ip \<and> (\<exists>n. c n = Some p)}"
  shows "Lookup env ip i w =
    (Some pid, count_lookup LookupAPIFallback ((during env i w')\<lparr>byPodIP := (byPodIP (during env i w'))(ip \<mapsto> pid)\<rparr>), w')"
proof -
  obtain n p where p: "c n = Some p" "pod_IP p = ip" "label_value (labelKey i) p = pid" "ip \<noteq> ''''" "pid \<noteq> ''''"
    using assms(2) unfolding pod_with_def by blast
  then have "selected (labelKey i) p" using not_selected by blast
  with p(1,2) have "p \<in> set pods" unfolding assms(7) by blast
  moreover have "q = p" if "q \<in> set pods" for q
  proof -
    from that obtain m where m: "c m = Some q" "pod_IP q = ip" unfolding assms(7) by blast
    have "m = n" using assms(1) m p(1,2,4) unfolding distinct_ips_def ip_free_def by metis
    with m p(1) show ?thesis by simp
  qed
  ultimately obtain ps where "pods = p # ps" by (cases pods) auto
  with assms(3-6) p(3,5) show ?thesis
    by (simp add: Lookup_def lookupCache_def lookupViaAPI_def numeral_eq_Suc)
qed

section \<open>Where the index and the cluster part\<close>

text \<open>
  The last guard of \<open>pod_updated\<close> is needed: an update that leaves the label of a pod with an empty
  value is ignored by \<open>upsertFromObj\<close>, and the pod keeps the identity it had.
\<close>

theorem blanked_label_keeps_identity:
  assumes "byPodIP i (pod_IP p) = Some pid" and "label_value (labelKey i) p' = ''''"
  shows "handle_event (UpdateEv (PodObj p) (PodObj p')) i = i \<and>
    fst (Lookup env (pod_IP p) (handle_event (UpdateEv (PodObj p) (PodObj p')) i) w) = Some pid"
  using assms by (simp add: upsertFromObj_def Lookup_def lookupCache_def)

text \<open>
  The fallback races with the informer: if a pod is deleted while the listing that still contains it
  is under way, \<open>Lookup\<close> stores its answer after the deletion has been handled, and the address
  keeps the identity of a pod that is gone until an event of another pod with this address.
\<close>

theorem fallback_resurrects_deleted_pod:
  assumes "byPodIP i (pod_IP p) = None" and "idx_client i" and "idx_namespace i \<noteq> ''''"
    and "listPods env (idx_namespace i) (Some (labelKey i)) (''status.podIP='' @ pod_IP p) w = (Inr [p], w')"
    and "label_value (labelKey i) p \<noteq> ''''" and "during env i w' = handle_event (DeleteEv (PodObj p)) i"
    and "Lookup env (pod_IP p) i w = (res, i', w2)"
  shows "byPodIP i' (pod_IP p) = Some (label_value (labelKey i) p) \<and>
    (\<forall>evs. last_effect (labelKey i) (pod_IP p) evs = None \<longrightarrow>
       byPodIP (fold handle_event evs i') (pod_IP p) = Some (label_value (labelKey i) p))"
proof -
  have l: "labelKey i' = labelKey i" "byPodIP i' (pod_IP p) = Some (label_value (labelKey i) p)"
    using assms labelKey_handle [of "DeleteEv (PodObj p)" i]
    by (auto simp: Lookup_def lookupCache_def lookupViaAPI_def Let_def numeral_eq_Suc count_lookup_def)
  then show ?thesis using last_event_wins [of _ i'] by simp
qed

end
