(* ===== verification/Live_Routing.thy ===== *)
theory Live_Routing
  imports Process_Life Identify_Spec
begin

text \<open>
  The index and the request handler together: the history of a process in which pods come and go,
  the informer delivers the events this causes, requests are served and other goroutines run.  In
  every state of such a history the index is the live pods, and a request is routed for the label of
  the live pod it comes from.
\<close>

section \<open>Only Lookup writes the index\<close>

lemma idx_call: "call env f st = (x, st') \<Longrightarrow> p_idx st' = p_idx st"
  by (auto simp: call_def split: prod.splits)

lemma idx_count [simp]: "p_idx (count f st) = p_idx st"
  by (simp add: count_def)

lemma idx_on_session [simp]: "p_idx (on_session env r f st) = p_idx st"
  by (simp add: on_session_def)

lemma idx_get_session: "get_session env pid st = (x, st') \<Longrightarrow> p_idx st' = p_idx st"
  by (auto simp: get_session_def split: prod.splits)

lemma idx_refresh: "refresh_session env r st = (x, st') \<Longrightarrow> p_idx st' = p_idx st"
  by (auto simp: refresh_session_def split: prod.splits)

lemmas idx_steps = idx_call idx_get_session idx_refresh

lemma idx_RoundTrip: "RoundTrip env req st = (x, st') \<Longrightarrow> p_idx st' = p_idx st"
  by (auto simp: RoundTrip_def Let_def dest!: idx_steps split: prod.splits sum.splits option.splits if_splits)

lemma idx_reverse_proxy: "reverse_proxy env req st = (x, st') \<Longrightarrow> p_idx st' = p_idx st"
  by (auto simp: reverse_proxy_def proxyError_def dest!: idx_RoundTrip idx_steps
      split: prod.splits sum.splits option.splits if_splits)

lemma idx_handleHTTP: "p_idx (snd (handleHTTP env rq r st)) = p_idx st"
  by (auto simp: handleHTTP_def Let_def dest!: idx_reverse_proxy split: prod.splits sum.splits reply.splits)

lemma idx_dial_backend: "dial_backend env r st = (x, st') \<Longrightarrow> p_idx st' = p_idx st"
  by (auto simp: dial_backend_def dest!: idx_steps split: prod.splits sum.splits)

lemma idx_pump: "pump_c2b env c n st = (x, st') \<Longrightarrow> p_idx st' = p_idx st"
  by (auto simp: pump_c2b_def dest!: idx_steps split: prod.splits option.splits if_splits)

lemma idx_tunnel: "p_idx (tunnel env c n r st) = p_idx st"
  by (auto simp: tunnel_def Let_def dest!: idx_steps idx_pump split: prod.splits)

lemma idx_snd_call [simp]: "p_idx (snd (call env f st)) = p_idx st"
  by (metis idx_call prod.collapse)

lemma idx_handleWS: "p_idx (snd (handleWS env rq r st)) = p_idx st"
  by (auto simp: handleWS_def Let_def idx_tunnel dest!: idx_dial_backend idx_steps
      split: prod.splits sum.splits option.splits if_splits)

lemma idx_ServeHTTP:
  "p_idx (snd (ServeHTTP env rq st)) =
     (case clientIPFromReq rq of Inl _ \<Rightarrow> p_idx st
      | Inr ip \<Rightarrow> fst (snd (Lookup (lk_env env) ip (p_idx st) (p_w st))))"
proof (cases "clientIPFromReq rq")
  case (Inr ip)
  obtain x i w where l: "Lookup (lk_env env) ip (p_idx st) (p_w st) = (x, i, w)" by (metis prod_cases3)
  then have c: "lookup_client env ip st = (x, st\<lparr>p_idx := i, p_w := w, p_mgr := meanwhile env w (p_mgr st)\<rparr>)"
    by (simp add: lookup_client_def)
  show ?thesis
  proof (cases x)
    case None
    with Inr l c show ?thesis by (simp add: ServeHTTP_def)
  next
    case (Some pid)
    obtain y st2 where g: "get_session env pid (st\<lparr>p_idx := i, p_w := w, p_mgr := meanwhile env w (p_mgr st)\<rparr>) = (y, st2)"
      by fastforce
    from idx_get_session [OF g] have "p_idx st2 = i" by simp
    with Inr l c Some g show ?thesis
      by (cases y) (simp_all add: ServeHTTP_def Let_def idx_handleHTTP idx_handleWS)
  qed
qed (simp add: ServeHTTP_def)

section \<open>Histories\<close>

text \<open>The surroundings of a request that is served while the pods are \<open>c\<close>.\<close>

definition world_ok ::
  "(string \<Rightarrow> Endpoint result \<Rightarrow> bool) \<Rightarrow> ('w \<Rightarrow> request list) \<Rightarrow> Config \<Rightarrow> live_pods \<Rightarrow> 'w proxy_env \<Rightarrow> bool" where
  "world_ok ens sent cfg c env \<longleftrightarrow>
     others_ok ens env \<and> logs sent env \<and> api_truthful (LabelKey cfg) (Namespace cfg) c (lk_env env)"

text \<open>
  The states of the data plane with the live pods: from the built process on, the pods change and the
  informer delivers the events, other goroutines and the reaper change the sessions, requests are
  served.
\<close>

inductive served ::
  "'s services \<Rightarrow> (string \<Rightarrow> Endpoint result \<Rightarrow> bool) \<Rightarrow> ('w \<Rightarrow> request list) \<Rightarrow> Config \<Rightarrow> live_pods \<Rightarrow> 'w pst \<Rightarrow> bool"
  for sv ens sent cfg where
  start: "build sv version commit now cfg bk w = Some (p, w1) \<Longrightarrow>
    served sv ens sent cfg Map.empty (data_handler p w2)"
| pods: "served sv ens sent cfg c st \<Longrightarrow> cluster_step (LabelKey cfg) c new c' \<Longrightarrow>
    served sv ens sent cfg c' (inform new st)"
| others: "served sv ens sent cfg c st \<Longrightarrow> (mgr_step ens)\<^sup>*\<^sup>* (p_mgr st) m \<Longrightarrow>
    served sv ens sent cfg c (st\<lparr>p_mgr := m, p_w := w\<rparr>)"
| request: "served sv ens sent cfg c st \<Longrightarrow> world_ok ens sent cfg c env \<Longrightarrow> clientIPFromReq rq \<noteq> Inr '''' \<Longrightarrow>
    served sv ens sent cfg c (snd (ServeHTTP env rq st))"

lemma build_reach: "build sv version commit now cfg bk w = Some (p, w1) \<Longrightarrow> mgr_reach ens (pc_mgr p)"
  by (auto simp: build_def Let_def split: option.splits intro: mgr_reach.step [OF mgr_reach.init mgr_step.reconcile])

lemma ServeHTTP_reach:
  assumes "others_ok ens env" and "logs sent env" and "mgr_reach ens (p_mgr st)"
  shows "mgr_reach ens (p_mgr (snd (ServeHTTP env rq st)))"
proof (cases "\<exists>ip pid. clientIPFromReq rq = Inr ip \<and> fst (Lookup (lk_env env) ip (p_idx st) (p_w st)) = Some pid")
  case True
  then obtain ip pid where i: "clientIPFromReq rq = Inr ip"
    "fst (Lookup (lk_env env) ip (p_idx st) (p_w st)) = Some pid" by blast
  obtain rep st' where s: "ServeHTTP env rq st = (rep, st')" by fastforce
  from adv_reach [OF ServeHTTP_adv [OF assms s i] assms(3)] s show ?thesis by simp
next
  case False
  show ?thesis
  proof (cases "clientIPFromReq rq")
    case (Inl e)
    with assms(3) show ?thesis by (simp add: ServeHTTP_def)
  next
    case (Inr ip)
    obtain x st1 where c: "lookup_client env ip st = (x, st1)" by fastforce
    with False Inr have "x = None" by (cases x) (auto simp: lookup_client_def split: prod.splits)
    moreover have "mgr_reach ens (p_mgr st1)" using adv_reach [OF adv_lookup_client [OF assms(1,2) c] assms(3)] .
    ultimately show ?thesis using Inr c by (simp add: ServeHTTP_def count_def)
  qed
qed

lemma sync_request:
  assumes "api_truthful key ns c (lk_env env)" and "in_sync key ns c (p_idx st)" and "clientIPFromReq rq \<noteq> Inr ''''"
  shows "in_sync key ns c (p_idx (snd (ServeHTTP env rq st)))"
proof (cases "clientIPFromReq rq")
  case (Inr ip)
  obtain x i w where l: "Lookup (lk_env env) ip (p_idx st) (p_w st) = (x, i, w)" by (metis prod_cases3)
  have "ip \<noteq> ''''" using assms(3) Inr by blast
  from Lookup_in_sync(1) [OF assms(1,2) this l] show ?thesis by (simp add: idx_ServeHTTP Inr l)
qed (simp add: idx_ServeHTTP assms(2))

lemma served_inv:
  "served sv ens sent cfg c st \<Longrightarrow>
     in_sync (LabelKey cfg) (Namespace cfg) c (p_idx st) \<and> mgr_reach ens (p_mgr st)"
proof (induction rule: served.induct)
  case (start version commit now bk w p w1 w2)
  have "pc_idx p = New_Index (LabelKey cfg) True (Namespace cfg) (New_Metrics (Backend cfg) version commit)"
    using start by (auto simp: build_def Let_def split: option.splits)
  then have "in_sync (LabelKey cfg) (Namespace cfg) Map.empty (pc_idx p)"
    using run_in_sync [OF cluster_run.run_empty, of "LabelKey cfg"] by simp
  then show ?case using build_reach [OF start] by (simp add: data_handler_def New_Handler_def)
next
  case (pods c st new c')
  then show ?case using sync_step [OF pods(2)] by (simp add: inform_def)
next
  case (others c st m w)
  then show ?case using steps_reach by auto
next
  case (request c st env rq)
  then show ?case using sync_request ServeHTTP_reach unfolding world_ok_def by blast
qed

section \<open>Requests follow the live pods\<close>

text \<open>
  C1.  Requests follow the live pods.  From the start of the process on: a request whose sender's address
  belongs to a live pod with a playwright-id has everything that is sent for it routed to an endpoint \<open>Ensure\<close>
  returned for the id in that pod's label now (or to the zero endpoint of a session that is not resolved),
  and a request from any other address, be it of a pod that was deleted, is answered with status 403 and
  nothing is sent for it.  This holds in every history (\<open>served\<close>, \<open>world_ok\<close>) of pods that are created, updated and
  deleted between requests, of requests, and of steps of the other goroutines and the reaper, under these
  conditions: no two live pods share an address, a pod with an address keeps it, and no update empties the
  value of a label that stays; the informer has delivered the events of a pod's change before the next request
  begins, and no pod changes while a request is served; a listing \<open>Lookup\<close> makes fails or agrees with the live
  pods; the other goroutines reach the sessions only through the manager's critical sections, and what
  \<open>Ensure\<close> returns is what \<open>ens\<close> says.  Three of the conditions are shown to be needed: the statement fails for
  addresses shared with a pod that has ended (\<open>reused_address_misattributed\<close>), for an emptied label
  (\<open>blanked_label_keeps_identity\<close>) and for a pod deleted during a request (\<open>fallback_resurrects_deleted_pod\<close>).
\<close>

theorem requests_follow_live_pods:
  assumes "served sv ens sent cfg c st" and "world_ok ens sent cfg c env"
    and "ServeHTTP env rq st = (rep, st')" and "clientIPFromReq rq = Inr ip" and "ip \<noteq> ''''"
  shows "(\<forall>n p. c n = Some p \<and> pod_IP p = ip \<and> label_value (LabelKey cfg) p \<noteq> '''' \<longrightarrow>
      (\<exists>new. sent (p_w st') = sent (p_w st) @ new \<and>
        (\<forall>q \<in> set new. \<exists>ep. (ep = zero_Endpoint \<or> ens (label_value (LabelKey cfg) p) (Inr ep)) \<and>
           rq_URLHost q \<in> {Addr ep, MCPAddr ep} \<and>
           (rq_Header q ''Ate-Target-Actor'' = [] \<or>
            TargetActor ep \<noteq> [] \<and> rq_Header q ''Ate-Target-Actor'' = [TargetActor ep])))) \<and>
    ((\<nexists>n p. c n = Some p \<and> pod_IP p = ip \<and> label_value (LabelKey cfg) p \<noteq> '''') \<longrightarrow>
      rep = ErrorReply 403 (''client pod '' @ ip @ '' not labelled with playwright-id'') \<and> sent (p_w st') = sent (p_w st))"
proof -
  note inv = served_inv [OF assms(1)]
  have ok: "others_ok ens env" "logs sent env" "api_truthful (LabelKey cfg) (Namespace cfg) c (lk_env env)"
    using assms(2) by (simp_all add: world_ok_def)
  obtain x i w where l: "Lookup (lk_env env) ip (p_idx st) (p_w st) = (x, i, w)" by (metis prod_cases3)
  have look: "x = Some pid \<longleftrightarrow> pod_with (LabelKey cfg) c ip pid" for pid
    using Lookup_in_sync(2) [OF ok(3) _ assms(5) l] inv by blast
  show ?thesis
  proof (intro conjI allI impI)
    fix n p assume "c n = Some p \<and> pod_IP p = ip \<and> label_value (LabelKey cfg) p \<noteq> ''''"
    then have "x = Some (label_value (LabelKey cfg) p)" using look assms(5) unfolding pod_with_def by blast
    with ServeHTTP_adv [OF ok(1,2) _ assms(3,4)] inv l obtain new where
      n: "sent (p_w st') = sent (p_w st) @ new" "list_all (routed ens (label_value (LabelKey cfg) p)) new"
      unfolding adv_def by auto
    then show "\<exists>new. sent (p_w st') = sent (p_w st) @ new \<and>
        (\<forall>q \<in> set new. \<exists>ep. (ep = zero_Endpoint \<or> ens (label_value (LabelKey cfg) p) (Inr ep)) \<and>
           rq_URLHost q \<in> {Addr ep, MCPAddr ep} \<and>
           (rq_Header q ''Ate-Target-Actor'' = [] \<or>
            TargetActor ep \<noteq> [] \<and> rq_Header q ''Ate-Target-Actor'' = [TargetActor ep]))"
      unfolding list_all_iff routed_def by blast
  next
    assume "\<nexists>n p. c n = Some p \<and> pod_IP p = ip \<and> label_value (LabelKey cfg) p \<noteq> ''''"
    then have "\<not> pod_with (LabelKey cfg) c ip pid" for pid unfolding pod_with_def by blast
    then have x: "x = None" using look by (cases x) auto
    then show "rep = ErrorReply 403 (''client pod '' @ ip @ '' not labelled with playwright-id'')"
      using assms(3,4) l by (simp add: ServeHTTP_def lookup_client_def)
    show "sent (p_w st') = sent (p_w st)"
      by (rule ServeHTTP_rejected [OF ok(2,1) assms(3)]) (use assms(4) l x in auto)
  qed
qed

text \<open>The services of a process for examples, and an API server that is down.\<close>

definition demo_services :: "instant services" where
  "demo_services = \<lparr>sv_un = std_unstructured, sv_dyn = \<lparr>dget = (\<lambda>g ns n w. (Inl (ErrStatus 5), w)),
       dcreate = (\<lambda>g ns j w. (Inl (ErrStatus 5), w)), ddelete = (\<lambda>g ns n w. (None, w)),
       dlist = (\<lambda>g ns l w. (Inr [], w))\<rparr>, sv_env = env_demo, sv_ctl = ctl_demo\<rparr>"

lemma sub_List_demo: "sub_List ctl_demo sub_example w = Some (Inr [''alpha''], w)"
  by (simp add: sub_List_def list_loop.simps demo_defs getter_defs strings_CutPrefix_def)

lemma build_demo_parts:
  "\<exists>p w1 bk et ttl mx mx'. build demo_services version commit 0 cfg (BkSubstrate sub_example) 0 = Some (p, w1) \<and>
     pc_mgr p = snd (start_session ''alpha'' 0 0 (New_Manager bk et ttl mx)) \<and>
     pc_idx p = New_Index (LabelKey cfg) True (Namespace cfg) mx'"
proof -
  let ?idx = "New_Index (LabelKey cfg) True (Namespace cfg) (New_Metrics (Backend cfg) version commit)"
  have "sessions (New_Manager bk et ttl mx) = Map.empty" for bk et ttl mx by (simp add: New_Manager_def)
  then have "build demo_services version commit 0 cfg (BkSubstrate sub_example) 0 =
      Some (\<lparr>pc_cfg = cfg, pc_bk = BkSubstrate sub_example, pc_idx = ?idx, pc_mgr = snd (start_session ''alpha'' 0 0
        (New_Manager (Backend cfg) (EnsureTimeout cfg) (IdleTTL cfg) (idx_metrics ?idx)))\<rparr>, 0)"
    by (simp add: build_def demo_services_def sub_List_demo Let_def Reconcile_def)
  then show ?thesis by fastforce
qed

lemma build_demo: "\<exists>p w1. build demo_services version commit 0 cfg (BkSubstrate sub_example) 0 = Some (p, w1)"
  using build_demo_parts by blast

definition down_env :: "request list proxy_env" where
  "down_env = (demo_env ep_example (Inr demo_response))\<lparr>lk_env :=
     demo_lookup\<lparr>listPods := (\<lambda>ns sel f w. (Inl (ErrMsg ''down''), w))\<rparr>\<rparr>"

lemma down_world: "world_ok (\<lambda>_ res. res = Inr ep_example) id cfg c down_env"
  using demo_others [of ep_example "Inr demo_response"] demo_logs [of ep_example "Inr demo_response"]
  by (simp add: world_ok_def down_env_def others_ok_def logs_def quiet_def api_truthful_def demo_env_def demo_lookup_def)

definition alpha_pod :: Pod where
  "alpha_pod = \<lparr>pod_name = ''a'', pod_labels = [''playwright-id'' \<mapsto> ''alpha''], pod_IP = ''10.0.0.7''\<rparr>"

lemma inform_alpha:
  "labelKey (p_idx st) = ''playwright-id'' \<Longrightarrow>
     byPodIP (p_idx (inform [AddEv (PodObj alpha_pod)] st)) ''10.0.0.7'' = Some ''alpha''"
  by (simp add: inform_def upsertFromObj_def Let_def label_value_def alpha_pod_def fun_upd_def)

lemma handleHTTP_sends_one:
  "inner env = (\<lambda>q w. (Inr demo_response, w @ [q])) \<Longrightarrow> relay env = (\<lambda>r w. (None, w)) \<Longrightarrow> meanwhile env = (\<lambda>w m. m) \<Longrightarrow>
     \<exists>q. p_w (snd (handleHTTP env (demo_request (\<lambda>_. [])) r st)) = p_w st @ [q]"
  unfolding handleHTTP_def
  by (simp add: mcp_request_def buffer_body_def
      routeRequest_host reverse_proxy_def upgradeType_none routeRequest_other RoundTrip_def call_def count_def
      on_session_def demo_request_def IsPrint_def demo_response_def)

text \<open>The first request of \<open>alpha\<close>, whose session the start of the process has already created.\<close>

lemma first_request_sent:
  assumes "byPodIP (p_idx st) ''10.0.0.7'' = Some ''alpha''" and "p_w st = []"
    and "p_mgr st = snd (start_session ''alpha'' 0 0 (New_Manager bk et ttl mx))"
    and "inner env = (\<lambda>q w. (Inr demo_response, w @ [q]))" "relay env = (\<lambda>r w. (None, w))" "meanwhile env = (\<lambda>w m. m)"
    and "clock (lk_env env) = (\<lambda>w. 0)" and "pnow env = (\<lambda>w. 0)"
    and "\<And>w m. map_option sID (heap m 0) = Some ''alpha'' \<Longrightarrow> waitFor env w 0 m = resolve_waiter f 0 m"
  shows "\<exists>q. p_w (snd (ServeHTTP env (demo_request (\<lambda>_. [])) st)) = [q]"
proof -
  let ?rq = "demo_request (\<lambda>_. [])"
  have "\<exists>st2. ServeHTTP env ?rq st = handleHTTP env ?rq 0 st2 \<and> p_w st2 = []"
    unfolding ServeHTTP_def demo_ip
    by (simp add: lookup_client_def Lookup_def lookupCache_def get_session_def on_session_def assms
      Get_def Get_enter_def start_session_def New_Manager_def resolve_waiter_def resolve_def close_ready_def
      upd_session_def record_success_def Get_ready_def MarkActive_def Let_def demo_not_ws) (rule exI, rule conjI [OF refl], simp add: assms)
  then obtain st2 where s: "ServeHTTP env ?rq st = handleHTTP env ?rq 0 st2" "p_w st2 = []" by (elim exE conjE)
  from handleHTTP_sends_one [OF assms(4-6), of 0 st2] show ?thesis unfolding s by simp
qed

lemma first_request_after_start:
  assumes "pc_mgr p = snd (start_session ''alpha'' 0 0 (New_Manager bk et ttl mx))"
    and "pc_idx p = New_Index ''playwright-id'' True ns mx'"
    and "inner env = (\<lambda>q w. (Inr demo_response, w @ [q]))" "relay env = (\<lambda>r w. (None, w))" "meanwhile env = (\<lambda>w m. m)"
    and "clock (lk_env env) = (\<lambda>w. 0)" and "pnow env = (\<lambda>w. 0)"
    and "\<And>w m. map_option sID (heap m 0) = Some ''alpha'' \<Longrightarrow> waitFor env w 0 m = resolve_waiter f 0 m"
  shows "\<exists>q. p_w (snd (ServeHTTP env (demo_request (\<lambda>_. [])) (inform [AddEv (PodObj alpha_pod)] (data_handler p [])))) = [q]"
  by (rule first_request_sent [OF inform_alpha _ _ assms(3-8)])
    (simp_all add: inform_def data_handler_def New_Handler_def assms(1,2) New_Index_def)

theorem requests_follow_live_pods_witness:
  "\<exists>cfg p w1 q. build demo_services ''dev'' ''none'' 0 cfg (BkSubstrate sub_example) 0 = Some (p, w1) \<and>
     p_w (snd (ServeHTTP down_env (demo_request (\<lambda>_. [])) (inform [AddEv (PodObj alpha_pod)] (data_handler p [])))) = [q] \<and>
     (\<exists>ep. (ep = zero_Endpoint \<or> ep = ep_example) \<and> rq_URLHost q \<in> {Addr ep, MCPAddr ep}) \<and>
     fst (ServeHTTP down_env (demo_request (\<lambda>_. []))
        (inform [DeleteEv (PodObj alpha_pod)] (inform [AddEv (PodObj alpha_pod)] (data_handler p [])))) =
       ErrorReply 403 ''client pod 10.0.0.7 not labelled with playwright-id''"
proof -
  define cfg :: Config where "cfg = undefined\<lparr>LabelKey := ''playwright-id''\<rparr>"
  let ?ens = "\<lambda>_ res. res = Inr ep_example" and ?rq = "demo_request (\<lambda>_. [])"
  obtain p w1 bk et ttl mx mx' where b: "build demo_services ''dev'' ''none'' 0 cfg (BkSubstrate sub_example) 0 = Some (p, w1)"
    "pc_mgr p = snd (start_session ''alpha'' 0 0 (New_Manager bk et ttl mx))"
    "pc_idx p = New_Index (LabelKey cfg) True (Namespace cfg) mx'"
    using build_demo_parts by blast
  define st1 :: "request list pst" where "st1 = inform [AddEv (PodObj alpha_pod)] (data_handler p [])"
  define st2 where "st2 = inform [DeleteEv (PodObj alpha_pod)] st1"
  have k: "LabelKey cfg = ''playwright-id''" "selected ''playwright-id'' alpha_pod"
    "pod_IP alpha_pod = ''10.0.0.7''" "label_value ''playwright-id'' alpha_pod = ''alpha''"
    by (simp_all add: cfg_def selected_def alpha_pod_def label_value_def)
  have s1: "served demo_services ?ens id cfg [''a'' \<mapsto> alpha_pod] st1"
    using served.pods [OF served.start [OF b(1), of ?ens id "[]"] cluster_step.pod_created [of Map.empty "''a''" alpha_pod]] k
    by (simp add: st1_def ip_free_def)
  have s2: "served demo_services ?ens id cfg Map.empty st2"
    using served.pods [OF s1 cluster_step.pod_deleted [of _ "''a''" alpha_pod "PodObj alpha_pod"]] k
    by (simp add: st2_def)
  obtain rep1 st1' where r1: "ServeHTTP down_env ?rq st1 = (rep1, st1')" by fastforce
  obtain rep2 st2' where r2: "ServeHTTP down_env ?rq st2 = (rep2, st2')" by fastforce
  have idx: "pc_idx p = New_Index ''playwright-id'' True (Namespace cfg) mx'" using b(3) k(1) by simp
  have "\<exists>q. p_w (snd (ServeHTTP down_env ?rq st1)) = [q]" unfolding st1_def
    by (rule first_request_after_start [OF b(2) idx, where f = ep_example]) (simp_all add: down_env_def demo_env_def demo_lookup_def)
  then obtain q where q: "p_w st1' = [q]" using r1 by auto
  have "p_w st1 = []" by (simp add: st1_def inform_def data_handler_def New_Handler_def)
  then have ep: "\<exists>ep. (ep = zero_Endpoint \<or> ep = ep_example) \<and> rq_URLHost q \<in> {Addr ep, MCPAddr ep}"
    using requests_follow_live_pods [OF s1 down_world r1 demo_ip] k q by auto
  moreover have "rep2 = ErrorReply 403 ''client pod 10.0.0.7 not labelled with playwright-id''"
    using requests_follow_live_pods [OF s2 down_world r2 demo_ip] by simp
  ultimately show ?thesis
    using b(1) r1 r2 q unfolding st1_def st2_def
    by (intro exI [of _ cfg] exI [of _ p] exI [of _ w1] exI [of _ q]) simp
qed

end
