(* ===== verification/Sandbox_Set.thy ===== *)
theory Sandbox_Set
  imports Backend
begin

text \<open>
  What the four backends have in common: each keeps its sandboxes as named objects of a service, and the
  service takes an object out in two steps, first marked as being deleted and then, when finalizers and
  controllers have run, gone.  This theory gives the cells of such a service, how a call can change them,
  the two sets of ids that a proxy sees in them, and the abstract operations on these sets that the
  backends implement.
\<close>

section \<open>The objects of a service\<close>

text \<open>
  A cell is an object of a name: what the proxy reads of it (its labels, or its template), and whether it
  is live, that is not marked as being deleted.
\<close>

type_synonym 'l cells = "string \<rightharpoonup> 'l \<times> bool"

text \<open>
  What happens without a call: an object that is being deleted may vanish at any time.  Everything a call
  does is up to this.
\<close>

definition wane :: "'l cells \<Rightarrow> 'l cells \<Rightarrow> bool" where
  "wane c c' \<longleftrightarrow> (\<forall>n. c' n = c n \<or> c' n = None \<and> (\<exists>l. c n = Some (l, False)))"

text \<open>A deletion is accepted: the object, if it is there, is being deleted from now on.\<close>

definition mark :: "string \<Rightarrow> 'l cells \<Rightarrow> 'l cells" where
  "mark n c = c(n := map_option (\<lambda>(l, _). (l, False)) (c n))"

definition marked :: "string \<Rightarrow> 'l cells \<Rightarrow> 'l cells \<Rightarrow> bool" where
  "marked n c c' \<longleftrightarrow> wane (mark n c) c'"

text \<open>A creation is done: there was no live object of the name, and now there is one.\<close>

definition created_as :: "string \<Rightarrow> 'l \<Rightarrow> 'l cells \<Rightarrow> 'l cells \<Rightarrow> bool" where
  "created_as n l c c' \<longleftrightarrow> (\<forall>l0. c n \<noteq> Some (l0, True)) \<and> wane (c(n \<mapsto> (l, True))) c'"

lemma wane_refl [simp]: "wane c c"
  by (simp add: wane_def)

lemma wane_trans: "wane c c1 \<Longrightarrow> wane c1 c2 \<Longrightarrow> wane c c2"
  unfolding wane_def by (metis option.distinct(1))

lemma wane_live: "wane c c' \<Longrightarrow> c' n = Some (l, True) \<longleftrightarrow> c n = Some (l, True)"
  unfolding wane_def by (metis option.distinct(1) option.inject prod.inject)

lemma wane_there: "wane c c' \<Longrightarrow> c' n = Some v \<Longrightarrow> c n = Some v"
  unfolding wane_def by (metis option.distinct(1))

lemma marked_wane: "marked n c c1 \<Longrightarrow> wane c1 c2 \<Longrightarrow> marked n c c2"
  unfolding marked_def by (rule wane_trans)

lemma created_wane: "created_as n l c c1 \<Longrightarrow> wane c1 c2 \<Longrightarrow> created_as n l c c2"
  unfolding created_as_def using wane_trans by blast

lemma wane_created: 
  assumes "wane c c1" and "created_as n l c1 c2"
  shows "created_as n l c c2"
proof -
  have "wane (c(n \<mapsto> (l, True))) (c1(n \<mapsto> (l, True)))" using assms(1) by (simp add: wane_def)
  with assms wane_trans wane_live show ?thesis unfolding created_as_def by metis
qed

lemma wane_marked: 
  assumes "wane c c1" and "marked n c1 c2"
  shows "marked n c c2"
proof -
  have "mark n c1 m = mark n c m \<or> mark n c1 m = None \<and> (\<exists>l. mark n c m = Some (l, False))" for m
    using assms(1) [unfolded wane_def, rule_format, of m] by (auto simp: mark_def)
  then have "wane (mark n c) (mark n c1)" by (simp add: wane_def)
  with assms(2) wane_trans show ?thesis unfolding marked_def by blast
qed

lemma wane_is_marked: "wane c c' \<Longrightarrow> c' n = None \<Longrightarrow> marked n c c'"
  unfolding marked_def wane_def mark_def by (auto split: if_splits) (metis option.distinct(1) option.map(2) option.exhaust)+

section \<open>The ids with a sandbox\<close>

text \<open>
  Of a set of ids with their names, those whose object is there and acceptable as a sandbox, and those
  whose object is live.
\<close>

record sandboxes =
  live :: "string set"
  there :: "string set"

definition sandboxes_in :: "string set \<Rightarrow> (string \<Rightarrow> string) \<Rightarrow> ('l \<Rightarrow> bool) \<Rightarrow> 'l cells \<Rightarrow> sandboxes" where
  "sandboxes_in D name_of acc c = \<lparr>
     live = {pid \<in> D. \<exists>l. c (name_of pid) = Some (l, True) \<and> acc l},
     there = {pid \<in> D. \<exists>l b. c (name_of pid) = Some (l, b) \<and> acc l}\<rparr>"

text \<open>The ids whose sandbox is there and is being deleted.\<close>

definition dying :: "sandboxes \<Rightarrow> string set" where
  "dying S = there S - live S"

text \<open>The abstract operations: what each promises of the two sets, given whether it succeeded.\<close>

definition ensure_spec :: "string \<Rightarrow> bool \<Rightarrow> sandboxes \<Rightarrow> sandboxes \<Rightarrow> bool" where
  "ensure_spec pid success S S' \<longleftrightarrow> live S \<subseteq> live S' \<and> live S' \<subseteq> insert pid (live S) \<and>
     there S' \<subseteq> insert pid (there S) \<and> (success \<longrightarrow> pid \<in> live S' \<or> pid \<in> dying S)"

definition delete_spec :: "string \<Rightarrow> bool \<Rightarrow> sandboxes \<Rightarrow> sandboxes \<Rightarrow> bool" where
  "delete_spec pid success S S' \<longleftrightarrow> live S - {pid} \<subseteq> live S' \<and> live S' \<subseteq> live S \<and>
     there S' \<subseteq> there S \<and> (success \<longrightarrow> pid \<notin> live S')"

definition list_spec :: "string set \<Rightarrow> sandboxes \<Rightarrow> sandboxes \<Rightarrow> bool" where
  "list_spec ids S S' \<longleftrightarrow> live S' = live S \<and> there S' \<subseteq> ids \<and> ids \<subseteq> there S"

lemma ensure_spec_weaken: "ensure_spec pid a S S' \<Longrightarrow> (b \<longrightarrow> a) \<Longrightarrow> ensure_spec pid b S S'"
  by (auto simp: ensure_spec_def)

lemma live_there: "live (sandboxes_in D name_of acc c) \<subseteq> there (sandboxes_in D name_of acc c)"
  by (auto simp: sandboxes_in_def)

lemma in_scope: "there (sandboxes_in D name_of acc c) \<subseteq> D"
  by (auto simp: sandboxes_in_def)

lemma sandboxes_wane:
  assumes "wane c c'"
  shows "live (sandboxes_in D name_of acc c') = live (sandboxes_in D name_of acc c)"
    and "there (sandboxes_in D name_of acc c') \<subseteq> there (sandboxes_in D name_of acc c)"
  using wane_live [OF assms] wane_there [OF assms] by (auto simp: sandboxes_in_def)

lemma list_wane:
  assumes "wane c c'" and "there (sandboxes_in D name_of acc c') \<subseteq> ids" and "ids \<subseteq> there (sandboxes_in D name_of acc c)"
  shows "list_spec ids (sandboxes_in D name_of acc c) (sandboxes_in D name_of acc c')"
  using assms sandboxes_wane(1) [OF assms(1)] by (simp add: list_spec_def)

text \<open>The effects of calls on the sets, for a name that no other id of the set has.\<close>

lemma ensure_wane:
  assumes "wane c c'" and "success \<longrightarrow> pid \<in> D \<and> (\<exists>l b. c (name_of pid) = Some (l, b) \<and> acc l)"
  shows "ensure_spec pid success (sandboxes_in D name_of acc c) (sandboxes_in D name_of acc c')"
proof -
  have "success \<longrightarrow> pid \<in> there (sandboxes_in D name_of acc c)" using assms(2) by (simp add: sandboxes_in_def)
  with sandboxes_wane [OF assms(1), of D name_of acc] show ?thesis by (auto simp: ensure_spec_def dying_def)
qed

lemma ensure_created:
  assumes "inj_on name_of D" and "pid \<in> D" and "created_as (name_of pid) l c c'" and "acc l"
  shows "ensure_spec pid success (sandboxes_in D name_of acc c) (sandboxes_in D name_of acc c')"
proof -
  let ?c = "c(name_of pid \<mapsto> (l, True))"
  have w: "wane ?c c'" and new: "\<And>l0. c (name_of pid) \<noteq> Some (l0, True)" using assms(3) by (simp_all add: created_as_def)
  have n: "name_of q = name_of pid \<longleftrightarrow> q = pid" if "q \<in> D" for q using assms(1,2) that by (meson inj_onD)
  have "live (sandboxes_in D name_of acc ?c) = insert pid (live (sandboxes_in D name_of acc c))"
    "there (sandboxes_in D name_of acc ?c) = insert pid (there (sandboxes_in D name_of acc c))"
    using assms(2,4) n by (auto simp: sandboxes_in_def)
  with sandboxes_wane [OF w, of D name_of acc] show ?thesis by (auto simp: ensure_spec_def)
qed

lemma ensure_then_wane:
  assumes "ensure_spec pid success S (sandboxes_in D name_of acc c)" and "wane c c'"
  shows "ensure_spec pid success S (sandboxes_in D name_of acc c')"
  using assms(1) sandboxes_wane [OF assms(2), of D name_of acc] by (auto simp: ensure_spec_def)

lemma delete_wane:
  assumes "wane c c'"
  shows "delete_spec pid False (sandboxes_in D name_of acc c) (sandboxes_in D name_of acc c')"
  using sandboxes_wane [OF assms, of D name_of acc] by (auto simp: delete_spec_def)

lemma delete_marked:
  assumes "inj_on name_of D" and "pid \<in> D" and "marked (name_of pid) c c'"
  shows "delete_spec pid success (sandboxes_in D name_of acc c) (sandboxes_in D name_of acc c')"
proof -
  let ?c = "mark (name_of pid) c"
  have w: "wane ?c c'" using assms(3) by (simp add: marked_def)
  have n: "name_of q = name_of pid \<longleftrightarrow> q = pid" if "q \<in> D" for q using assms(1,2) that by (meson inj_onD)
  have "live (sandboxes_in D name_of acc ?c) = live (sandboxes_in D name_of acc c) - {pid}"
    using n by (auto simp: sandboxes_in_def mark_def)
  moreover have "there (sandboxes_in D name_of acc ?c) \<subseteq> there (sandboxes_in D name_of acc c)"
    by (auto simp: sandboxes_in_def mark_def split: if_splits)
  ultimately show ?thesis using sandboxes_wane [OF w, of D name_of acc] by (auto simp: delete_spec_def)
qed

end
