(* ===== verification/Cr_Store.thy ===== *)
theory Cr_Store
  imports Kars Isola Sandbox_Set
begin

text \<open>
  The custom-resource backends against the objects in the cluster.  The API server appears as a store of
  objects by resource, namespace and name, with the documented effect of the four calls of the dynamic
  client as the contract \<open>store_ok\<close>: objects can have finalizers, so that a deletion may only mark an
  object, and a call that fails may have taken effect.  \<open>Ensure\<close>, \<open>Delete\<close> and \<open>List\<close> implement the
  abstract operations of \<open>Sandbox_Set\<close>.
\<close>

section \<open>The API server as a store\<close>

type_synonym objects = "string \<rightharpoonup> json_map"
type_synonym store = "GroupVersionResource \<Rightarrow> string \<Rightarrow> objects"

definition put_obj :: "GroupVersionResource \<Rightarrow> string \<Rightarrow> string \<Rightarrow> json_map option \<Rightarrow> store \<Rightarrow> store" where
  "put_obj g ns n v st = st(g := (st g)(ns := (st g ns)(n := v)))"

lemma put_obj_same [simp]: "put_obj g ns n v st g ns = (st g ns)(n := v)"
  by (simp add: put_obj_def)

text \<open>What counts of an object: its labels, and whether a deletion has been accepted for it.\<close>

definition not_deleted :: "json_map \<Rightarrow> bool" where
  "not_deleted ob \<longleftrightarrow> path_get ob [''metadata'', ''deletionTimestamp''] = None"

definition view :: "unstructured \<Rightarrow> json_map \<Rightarrow> (string \<rightharpoonup> string) \<times> bool" where
  "view u ob = (GetLabels u ob, not_deleted ob)"

definition obj_cells :: "('w \<Rightarrow> store) \<Rightarrow> unstructured \<Rightarrow> GroupVersionResource \<Rightarrow> string \<Rightarrow> 'w \<Rightarrow> (string \<rightharpoonup> string) cells" where
  "obj_cells objs u g ns w n = map_option (view u) (objs w g ns n)"

text \<open>
  The contract of the calls.  A read returns an object as it is stored, and a 404 means that there is none
  (any more).  A creation keeps the labels it was given, whatever else the server fills in; a 409 means that
  an object of the name is there, live or being deleted; any other error leaves open whether the object was
  created.  A deletion that is accepted takes the object out, or marks it for the finalizers; a 404 means
  that there is none; any other error leaves open whether it was accepted.  A listing returns all marked
  objects, those included that are being deleted.  In all of them objects that are being deleted may vanish,
  and controllers may change everything of an object but its labels.
\<close>

definition store_gets :: "('w \<Rightarrow> store) \<Rightarrow> unstructured \<Rightarrow> 'w dyn \<Rightarrow> bool" where
  "store_gets objs u dyn \<longleftrightarrow> (\<forall>g ns n w r w'. dget dyn g ns n w = (r, w') \<longrightarrow>
     wane (obj_cells objs u g ns w) (obj_cells objs u g ns w') \<and>
     (case r of
        Inr ob \<Rightarrow> obj_cells objs u g ns w n = Some (view u ob)
      | Inl e \<Rightarrow> isNotFound e \<longrightarrow> obj_cells objs u g ns w' n = None))"

definition store_creates :: "('w \<Rightarrow> store) \<Rightarrow> unstructured \<Rightarrow> 'w dyn \<Rightarrow> bool" where
  "store_creates objs u dyn \<longleftrightarrow> (\<forall>g ns ob n w r w'.
     path_get ob [''metadata'', ''name''] = Some (JStr n) \<and> dcreate dyn g ns ob w = (r, w') \<longrightarrow>
     (case r of
        Inr _ \<Rightarrow> created_as n (GetLabels u ob) (obj_cells objs u g ns w) (obj_cells objs u g ns w')
      | Inl e \<Rightarrow>
          if isAlreadyExists e
          then obj_cells objs u g ns w n \<noteq> None \<and> wane (obj_cells objs u g ns w) (obj_cells objs u g ns w')
          else wane (obj_cells objs u g ns w) (obj_cells objs u g ns w') \<or>
            created_as n (GetLabels u ob) (obj_cells objs u g ns w) (obj_cells objs u g ns w')))"

definition store_deletes :: "('w \<Rightarrow> store) \<Rightarrow> unstructured \<Rightarrow> 'w dyn \<Rightarrow> bool" where
  "store_deletes objs u dyn \<longleftrightarrow> (\<forall>g ns n w r w'. ddelete dyn g ns n w = (r, w') \<longrightarrow>
     (case r of
        None \<Rightarrow> marked n (obj_cells objs u g ns w) (obj_cells objs u g ns w')
      | Some e \<Rightarrow>
          if isNotFound e
          then obj_cells objs u g ns w' n = None \<and> wane (obj_cells objs u g ns w) (obj_cells objs u g ns w')
          else wane (obj_cells objs u g ns w) (obj_cells objs u g ns w') \<or>
            marked n (obj_cells objs u g ns w) (obj_cells objs u g ns w')))"

definition store_lists :: "('w \<Rightarrow> store) \<Rightarrow> unstructured \<Rightarrow> 'w dyn \<Rightarrow> bool" where
  "store_lists objs u dyn \<longleftrightarrow> (\<forall>g ns w r w'. dlist dyn g ns (managedByLabel @ ''=true'') w = (r, w') \<longrightarrow>
     wane (obj_cells objs u g ns w) (obj_cells objs u g ns w') \<and>
     (case r of
        Inr items \<Rightarrow>
          (\<forall>n l b. obj_cells objs u g ns w' n = Some (l, b) \<and> l managedByLabel = Some ''true'' \<longrightarrow>
             (\<exists>ob \<in> set items. GetLabels u ob = l)) \<and>
          (\<forall>ob \<in> set items. GetLabels u ob managedByLabel = Some ''true'' \<and>
             (\<exists>n b. obj_cells objs u g ns w n = Some (GetLabels u ob, b)))
      | Inl _ \<Rightarrow> True))"

definition store_ok :: "('w \<Rightarrow> store) \<Rightarrow> unstructured \<Rightarrow> 'w dyn \<Rightarrow> bool" where
  "store_ok objs u dyn \<longleftrightarrow> store_gets objs u dyn \<and> store_creates objs u dyn \<and> store_deletes objs u dyn \<and> store_lists objs u dyn"

lemma store_get:
  assumes "store_ok objs u dyn" and "dget dyn g ns n w = (r, w')"
  shows "wane (obj_cells objs u g ns w) (obj_cells objs u g ns w')"
    and "r = Inr ob \<Longrightarrow> obj_cells objs u g ns w n = Some (view u ob)"
    and "r = Inl e \<Longrightarrow> isNotFound e \<Longrightarrow> obj_cells objs u g ns w' n = None"
proof -
  have "store_gets objs u dyn" using assms(1) by (simp add: store_ok_def)
  from this [unfolded store_gets_def, rule_format, OF assms(2)]
  show "wane (obj_cells objs u g ns w) (obj_cells objs u g ns w')"
    "r = Inr ob \<Longrightarrow> obj_cells objs u g ns w n = Some (view u ob)"
    "r = Inl e \<Longrightarrow> isNotFound e \<Longrightarrow> obj_cells objs u g ns w' n = None" by simp_all
qed

lemma store_create:
  assumes "store_ok objs u dyn" and "path_get ob [''metadata'', ''name''] = Some (JStr n)" and "dcreate dyn g ns ob w = (r, w')"
  shows "r = Inr ob' \<Longrightarrow> created_as n (GetLabels u ob) (obj_cells objs u g ns w) (obj_cells objs u g ns w')"
    and "wane (obj_cells objs u g ns w) (obj_cells objs u g ns w') \<or>
      created_as n (GetLabels u ob) (obj_cells objs u g ns w) (obj_cells objs u g ns w')"
    and "r = Inl e \<Longrightarrow> isAlreadyExists e \<Longrightarrow> obj_cells objs u g ns w n \<noteq> None"
proof -
  have "store_creates objs u dyn" using assms(1) by (simp add: store_ok_def)
  from this [unfolded store_creates_def, rule_format, OF conjI [OF assms(2,3)]]
  show "r = Inr ob' \<Longrightarrow> created_as n (GetLabels u ob) (obj_cells objs u g ns w) (obj_cells objs u g ns w')"
    "wane (obj_cells objs u g ns w) (obj_cells objs u g ns w') \<or>
      created_as n (GetLabels u ob) (obj_cells objs u g ns w) (obj_cells objs u g ns w')"
    "r = Inl e \<Longrightarrow> isAlreadyExists e \<Longrightarrow> obj_cells objs u g ns w n \<noteq> None" by (cases r; simp split: if_splits)+
qed

lemma store_delete:
  assumes "store_ok objs u dyn" and "ddelete dyn g ns n w = (r, w')"
  shows "(case r of None \<Rightarrow> True | Some e \<Rightarrow> isNotFound e) \<Longrightarrow> marked n (obj_cells objs u g ns w) (obj_cells objs u g ns w')"
    and "wane (obj_cells objs u g ns w) (obj_cells objs u g ns w') \<or> marked n (obj_cells objs u g ns w) (obj_cells objs u g ns w')"
proof -
  have "store_deletes objs u dyn" using assms(1) by (simp add: store_ok_def)
  note d = this [unfolded store_deletes_def, rule_format, OF assms(2)]
  from d show "(case r of None \<Rightarrow> True | Some e \<Rightarrow> isNotFound e) \<Longrightarrow> marked n (obj_cells objs u g ns w) (obj_cells objs u g ns w')"
    by (cases r) (simp_all add: wane_is_marked)
  from d show "wane (obj_cells objs u g ns w) (obj_cells objs u g ns w') \<or> marked n (obj_cells objs u g ns w) (obj_cells objs u g ns w')"
    by (cases r) (simp_all split: if_splits)
qed

lemma store_list:
  assumes "store_ok objs u dyn" and "dlist dyn g ns (managedByLabel @ ''=true'') w = (Inr items, w')"
  shows "wane (obj_cells objs u g ns w) (obj_cells objs u g ns w')"
    and "obj_cells objs u g ns w' n = Some (l, b) \<Longrightarrow> l managedByLabel = Some ''true'' \<Longrightarrow> \<exists>ob \<in> set items. GetLabels u ob = l"
    and "ob \<in> set items \<Longrightarrow> GetLabels u ob managedByLabel = Some ''true'' \<and>
      (\<exists>n b. obj_cells objs u g ns w n = Some (GetLabels u ob, b))"
proof -
  have "store_lists objs u dyn" using assms(1) by (simp add: store_ok_def)
  from this [unfolded store_lists_def, rule_format, OF assms(2)]
  have l: "wane (obj_cells objs u g ns w) (obj_cells objs u g ns w')"
    "\<And>n l b. obj_cells objs u g ns w' n = Some (l, b) \<and> l managedByLabel = Some ''true'' \<Longrightarrow> \<exists>ob \<in> set items. GetLabels u ob = l"
    "\<And>ob. ob \<in> set items \<Longrightarrow> GetLabels u ob managedByLabel = Some ''true'' \<and>
      (\<exists>n b. obj_cells objs u g ns w n = Some (GetLabels u ob, b))" by (simp_all only: sum.case) blast+
  from l(1,3) l(2) [of n l b]
  show "wane (obj_cells objs u g ns w) (obj_cells objs u g ns w')"
    "obj_cells objs u g ns w' n = Some (l, b) \<Longrightarrow> l managedByLabel = Some ''true'' \<Longrightarrow> \<exists>ob \<in> set items. GetLabels u ob = l"
    "ob \<in> set items \<Longrightarrow> GetLabels u ob managedByLabel = Some ''true'' \<and>
      (\<exists>n b. obj_cells objs u g ns w n = Some (GetLabels u ob, b))" by simp_all
qed

section \<open>The objects of the proxy\<close>

text \<open>
  The sandboxes of a set \<open>D\<close> of ids are the objects of their names in the backend's resource and namespace.
  The objects that are marked as managed or have the name of an id of \<open>D\<close> are the proxy's: marked, and with
  the id in the label and in the name.
\<close>

definition obj_sandboxes :: "string set \<Rightarrow> (string \<Rightarrow> string) \<Rightarrow> (string \<rightharpoonup> string) cells \<Rightarrow> sandboxes" where
  "obj_sandboxes D name_of = sandboxes_in D name_of (\<lambda>_. True)"

definition own_labels :: "string \<Rightarrow> string \<Rightarrow> (string \<rightharpoonup> string) \<Rightarrow> bool" where
  "own_labels key pid l \<longleftrightarrow> l managedByLabel = Some ''true'' \<and> (case l key of None \<Rightarrow> [] | Some v \<Rightarrow> v) = pid"

definition objs_owned :: "string \<Rightarrow> string set \<Rightarrow> (string \<Rightarrow> string) \<Rightarrow> (string \<rightharpoonup> string) cells \<Rightarrow> bool" where
  "objs_owned key D name_of c \<longleftrightarrow>
     (\<forall>n l b. c n = Some (l, b) \<and> (l managedByLabel = Some ''true'' \<or> n \<in> name_of ` D) \<longrightarrow>
        (\<exists>pid \<in> D. n = name_of pid \<and> own_labels key pid l))"

lemma owned_wane: "objs_owned key D name_of c \<Longrightarrow> wane c c' \<Longrightarrow> objs_owned key D name_of c'"
  unfolding objs_owned_def using wane_there by blast

lemma owned_marked: "objs_owned key D name_of c \<Longrightarrow> marked n c c' \<Longrightarrow> objs_owned key D name_of c'"
proof (rule owned_wane [of key D name_of "mark n c"])
  assume "objs_owned key D name_of c"
  then show "objs_owned key D name_of (mark n c)" unfolding objs_owned_def mark_def by (auto split: if_splits)
qed (simp add: marked_def)

lemma owned_created:
  assumes "objs_owned key D name_of c" and "created_as (name_of pid) l c c'" and "pid \<in> D" and "own_labels key pid l"
  shows "objs_owned key D name_of c'"
proof (rule owned_wane)
  show "objs_owned key D name_of (c(name_of pid \<mapsto> (l, True)))"
    using assms(1,3,4) unfolding objs_owned_def by (auto split: if_splits)
  show "wane (c(name_of pid \<mapsto> (l, True))) c'" using assms(2) by (simp add: created_as_def)
qed

section \<open>The interface\<close>

text \<open>
  A backend over one kind of resource with its get-or-create step: the step reads first, creates only
  after a 404, and takes a 409 as success at most if the object is there.
\<close>

locale cr_store = cr_backend gvr ns key name_of del lst del_text lst_text
  for gvr ns key name_of and del :: "'w dyn \<Rightarrow> string \<Rightarrow> ('w, err option) io" and lst del_text lst_text +
  fixes goc :: "'w dyn \<Rightarrow> string \<Rightarrow> ('w, err option) io" and build_obj :: "string \<Rightarrow> json_map"
  assumes goc_law: "goc dyn pid w = (r, w') \<Longrightarrow>
      (\<exists>x. dget dyn gvr ns (name_of pid) w = (x, w') \<and> (r = None \<longrightarrow> (\<exists>ob. x = Inr ob))) \<or>
      (\<exists>e w1 ob. dget dyn gvr ns (name_of pid) w = (Inl e, w1) \<and> isNotFound e \<and>
         dcreate dyn gvr ns (build_obj pid) w1 = (Inr ob, w') \<and> r = None) \<or>
      (\<exists>e w1 e2. dget dyn gvr ns (name_of pid) w = (Inl e, w1) \<and> isNotFound e \<and>
         dcreate dyn gvr ns (build_obj pid) w1 = (Inl e2, w') \<and> (r = None \<longrightarrow> isAlreadyExists e2)) \<or>
      (\<exists>e w1 e2 w2 x. dget dyn gvr ns (name_of pid) w = (Inl e, w1) \<and> isNotFound e \<and>
         dcreate dyn gvr ns (build_obj pid) w1 = (Inl e2, w2) \<and> isAlreadyExists e2 \<and>
         dget dyn gvr ns (name_of pid) w2 = (x, w'))"
    and build_name: "path_get (build_obj pid) [''metadata'', ''name''] = Some (JStr (name_of pid))"
    and build_labels: "path_get (build_obj pid) [''metadata'', ''labels''] =
      Some (JMap [managedByLabel \<mapsto> JStr ''true'', key \<mapsto> JStr pid])"
begin

lemma built_own:
  assumes "unstructured_ok u" and "key \<noteq> managedByLabel"
  shows "own_labels key pid (GetLabels u (build_obj pid))"
proof -
  have "\<forall>v \<in> ran [managedByLabel \<mapsto> JStr ''true'', key \<mapsto> JStr pid]. \<exists>s. v = JStr s" by (auto simp: ran_def)
  with assms(1) build_labels [of pid] have "GetLabels u (build_obj pid) k =
      (case [managedByLabel \<mapsto> JStr ''true'', key \<mapsto> JStr pid] k of Some (JStr s) \<Rightarrow> Some s | _ \<Rightarrow> None)" for k
    unfolding unstructured_ok_def by blast
  with assms(2) show ?thesis by (simp add: own_labels_def)
qed

text \<open>The three operations on the sets of sandboxes.\<close>

lemma goc_refines:
  assumes ok: "store_ok objs u dyn" and "unstructured_ok u" and "key \<noteq> managedByLabel" and inj: "inj_on name_of D"
    and own: "objs_owned key D name_of (obj_cells objs u gvr ns w)" and pid: "pid \<in> D" and "goc dyn pid w = (r, w')"
  shows "objs_owned key D name_of (obj_cells objs u gvr ns w') \<and>
    ensure_spec pid (r = None) (obj_sandboxes D name_of (obj_cells objs u gvr ns w))
      (obj_sandboxes D name_of (obj_cells objs u gvr ns w'))"
    (is "objs_owned key D name_of (?c w') \<and> _")
proof -
  have quiet: ?thesis if "wane (?c w) (?c w')" and "r = None \<longrightarrow> ?c w (name_of pid) \<noteq> None"
    using owned_wane [OF own that(1)] ensure_wane [OF that(1), of "r = None" pid D name_of "\<lambda>_. True"] that(2) pid
    by (auto simp: obj_sandboxes_def)
  have new: ?thesis if "created_as (name_of pid) (GetLabels u (build_obj pid)) (?c w) (?c w')"
    using owned_created [OF own that pid built_own [OF assms(2,3)]] ensure_created [OF inj pid that]
    by (simp add: obj_sandboxes_def)
  show ?thesis using goc_law [OF assms(7)]
  proof (elim disjE exE conjE)
    fix x assume g: "dget dyn gvr ns (name_of pid) w = (x, w')" and "r = None \<longrightarrow> (\<exists>ob. x = Inr ob)"
    then have "r = None \<longrightarrow> ?c w (name_of pid) \<noteq> None" using store_get(2) [OF ok g] by auto
    with store_get(1) [OF ok g] show ?thesis by (rule quiet)
  next
    fix e w1 ob
    assume g: "dget dyn gvr ns (name_of pid) w = (Inl e, w1)" and c: "dcreate dyn gvr ns (build_obj pid) w1 = (Inr ob, w')"
    show ?thesis by (rule new) (rule wane_created [OF store_get(1) [OF ok g] store_create(1) [OF ok build_name c refl]])
  next
    fix e w1 e2
    assume g: "dget dyn gvr ns (name_of pid) w = (Inl e, w1)" "isNotFound e"
      and c: "dcreate dyn gvr ns (build_obj pid) w1 = (Inl e2, w')" and r: "r = None \<longrightarrow> isAlreadyExists e2"
    have "r \<noteq> None" using store_get(3) [OF ok g(1) refl g(2)] store_create(3) [OF ok build_name c refl] r by auto
    with store_create(2) [OF ok build_name c] wane_created [OF store_get(1) [OF ok g(1)]] wane_trans [OF store_get(1) [OF ok g(1)]]
    show ?thesis using quiet new by blast
  next
    fix e w1 e2 w2 x
    assume g: "dget dyn gvr ns (name_of pid) w = (Inl e, w1)" "isNotFound e"
      and c: "dcreate dyn gvr ns (build_obj pid) w1 = (Inl e2, w2)" and a: "isAlreadyExists e2"
    have False using store_get(3) [OF ok g(1) refl g(2)] store_create(3) [OF ok build_name c refl a] by simp
    then show ?thesis ..
  qed
qed

lemma del_refines:
  assumes ok: "store_ok objs u dyn" and inj: "inj_on name_of D" and own: "objs_owned key D name_of (obj_cells objs u gvr ns w)"
    and pid: "pid \<in> D" and "del dyn pid w = (r, w')"
  shows "objs_owned key D name_of (obj_cells objs u gvr ns w') \<and>
    delete_spec pid (r = None) (obj_sandboxes D name_of (obj_cells objs u gvr ns w))
      (obj_sandboxes D name_of (obj_cells objs u gvr ns w'))"
    (is "objs_owned key D name_of (?c w') \<and> _")
proof -
  obtain x where d: "ddelete dyn gvr ns (name_of pid) w = (x, w')" "r = None \<longleftrightarrow> (case x of None \<Rightarrow> True | Some e \<Rightarrow> isNotFound e)"
    using assms(5) delete_ok_iff [of dyn pid w] delete_only_own [of dyn pid w] by (metis fst_conv prod.collapse snd_conv)
  show ?thesis
  proof (cases "marked (name_of pid) (?c w) (?c w')")
    case True
    with owned_marked [OF own True] delete_marked [OF inj pid True] show ?thesis by (simp add: obj_sandboxes_def)
  next
    case False
    with store_delete [OF ok d(1)] d(2) have "wane (?c w) (?c w')" and "(r = None) = False" by auto
    with owned_wane [OF own] delete_wane [of "?c w" "?c w'" pid D name_of "\<lambda>_. True"] show ?thesis
      by (simp only: obj_sandboxes_def)
  qed
qed

lemma lst_refines:
  assumes ok: "store_ok objs u dyn" and inj: "inj_on name_of D" and ne: "[] \<notin> D"
    and own: "objs_owned key D name_of (obj_cells objs u gvr ns w)" and "lst u dyn w = (Inr ids, w')"
  shows "objs_owned key D name_of (obj_cells objs u gvr ns w') \<and>
    list_spec (set ids) (obj_sandboxes D name_of (obj_cells objs u gvr ns w))
      (obj_sandboxes D name_of (obj_cells objs u gvr ns w'))"
    (is "objs_owned key D name_of (?c w') \<and> _")
proof -
  obtain items where l: "dlist dyn gvr ns (managedByLabel @ ''=true'') w = (Inr items, w')"
    and i: "ids = filter (\<lambda>i. i \<noteq> []) (map (\<lambda>it. label_or_empty u it key) items)"
    using assms(5) by (auto simp: lst_law split: prod.splits sum.splits)
  note s = store_list [OF ok l]
  have own': "objs_owned key D name_of (?c w')" by (rule owned_wane [OF own s(1)])
  have "there (obj_sandboxes D name_of (?c w')) \<subseteq> set ids"
  proof
    fix pid assume "pid \<in> there (obj_sandboxes D name_of (?c w'))"
    then obtain l b where p: "pid \<in> D" "?c w' (name_of pid) = Some (l, b)" by (auto simp: obj_sandboxes_def sandboxes_in_def)
    then obtain q where "q \<in> D" "name_of pid = name_of q" "own_labels key q l" using own' unfolding objs_owned_def by blast
    then have o: "own_labels key pid l" using inj p(1) by (metis inj_onD)
    then obtain ob where "ob \<in> set items" "GetLabels u ob = l" using s(2) [OF p(2)] by (auto simp: own_labels_def)
    with o p(1) ne show "pid \<in> set ids" unfolding i by (auto simp: own_labels_def label_or_empty_def)
  qed
  moreover have "set ids \<subseteq> there (obj_sandboxes D name_of (?c w))"
  proof
    fix pid assume "pid \<in> set ids"
    then obtain ob where it: "ob \<in> set items" "label_or_empty u ob key = pid" unfolding i by auto
    obtain n b where ob: "label_or_empty u ob key = pid" "GetLabels u ob managedByLabel = Some ''true''"
      "?c w n = Some (GetLabels u ob, b)" using s(3) [OF it(1)] it(2) by blast
    then obtain q where "q \<in> D" "n = name_of q" "own_labels key q (GetLabels u ob)" using own unfolding objs_owned_def by blast
    with ob show "pid \<in> there (obj_sandboxes D name_of (?c w))"
      by (auto simp: obj_sandboxes_def sandboxes_in_def own_labels_def label_or_empty_def)
  qed
  ultimately show ?thesis using own' list_wane [OF s(1)] by (simp add: obj_sandboxes_def)
qed

text \<open>
  \<open>Ensure\<close>: get or create, then calls during which objects that are being deleted may vanish.
\<close>

lemma ensure_refines:
  assumes "store_ok objs u dyn" and "unstructured_ok u" and "key \<noteq> managedByLabel" and "inj_on name_of D"
    and "objs_owned key D name_of (obj_cells objs u gvr ns w)" and "pid \<in> D" and "goc dyn pid w = (r, w1)"
    and "wane (obj_cells objs u gvr ns w1) (obj_cells objs u gvr ns w')"
  shows "objs_owned key D name_of (obj_cells objs u gvr ns w') \<and>
    ensure_spec pid (r = None) (obj_sandboxes D name_of (obj_cells objs u gvr ns w))
      (obj_sandboxes D name_of (obj_cells objs u gvr ns w'))"
  using goc_refines [OF assms(1-7)] owned_wane [OF _ assms(8)] ensure_then_wane [OF _ assms(8)] by (simp add: obj_sandboxes_def)

end

section \<open>The three backends\<close>

interpretation claim_store: cr_store sandboxClaimGVR "sc_namespace s" "sc_labelKey s" claimName
  "sc_Delete s" "sc_List s" "\<lambda>n. ''delete SandboxClaim '' @ n" "''list SandboxClaims''"
  "\<lambda>dyn. sc_getOrCreate dyn s" "\<lambda>pid. buildClaim s (claimName pid) pid" for s
  by unfold_locales
    (auto simp: sc_getOrCreate_def Let_def buildClaim_def split: prod.splits sum.splits if_splits)

interpretation kars_store: cr_store karsSandboxGVR "kb_namespace k" "kb_labelKey k" karsName
  "kars_Delete k" "kars_List k" "\<lambda>n. ''delete KarsSandbox '' @ n" "''list KarsSandboxes''"
  "\<lambda>dyn. kars_getOrCreate dyn k" "\<lambda>pid. kars_buildCR k (karsName pid) pid" for k
  by unfold_locales
    (auto simp: kars_getOrCreate_def Let_def kars_buildCR_def split: prod.splits sum.splits if_splits)

interpretation isola_store: cr_store isolaSandboxGVR "ib_namespace b" "ib_labelKey b" isolaName
  "isola_Delete b" "isola_List b" "\<lambda>n. ''delete Sandbox '' @ n" "''list Sandboxes''"
  "\<lambda>dyn. isola_getOrCreate dyn b" "\<lambda>pid. isola_buildCR b (isolaName pid) pid" for b
  by unfold_locales
    (auto simp: isola_getOrCreate_def Let_def isola_buildCR_def split: prod.splits sum.splits if_splits)

text \<open>The names of claims and KARS sandboxes keep all ids apart, those of isola the ids that fit into a name.\<close>

lemma plain_names_inj: "inj_on claimName D" "inj_on karsName D"
  by (simp_all add: inj_on_def claimName_def karsName_def)

lemma short_ids_inj: "inj_on isolaName {pid. length pid \<le> 44 \<and> isDNS1123 pid}"
proof -
  have "isolaName pid = ''pw-'' @ pid" if "pid \<in> {pid. length pid \<le> 44 \<and> isDNS1123 pid}" for pid
    using that by (simp add: isolaName_cases fits_def isDNS1123_iff)
  then show ?thesis by (simp add: inj_on_def)
qed

section \<open>Ensure\<close>

text \<open>
  While a poller waits, objects that are being deleted may vanish and the controllers change the status of
  the others; the calls of the KARS backend on pods and network policies do no more.
\<close>

definition poll_quiet :: "('w \<Rightarrow> store) \<Rightarrow> unstructured \<Rightarrow> ('w, 'a) poller \<Rightarrow> bool" where
  "poll_quiet objs u poll \<longleftrightarrow> (\<forall>d cond w g ns.
     (\<forall>w. wane (obj_cells objs u g ns w) (obj_cells objs u g ns (snd (cond w)))) \<longrightarrow>
     wane (obj_cells objs u g ns w) (obj_cells objs u g ns (snd (poll d True cond w))))"

definition k8s_quiet :: "('w \<Rightarrow> store) \<Rightarrow> unstructured \<Rightarrow> 'w k8s \<Rightarrow> bool" where
  "k8s_quiet objs u cl \<longleftrightarrow>
     (\<forall>n p w g ns. wane (obj_cells objs u g ns w) (obj_cells objs u g ns (snd (npCreate cl n p w)))) \<and>
     (\<forall>n m w g ns. wane (obj_cells objs u g ns w) (obj_cells objs u g ns (snd (npGet cl n m w)))) \<and>
     (\<forall>n l w g ns. wane (obj_cells objs u g ns w) (obj_cells objs u g ns (snd (podList cl n l w))))"

lemma poll_wane:
  assumes "poll_quiet objs u poll"
    and "\<And>w. wane (obj_cells objs u g ns w) (obj_cells objs u g ns (snd (cond w)))" and "poll d True cond w = (r, w')"
  shows "wane (obj_cells objs u g ns w) (obj_cells objs u g ns w')"
  using assms unfolding poll_quiet_def by (metis snd_conv)

lemma sc_Ensure_wane:
  assumes "store_ok objs u dyn" and "poll_quiet objs u poll" and "sc_Ensure u dyn poll s pid w = (r, w')"
  shows "wane (obj_cells objs u sandboxClaimGVR (sc_namespace s) (snd (sc_getOrCreate dyn s pid w)))
    (obj_cells objs u sandboxClaimGVR (sc_namespace s) w')" (is "wane (?c _) _")
proof -
  have q: "wane (?c v) (?c (snd (sc_ready u dyn s n v)))" for n v
    by (auto simp: sc_ready_def split: prod.splits sum.splits dest: store_get(1) [OF assms(1)])
  obtain x w1 where g: "sc_getOrCreate dyn s pid w = (x, w1)" by fastforce
  obtain y w2 where p: "poll (500 * Millisecond) True (sc_ready u dyn s (claimName pid)) w1 = (y, w2)" by fastforce
  have "w' = (if x = None then w2 else w1)"
    using assms(3) g p by (auto simp: sc_Ensure_def split: option.splits sum.splits)
  moreover have "wane (?c w1) (?c w2)" by (rule poll_wane [OF assms(2) q p])
  ultimately show ?thesis using g by simp
qed

lemma isola_Ensure_wane:
  assumes "store_ok objs u dyn" and "poll_quiet objs u poll" and "isola_Ensure u fv dyn poll b pid w = (r, w')"
  shows "wane (obj_cells objs u isolaSandboxGVR (ib_namespace b) (snd (isola_getOrCreate dyn b pid w)))
    (obj_cells objs u isolaSandboxGVR (ib_namespace b) w')" (is "wane (?c _) _")
proof -
  have q: "wane (?c v) (?c (snd (isola_ready u fv dyn b n v)))" for n v
    by (auto simp: isola_ready_def split: prod.splits sum.splits dest: store_get(1) [OF assms(1)])
  obtain x w1 where g: "isola_getOrCreate dyn b pid w = (x, w1)" by fastforce
  obtain y w2 where p: "poll (500 * Millisecond) True (isola_ready u fv dyn b (isolaName pid)) w1 = (y, w2)" by fastforce
  have "w' = (if x = None then w2 else w1)"
    using assms(3) g p by (auto simp: isola_Ensure_def waitForReady_def split: option.splits sum.splits)
  moreover have "wane (?c w1) (?c w2)" by (rule poll_wane [OF assms(2) q p])
  ultimately show ?thesis using g by simp
qed

lemma ingress_wane:
  assumes "k8s_quiet objs u cl" and "ensureProxyIngress cl k n m v = (x, v')"
  shows "wane (obj_cells objs u g ns v) (obj_cells objs u g ns v')"
proof -
  obtain r v1 where c: "npCreate cl n (desired_policy k n m) v = (r, v1)" by fastforce
  obtain r2 v2 where g: "npGet cl n (np_name (desired_policy k n m)) v1 = (r2, v2)" by fastforce
  have "wane (obj_cells objs u g ns v) (obj_cells objs u g ns v1)" "wane (obj_cells objs u g ns v1) (obj_cells objs u g ns v2)"
    using assms(1) c g unfolding k8s_quiet_def by (metis snd_conv)+
  moreover have "v' = v1 \<or> v' = v2"
    using assms(2) c g by (auto simp: ensureProxyIngress_def Let_def split: sum.splits if_splits)
  ultimately show ?thesis using wane_trans by blast
qed

lemma kars_Ensure_wane:
  assumes "store_ok objs u dyn" and "poll_quiet objs u poll" and "k8s_quiet objs u cl"
    and "kars_Ensure u dyn cl poll k pid w = (r, w')"
  shows "wane (obj_cells objs u karsSandboxGVR (kb_namespace k) (snd (kars_getOrCreate dyn k pid w)))
    (obj_cells objs u karsSandboxGVR (kb_namespace k) w')" (is "wane (?c _) _")
proof -
  have q: "wane (?c v) (?c (snd (kars_running u dyn k n v)))" for n v
    by (auto simp: kars_running_def split: prod.splits sum.splits dest: store_get(1) [OF assms(1)])
  have q2: "wane (?c v) (?c (snd (kars_podIP cl n v)))" for n v
  proof -
    obtain x v' where p: "podList cl n karsSandboxComponentLabel v = (x, v')" by fastforce
    then have "wane (?c v) (?c v')" using assms(3) unfolding k8s_quiet_def by (metis snd_conv)
    with p show ?thesis by (cases x) (simp_all add: kars_podIP_def)
  qed
  obtain x w1 where g: "kars_getOrCreate dyn k pid w = (x, w1)" by fastforce
  obtain y w2 where p: "poll (500 * Millisecond) True (kars_running u dyn k (karsName pid)) w1 = (y, w2)" by fastforce
  have v2: "wane (?c w1) (?c w2)" by (rule poll_wane [OF assms(2) q p])
  show ?thesis
  proof (cases "x = None \<and> (\<exists>n. y = Inr n)")
    case True
    then obtain n where n: "x = None" "y = Inr n" by blast
    obtain e w3 where i: "ensureProxyIngress cl k n (karsName pid) w2 = (e, w3)" by fastforce
    have v3: "wane (?c w2) (?c w3)" by (rule ingress_wane [OF assms(3) i])
    obtain z w4 where p2: "poll (500 * Millisecond) True (kars_podIP cl n) w3 = (z, w4)" by fastforce
    have "w' = (if e = None then w4 else w3)"
      using assms(4) g p n i p2 by (auto simp: kars_Ensure_def kars_waitForRunning_def waitForPodIP_def split: option.splits sum.splits)
    moreover have "wane (?c w3) (?c w4)" by (rule poll_wane [OF assms(2) q2 p2])
    ultimately show ?thesis using g wane_trans [OF v2 wane_trans [OF v3]] wane_trans [OF v2 v3] by simp
  next
    case False
    then have "w' = (if x = None then w2 else w1)"
      using assms(4) g p by (auto simp: kars_Ensure_def kars_waitForRunning_def split: option.splits sum.splits)
    with g v2 show ?thesis by simp
  qed
qed

section \<open>A store\<close>

text \<open>
  An API server over a store with a given list of names, in which the controller makes every claim
  ready when it is created, and the objects have no finalizers.
\<close>

definition make_ready :: "json_map \<Rightarrow> json_map" where
  "make_ready ob = ob(''status'' := claim_example ''status'')"

definition store_dyn :: "(GroupVersionResource \<Rightarrow> string \<Rightarrow> string list) \<Rightarrow> store dyn" where
  "store_dyn names = \<lparr>
     dget = (\<lambda>g ns n w. case w g ns n of None \<Rightarrow> (Inl (ErrStatus 404), w) | Some ob \<Rightarrow> (Inr ob, w)),
     dcreate = (\<lambda>g ns ob w. case path_get ob [''metadata'', ''name''] of
        Some (JStr n) \<Rightarrow>
          (case w g ns n of
             None \<Rightarrow>
               if not_deleted ob
               then (Inr (make_ready ob), put_obj g ns n (Some (make_ready ob)) w) else (Inl (ErrStatus 422), w)
           | Some _ \<Rightarrow> (Inl (ErrStatus 409), w))
      | _ \<Rightarrow> (Inl (ErrStatus 422), w)),
     ddelete = (\<lambda>g ns n w. case w g ns n of None \<Rightarrow> (Some (ErrStatus 404), w) | Some ob \<Rightarrow> (None, put_obj g ns n None w)),
     dlist = (\<lambda>g ns sel w.
        if dom (w g ns) \<subseteq> set (names g ns)
        then (Inr (filter (\<lambda>ob. GetLabels std_unstructured ob managedByLabel = Some ''true'') (List.map_filter (w g ns) (names g ns))), w)
        else (Inl (ErrStatus 500), w))\<rparr>"

lemma make_ready_view: "view std_unstructured (make_ready ob) = view std_unstructured ob"
  by (simp add: std_unstructured_def make_ready_def view_def not_deleted_def fun_eq_iff)

lemma put_cells:
  "obj_cells id u g ns (put_obj g ns n v w) = (obj_cells id u g ns w)(n := map_option (view u) v)"
  by (auto simp: obj_cells_def)

lemma cells_None: "obj_cells id u g ns w n = None \<longleftrightarrow> w g ns n = None"
  by (simp add: obj_cells_def)

lemma marked_removed: "marked n c (c(n := None))"
  by (cases "c n") (auto simp: marked_def wane_def mark_def)

lemma store_dyn_gets: "store_gets id std_unstructured (store_dyn names)"
  unfolding store_gets_def store_dyn_def
  by (auto simp: obj_cells_def isNotFound_def split: option.splits)

lemma store_dyn_creates: "store_creates id std_unstructured (store_dyn names)"
  unfolding store_creates_def
proof (intro allI impI, elim conjE)
  fix g ns ob n and w :: store and r w'
  assume n: "path_get ob [''metadata'', ''name''] = Some (JStr n)" and c: "dcreate (store_dyn names) g ns ob w = (r, w')"
  show "case r of
        Inr _ \<Rightarrow> created_as n (GetLabels std_unstructured ob) (obj_cells id std_unstructured g ns w) (obj_cells id std_unstructured g ns w')
      | Inl e \<Rightarrow>
          if isAlreadyExists e
          then obj_cells id std_unstructured g ns w n \<noteq> None \<and> wane (obj_cells id std_unstructured g ns w) (obj_cells id std_unstructured g ns w')
          else wane (obj_cells id std_unstructured g ns w) (obj_cells id std_unstructured g ns w') \<or>
            created_as n (GetLabels std_unstructured ob) (obj_cells id std_unstructured g ns w) (obj_cells id std_unstructured g ns w')"
  proof (cases "w g ns n = None \<and> not_deleted ob")
    case True
    then have "r = Inr (make_ready ob)" "w' = put_obj g ns n (Some (make_ready ob)) w"
      using c n by (simp_all add: store_dyn_def)
    moreover have "view std_unstructured (make_ready ob) = (GetLabels std_unstructured ob, True)"
      using True by (simp add: make_ready_view) (simp add: view_def)
    ultimately show ?thesis using True by (simp add: created_as_def put_cells) (simp add: obj_cells_def)
  next
    case False
    then have "w' = w \<and> (\<exists>e. r = Inl e \<and> (isAlreadyExists e \<longrightarrow> w g ns n \<noteq> None))"
      using c n by (cases "w g ns n") (auto simp: store_dyn_def isAlreadyExists_def)
    then show ?thesis by (auto simp: obj_cells_def)
  qed
qed

lemma store_dyn_deletes: "store_deletes id std_unstructured (store_dyn names)"
  unfolding store_deletes_def store_dyn_def
  by (auto simp: put_cells cells_None isNotFound_def marked_removed split: option.splits)

lemma store_dyn_lists: "store_lists id std_unstructured (store_dyn names)"
proof -
  have "set (List.map_filter (w g ns) (names g ns)) = ran (w g ns)" if "dom (w g ns) \<subseteq> set (names g ns)"
    for w :: store and g ns
    using that by (force simp: List.map_filter_def ran_def dom_def image_iff)
  then show ?thesis
    unfolding store_lists_def store_dyn_def by (auto simp: obj_cells_def view_def ran_def split: if_splits)
qed

lemma store_dyn_ok: "store_ok id std_unstructured (store_dyn names)"
  by (simp add: store_ok_def store_dyn_gets store_dyn_creates store_dyn_deletes store_dyn_lists)

lemma poll_once_quiet: "poll_quiet objs u poll_once"
  unfolding poll_quiet_def
proof (intro allI impI)
  fix d :: duration and cond :: "'a \<Rightarrow> (err + 'b option) \<times> 'a" and w g ns
  assume "\<forall>w. wane (obj_cells objs u g ns w) (obj_cells objs u g ns (snd (cond w)))"
  moreover have "snd (poll_once d True cond w) = snd (cond w)"
    by (simp add: poll_once_def split: prod.splits sum.splits option.splits)
  ultimately show "wane (obj_cells objs u g ns w) (obj_cells objs u g ns (snd (poll_once d True cond w)))" by metis
qed

definition no_objects :: store where
  "no_objects g ns n = None"

lemma store_create_claim:
  assumes "w sandboxClaimGVR (sc_namespace s) (claimName pid) = None"
  shows "sc_getOrCreate (store_dyn names) s pid w =
    (None, put_obj sandboxClaimGVR (sc_namespace s) (claimName pid) (Some (make_ready (buildClaim s (claimName pid) pid))) w)"
proof -
  have "path_get (buildClaim s (claimName pid) pid) [''metadata'', ''name''] = Some (JStr (claimName pid))"
    "not_deleted (buildClaim s (claimName pid) pid)"
    by (simp_all add: buildClaim_def not_deleted_def)
  with assms show ?thesis by (simp add: sc_getOrCreate_def store_dyn_def isNotFound_def Let_def del: path_get.simps)
qed

lemma make_ready_endpoint: "extractClaimEndpoint std_unstructured (make_ready ob) = Some ''10.0.0.5''"
  by (simp add: extractClaimEndpoint_def std_unstructured_def claim_example_def ready_condition_def field_is_def make_ready_def)

lemma claim_ready_after_create:
  "\<exists>w'. sc_Ensure std_unstructured (store_dyn names) poll_once sc_example ''alpha'' no_objects =
     (Inr \<lparr>Host = ''10.0.0.5'', TargetActor = [], Port = 9222, MCPPort = 9223\<rparr>, w')"
  using store_create_claim [of no_objects sc_example "''alpha''" names]
  by (simp add: sc_Ensure_def no_objects_def poll_once_def sc_ready_def make_ready_endpoint)
    (simp add: store_dyn_def make_ready_endpoint sc_example_def NewSandboxClaim_def)

end
