(* ===== verification/Substrate_Set.thy ===== *)
theory Substrate_Set
  imports Substrate_Frame Sandbox_Set
begin

text \<open>
  The substrate backend against the actors of the control plane: the sandboxes are the actors of the
  configured template with a name of the scheme.  The control plane appears as a map from the actors of every
  atespace to their templates, with the effect of its calls as the contract \<open>control_ok\<close>; an actor in the
  state \<open>ACTOR_STATE_DELETING\<close> is one that is being deleted.  \<open>Ensure\<close>, \<open>Delete\<close> and \<open>List\<close> implement the
  abstract operations of \<open>Sandbox_Set\<close>.
\<close>

section \<open>The control plane as a map of actors\<close>

definition actor_template :: "Actor \<Rightarrow> string \<times> string" where
  "actor_template a = (ObjectRef_GetAtespace (Actor_GetActorTemplate (Some a)), ObjectRef_GetName (Actor_GetActorTemplate (Some a)))"

definition actor_cell :: "Actor \<Rightarrow> (string \<times> string) \<times> bool" where
  "actor_cell a = (actor_template a, actor_state a \<noteq> ACTOR_STATE_DELETING)"

type_synonym actor_map = "string \<Rightarrow> (string \<times> string) cells"

text \<open>
  A read returns the actor that is there; \<open>NotFound\<close> means that there is none (any more).  A creation keeps
  the template; \<open>AlreadyExists\<close> means that an actor of the name is there; any other error leaves open whether
  the actor was created.  A successful deletion takes the actor out or puts it into the deleting state; any
  error but \<open>NotFound\<close> leaves open whether it was accepted.  A complete listing of an atespace shows all its
  actors.  The other calls, requests through the router and pauses create and delete no actor.  In all of
  them actors that are being deleted may vanish.
\<close>

definition gets_ok :: "('w \<Rightarrow> actor_map) \<Rightarrow> 'w sub_env \<Rightarrow> 'w control \<Rightarrow> bool" where
  "gets_ok acts env ctl \<longleftrightarrow> (\<forall>ns n w r w'. cGetActor ctl \<lparr>gar_Actor = Some \<lparr>or_Atespace = ns, or_Name = n\<rparr>\<rparr> w = (r, w') \<longrightarrow>
     wane (acts w ns) (acts w' ns) \<and>
     (case r of
        Inr a \<Rightarrow> acts w ns n = Some (actor_cell a)
      | Inl e \<Rightarrow> status_Code env e = code_NotFound \<longrightarrow> acts w' ns n = None))"

definition creates_ok :: "('w \<Rightarrow> actor_map) \<Rightarrow> 'w sub_env \<Rightarrow> 'w control \<Rightarrow> bool" where
  "creates_ok acts env ctl \<longleftrightarrow> (\<forall>ns n t w r w'. cCreateActor ctl \<lparr>car_Actor = Some \<lparr>
       a_Metadata = Some \<lparr>rm_Atespace = ns, rm_Name = n\<rparr>, a_ActorTemplate = Some t, a_Status = None\<rparr>\<rparr> w = (r, w') \<longrightarrow>
     (case r of
        Inr _ \<Rightarrow> created_as n (or_Atespace t, or_Name t) (acts w ns) (acts w' ns)
      | Inl e \<Rightarrow>
          if status_Code env e = code_AlreadyExists
          then acts w ns n \<noteq> None \<and> wane (acts w ns) (acts w' ns)
          else wane (acts w ns) (acts w' ns) \<or> created_as n (or_Atespace t, or_Name t) (acts w ns) (acts w' ns)))"

definition deletes_ok :: "('w \<Rightarrow> actor_map) \<Rightarrow> 'w sub_env \<Rightarrow> 'w control \<Rightarrow> bool" where
  "deletes_ok acts env ctl \<longleftrightarrow> (\<forall>ns n w r w'.
     cDeleteActor ctl \<lparr>dar_Actor = Some \<lparr>or_Atespace = ns, or_Name = n\<rparr>, dar_AnyState = False\<rparr> w = (r, w') \<longrightarrow>
     (case r of
        Inr _ \<Rightarrow> marked n (acts w ns) (acts w' ns)
      | Inl e \<Rightarrow>
          if status_Code env e = code_NotFound
          then acts w' ns n = None \<and> wane (acts w ns) (acts w' ns)
          else wane (acts w ns) (acts w' ns) \<or> marked n (acts w ns) (acts w' ns)))"

definition calls_quiet :: "('w \<Rightarrow> actor_map) \<Rightarrow> 'w sub_env \<Rightarrow> 'w control \<Rightarrow> bool" where
  "calls_quiet acts env ctl \<longleftrightarrow>
     (\<forall>r w ns. wane (acts w ns) (acts (snd (cSuspendActor ctl r w)) ns)) \<and>
     (\<forall>r w ns. wane (acts w ns) (acts (snd (cResumeActor ctl r w)) ns)) \<and>
     (\<forall>r w ns. wane (acts w ns) (acts (snd (cGetActorEgressPolicy ctl r w)) ns)) \<and>
     (\<forall>r w ns. wane (acts w ns) (acts (snd (cCreateActorEgressPolicy ctl r w)) ns)) \<and>
     (\<forall>url t w ns. wane (acts w ns) (acts (snd (probeDo env url t w)) ns)) \<and>
     (\<forall>d w ns. wane (acts w ns) (acts (snd (after env d w)) ns))"

definition lists_ok :: "('w \<Rightarrow> actor_map) \<Rightarrow> 'w control \<Rightarrow> bool" where
  "lists_ok acts ctl \<longleftrightarrow> (\<forall>s w ps w'. serves ctl s [] w ps w' \<longrightarrow>
     wane (acts w (actorTemplateNS s)) (acts w' (actorTemplateNS s)) \<and>
     (\<forall>n t b. acts w' (actorTemplateNS s) n = Some (t, b) \<longrightarrow>
        (\<exists>p \<in> set ps. \<exists>a \<in> set p. ResourceMetadata_GetName (Actor_GetMetadata (Some a)) = n \<and> actor_template a = t)) \<and>
     (\<forall>p \<in> set ps. \<forall>a \<in> set p. \<exists>b.
        acts w (actorTemplateNS s) (ResourceMetadata_GetName (Actor_GetMetadata (Some a))) = Some (actor_template a, b)))"

definition control_ok :: "('w \<Rightarrow> actor_map) \<Rightarrow> 'w sub_env \<Rightarrow> 'w control \<Rightarrow> bool" where
  "control_ok acts env ctl \<longleftrightarrow> gets_ok acts env ctl \<and> creates_ok acts env ctl \<and> deletes_ok acts env ctl \<and>
     calls_quiet acts env ctl \<and> lists_ok acts ctl"

lemma control_get:
  assumes "control_ok acts env ctl" and "cGetActor ctl \<lparr>gar_Actor = Some (actorRef s i)\<rparr> w = (r, w')"
  shows "wane (acts w (actorTemplateNS s)) (acts w' (actorTemplateNS s))"
    and "r = Inr a \<Longrightarrow> acts w (actorTemplateNS s) i = Some (actor_cell a)"
    and "r = Inl e \<Longrightarrow> status_Code env e = code_NotFound \<Longrightarrow> acts w' (actorTemplateNS s) i = None"
proof -
  have "gets_ok acts env ctl" using assms(1) by (simp add: control_ok_def)
  from this [unfolded gets_ok_def, rule_format, OF assms(2) [unfolded actorRef_def]]
  show "wane (acts w (actorTemplateNS s)) (acts w' (actorTemplateNS s))"
    "r = Inr a \<Longrightarrow> acts w (actorTemplateNS s) i = Some (actor_cell a)"
    "r = Inl e \<Longrightarrow> status_Code env e = code_NotFound \<Longrightarrow> acts w' (actorTemplateNS s) i = None" by simp_all
qed

lemma control_create:
  assumes "control_ok acts env ctl"
    and "cCreateActor ctl \<lparr>car_Actor = Some \<lparr>a_Metadata = Some \<lparr>rm_Atespace = actorTemplateNS s, rm_Name = i\<rparr>,
        a_ActorTemplate = Some (actorRef s (actorTemplateName s)), a_Status = None\<rparr>\<rparr> w = (r, w')"
  shows "r = Inr a \<Longrightarrow> created_as i (actorTemplateNS s, actorTemplateName s) (acts w (actorTemplateNS s)) (acts w' (actorTemplateNS s))"
    and "wane (acts w (actorTemplateNS s)) (acts w' (actorTemplateNS s)) \<or>
      created_as i (actorTemplateNS s, actorTemplateName s) (acts w (actorTemplateNS s)) (acts w' (actorTemplateNS s))"
    and "r = Inl e \<Longrightarrow> status_Code env e = code_AlreadyExists \<Longrightarrow> acts w (actorTemplateNS s) i \<noteq> None"
proof -
  have "creates_ok acts env ctl" using assms(1) by (simp add: control_ok_def)
  note c = this [unfolded creates_ok_def, rule_format, OF assms(2)]
  from c show "r = Inr a \<Longrightarrow>
      created_as i (actorTemplateNS s, actorTemplateName s) (acts w (actorTemplateNS s)) (acts w' (actorTemplateNS s))"
    by (simp add: actorRef_def)
  from c show "wane (acts w (actorTemplateNS s)) (acts w' (actorTemplateNS s)) \<or>
      created_as i (actorTemplateNS s, actorTemplateName s) (acts w (actorTemplateNS s)) (acts w' (actorTemplateNS s))"
    by (cases r) (simp_all add: actorRef_def split: if_splits)
  from c show "r = Inl e \<Longrightarrow> status_Code env e = code_AlreadyExists \<Longrightarrow> acts w (actorTemplateNS s) i \<noteq> None"
    by simp
qed

lemma control_delete:
  assumes "control_ok acts env ctl" and "cDeleteActor ctl \<lparr>dar_Actor = Some (actorRef s i), dar_AnyState = False\<rparr> w = (r, w')"
  shows "r = Inr x \<Longrightarrow> marked i (acts w (actorTemplateNS s)) (acts w' (actorTemplateNS s))"
    and "r = Inl e \<Longrightarrow> status_Code env e = code_NotFound \<Longrightarrow> marked i (acts w (actorTemplateNS s)) (acts w' (actorTemplateNS s))"
    and "wane (acts w (actorTemplateNS s)) (acts w' (actorTemplateNS s)) \<or> marked i (acts w (actorTemplateNS s)) (acts w' (actorTemplateNS s))"
proof -
  have "deletes_ok acts env ctl" using assms(1) by (simp add: control_ok_def)
  note d = this [unfolded deletes_ok_def, rule_format, OF assms(2) [unfolded actorRef_def]]
  from d show "r = Inr x \<Longrightarrow> marked i (acts w (actorTemplateNS s)) (acts w' (actorTemplateNS s))" by simp
  from d show "r = Inl e \<Longrightarrow> status_Code env e = code_NotFound \<Longrightarrow> marked i (acts w (actorTemplateNS s)) (acts w' (actorTemplateNS s))"
    by (simp add: wane_is_marked)
  from d show "wane (acts w (actorTemplateNS s)) (acts w' (actorTemplateNS s)) \<or> marked i (acts w (actorTemplateNS s)) (acts w' (actorTemplateNS s))"
    by (cases r) (simp_all split: if_splits)
qed

lemma control_quiet:
  assumes "control_ok acts env ctl"
  shows "cSuspendActor ctl r1 w = (x1, w') \<Longrightarrow> wane (acts w ns) (acts w' ns)"
    and "cResumeActor ctl r2 w = (x1, w') \<Longrightarrow> wane (acts w ns) (acts w' ns)"
    and "cGetActorEgressPolicy ctl r3 w = (x3, w') \<Longrightarrow> wane (acts w ns) (acts w' ns)"
    and "cCreateActorEgressPolicy ctl r4 w = (x3, w') \<Longrightarrow> wane (acts w ns) (acts w' ns)"
    and "probeDo env url t w = (x5, w') \<Longrightarrow> wane (acts w ns) (acts w' ns)"
    and "after env d w = (x1, w') \<Longrightarrow> wane (acts w ns) (acts w' ns)"
  using assms unfolding control_ok_def calls_quiet_def by (metis snd_conv)+

section \<open>The operations\<close>

definition sub_sandboxes :: "('w \<Rightarrow> actor_map) \<Rightarrow> Substrate \<Rightarrow> 'w \<Rightarrow> sandboxes" where
  "sub_sandboxes acts s w =
     sandboxes_in UNIV actorID (\<lambda>t. t = (actorTemplateNS s, actorTemplateName s)) (acts w (actorTemplateNS s))"

lemma actorID_inj: "inj_on actorID D"
  by (simp add: inj_on_def actorID_def)

text \<open>The actor that \<open>getOrCreate\<close> returns was there, or has just been created.\<close>

lemma getOrCreate_acts:
  assumes "control_ok acts env ctl" and "sub_getOrCreate env ctl s i w = (r, w')"
  shows "wane (acts w (actorTemplateNS s)) (acts w' (actorTemplateNS s)) \<and>
      (\<forall>a. r = Inr a \<longrightarrow> (\<exists>b. acts w (actorTemplateNS s) i = Some (actor_template a, b))) \<or>
    created_as i (actorTemplateNS s, actorTemplateName s) (acts w (actorTemplateNS s)) (acts w' (actorTemplateNS s))"
proof -
  obtain r1 w1 where g1: "cGetActor ctl \<lparr>gar_Actor = Some (actorRef s i)\<rparr> w = (r1, w1)" by fastforce
  obtain r2 w2 where c: "cCreateActor ctl \<lparr>car_Actor = Some \<lparr>
      a_Metadata = Some \<lparr>rm_Atespace = actorTemplateNS s, rm_Name = i\<rparr>,
      a_ActorTemplate = Some (actorRef s (actorTemplateName s)), a_Status = None\<rparr>\<rparr> w1 = (r2, w2)" by fastforce
  obtain r3 w3 where g3: "cGetActor ctl \<lparr>gar_Actor = Some (actorRef s i)\<rparr> w2 = (r3, w3)" by fastforce
  note e1 = control_get [OF assms(1) g1] and e2 = control_create [OF assms(1) c]
  consider (first) "w' = w1" "\<forall>a. r = Inr a \<longrightarrow> r1 = Inr a" | (made) b where "w' = w2" "r2 = Inr b"
    | (failed) "w' = w2" "\<forall>a. r \<noteq> Inr a"
    | (again) e e0 where "r1 = Inl e0" "status_Code env e0 = code_NotFound" "r2 = Inl e" "status_Code env e = code_AlreadyExists"
    using assms(2) by (auto simp: sub_getOrCreate_def g1 c g3 split: sum.splits if_splits)
  then show ?thesis
  proof cases
    case first
    with e1(1,2) show ?thesis by (auto simp: actor_cell_def)
  next
    case (made b)
    with wane_created [OF e1(1) e2(1)] show ?thesis by simp
  next
    case failed
    with e2(2) wane_trans [OF e1(1)] wane_created [OF e1(1)] show ?thesis by auto
  next
    case (again e e0)
    with e1(3) e2(3) show ?thesis by simp
  qed
qed

lemma policy_acts:
  assumes "control_ok acts env ctl" and "ensureEgressPolicy env ctl s i w = (r, w')"
  shows "wane (acts w ns) (acts w' ns)"
proof -
  have "wane (acts v ns) (acts v' ns)" if "fetch_policy env ctl s i v = (x, v')" for v x v'
    using that by (auto simp: fetch_policy_def Let_def split: prod.splits sum.splits if_splits
        dest!: control_quiet(3,4) [OF assms(1), where ns = ns] intro: wane_trans)
  with assms(2) show ?thesis by (auto simp: ensureEgressPolicy_def split: prod.splits sum.splits if_splits)
qed

lemma running_acts:
  assumes c: "control_ok acts env ctl" and "running_loop env ctl s i dl resumed actor w = Some (y, w')"
  shows "wane (acts w (actorTemplateNS s)) (acts w' (actorTemplateNS s))"
proof -
  have ro: "wane (acts v (actorTemplateNS s)) (acts v' (actorTemplateNS s))" if "resume_once env ctl s i b st v = (x, v')" for b st v x v'
    using that by (auto simp: resume_once_def split: prod.splits option.splits if_splits dest!: control_quiet(2) [OF c])
  note get = control_get(1) [OF c] and pause = control_quiet(6) [OF c, where ns = "actorTemplateNS s"]
  show ?thesis
  proof (rule running_loop_rel [where R = "\<lambda>_ w w'. wane (acts w (actorTemplateNS s)) (acts w' (actorTemplateNS s))", OF assms(2)], goal_cases)
    case 1
    show ?case by (rule wane_refl)
  next
    case 2
    then show ?case by (rule ro)
  next
    case 3
    from 3(1) show ?case by (rule wane_trans [OF ro pause [OF 3(2)]])
  next
    case (4 b st b1 w w1 q w2 g w3 w')
    show ?case by (rule wane_trans [OF ro [OF 4(1)] wane_trans [OF pause [OF 4(2)] wane_trans [OF get [OF 4(3)] 4(4)]]])
  qed
qed

lemma upstream_acts:
  assumes c: "control_ok acts env ctl" and "upstream_loop env s i dl k w = Some (y, w')"
  shows "wane (acts w ns) (acts w' ns)"
  by (rule upstream_loop_rel [where R = "\<lambda>w w'. wane (acts w ns) (acts w' ns)", OF assms(2)])
    (use control_quiet(5,6) [OF c] wane_trans in \<open>(blast intro: wane_refl)+\<close>)

lemma sub_Ensure_wane:
  assumes "control_ok acts env ctl" and "sub_Ensure env ctl s pid w = Some (r, w')"
    and g: "sub_getOrCreate env ctl s (actorID pid) w = (x, w1)"
  shows "wane (acts w1 (actorTemplateNS s)) (acts w' (actorTemplateNS s))"
proof -
  note step = policy_acts [OF assms(1), where ns = "actorTemplateNS s"] running_acts [OF assms(1)]
    upstream_acts [OF assms(1), where ns = "actorTemplateNS s"]
  show ?thesis
    using assms(2) by (auto simp: sub_Ensure_def Let_def g waitForRunning_def waitUpstreamReady_def
        split: prod.splits sum.splits option.splits if_splits dest!: step intro: wane_trans)
qed

lemma sub_Ensure_refines:
  assumes "control_ok acts env ctl" and "sub_Ensure env ctl s pid w = Some (r, w')"
    and g: "sub_getOrCreate env ctl s (actorID pid) w = (x, w1)"
    and got: "got \<longrightarrow> (\<exists>a. x = Inr a \<and> actor_template a = (actorTemplateNS s, actorTemplateName s))"
  shows "ensure_spec pid got (sub_sandboxes acts s w) (sub_sandboxes acts s w')"
  unfolding sub_sandboxes_def
proof (rule ensure_then_wane)
  show "wane (acts w1 (actorTemplateNS s)) (acts w' (actorTemplateNS s))" by (rule sub_Ensure_wane [OF assms(1-3)])
  let ?S = "sandboxes_in UNIV actorID (\<lambda>t. t = (actorTemplateNS s, actorTemplateName s))"
  from getOrCreate_acts [OF assms(1) g]
  show "ensure_spec pid got (?S (acts w (actorTemplateNS s))) (?S (acts w1 (actorTemplateNS s)))"
  proof
    assume "wane (acts w (actorTemplateNS s)) (acts w1 (actorTemplateNS s)) \<and>
      (\<forall>a. x = Inr a \<longrightarrow> (\<exists>b. acts w (actorTemplateNS s) (actorID pid) = Some (actor_template a, b)))"
    with got show ?thesis by (intro ensure_wane) auto
  next
    assume "created_as (actorID pid) (actorTemplateNS s, actorTemplateName s)
        (acts w (actorTemplateNS s)) (acts w1 (actorTemplateNS s))"
    then show ?thesis by (intro ensure_created [OF actorID_inj]) simp_all
  qed
qed

lemma sub_getOrCreate_existing:
  assumes "control_ok acts env ctl" and "sub_getOrCreate env ctl s i w = (r, w')" and "acts w (actorTemplateNS s) i = Some (t, True)"
  shows "r = Inr a \<Longrightarrow> actor_template a = t"
proof -
  obtain r1 w1 where g1: "cGetActor ctl \<lparr>gar_Actor = Some (actorRef s i)\<rparr> w = (r1, w1)" by fastforce
  note e = control_get [OF assms(1) g1]
  have "acts w1 (actorTemplateNS s) i = Some (t, True)" using wane_live [OF e(1)] assms(3) by simp
  with e assms(2,3) show "r = Inr a \<Longrightarrow> actor_template a = t"
    by (cases r1) (auto simp: sub_getOrCreate_def g1 actor_cell_def split: if_splits)
qed

lemma sub_Delete_acts:
  assumes "control_ok acts env ctl" and "sub_Delete env ctl s pid w = (r, w')"
  shows "r = None \<Longrightarrow> marked (actorID pid) (acts w (actorTemplateNS s)) (acts w' (actorTemplateNS s))"
    and "wane (acts w (actorTemplateNS s)) (acts w' (actorTemplateNS s)) \<or>
      marked (actorID pid) (acts w (actorTemplateNS s)) (acts w' (actorTemplateNS s))"
proof -
  obtain q w1 where q: "cSuspendActor ctl \<lparr>sar_Actor = Some (actorRef s (actorID pid))\<rparr> w = (q, w1)" by fastforce
  obtain y w2 where y: "cDeleteActor ctl \<lparr>dar_Actor = Some (actorRef s (actorID pid)), dar_AnyState = False\<rparr> w1 = (y, w2)" by fastforce
  note e0 = control_quiet(1) [OF assms(1) q, of "actorTemplateNS s"] and e = control_delete [OF assms(1) y]
  have "w' = w2 \<and> (r = None \<longrightarrow> (\<exists>x. y = Inr x) \<or> (\<exists>e. y = Inl e \<and> status_Code env e = code_NotFound)) \<or> r \<noteq> None \<and> w' = w1"
    using assms(2) q y by (auto simp: sub_Delete_def delete_actor_def Let_def split: option.splits sum.splits if_splits)
  then show "r = None \<Longrightarrow> marked (actorID pid) (acts w (actorTemplateNS s)) (acts w' (actorTemplateNS s))"
    "wane (acts w (actorTemplateNS s)) (acts w' (actorTemplateNS s)) \<or>
      marked (actorID pid) (acts w (actorTemplateNS s)) (acts w' (actorTemplateNS s))"
    using e(1,2) e(3) e0 wane_marked [OF e0] wane_trans [OF e0] by auto
qed

lemma sub_Delete_refines:
  assumes "control_ok acts env ctl" and "sub_Delete env ctl s pid w = (r, w')"
  shows "delete_spec pid (r = None) (sub_sandboxes acts s w) (sub_sandboxes acts s w')"
proof (cases "marked (actorID pid) (acts w (actorTemplateNS s)) (acts w' (actorTemplateNS s))")
  case True
  then show ?thesis unfolding sub_sandboxes_def by (intro delete_marked [OF actorID_inj]) simp_all
next
  case False
  with sub_Delete_acts [OF assms] have "wane (acts w (actorTemplateNS s)) (acts w' (actorTemplateNS s))" and "(r = None) = False" by auto
  then show ?thesis unfolding sub_sandboxes_def by (simp only: delete_wane)
qed

text \<open>A listing that returned has gone through all pages.\<close>

lemma list_loop_served:
  fixes ctl :: "'w control"
  assumes "list_loop ctl s ids tok w = Some (Inr ids', w')"
  shows "\<exists>ps. serves ctl s tok w ps w' \<and> ids' = ids @ concat (map (page_ids s) ps)"
proof -
  let ?P = "\<lambda>(ctl' :: 'w control) (s' :: Substrate) (ids :: string list) (tok :: string) (w :: 'w) (y :: string list result \<times> 'w).
    ctl' = ctl \<and> s' = s \<longrightarrow> (\<forall>ids'. fst y = Inr ids' \<longrightarrow> (\<exists>ps. serves ctl s tok w ps (snd y) \<and> ids' = ids @ concat (map (page_ids s) ps)))"
  have "?P ctl s ids tok w (Inr ids', w')"
  proof (rule list_loop.raw_induct [OF _ assms, where P = ?P], intro impI allI, elim conjE, goal_cases)
    case (1 ll ctl' s' ids tok w y ids')
    obtain x w1 where l: "cListActors ctl (list_request s tok) w = (x, w1)" by fastforce
    with 1 obtain resp where resp: "x = Inr resp" by (cases x) (auto simp: list_request_def)
    obtain p t where pt: "resp = \<lparr>lresp_Actors = p, lresp_NextPageToken = t\<rparr>" by (cases resp)
    show ?case
    proof (cases "t = []")
      case True
      with 1 l resp pt have "y = (Inr (ids @ page_ids s p), w1)" by (simp add: list_request_def getter_defs Let_def)
      moreover have "serves ctl s tok w [p] w1" using l resp pt True by (auto intro: serves_last)
      ultimately show ?thesis using 1 by (intro exI [of _ "[p]"]) simp
    next
      case False
      with 1 l resp pt have "ll ctl s (ids @ page_ids s p) t w1 = Some y" by (simp add: list_request_def getter_defs Let_def)
      with 1 obtain ps where ps: "serves ctl s t w1 ps (snd y)" "ids' = (ids @ page_ids s p) @ concat (map (page_ids s) ps)" by blast
      have "serves ctl s tok w (p # ps) (snd y)" using l resp pt False ps(1) by (auto intro: serves_more)
      with ps(2) show ?thesis by (intro exI [of _ "p # ps"]) simp
    qed
  qed
  then show ?thesis by simp
qed

lemma sub_List_refines:
  assumes "control_ok acts env ctl" and "sub_List ctl s w = Some (Inr ids, w')"
  shows "list_spec (set ids) (sub_sandboxes acts s w) (sub_sandboxes acts s w')"
proof -
  obtain ps where ps: "serves ctl s [] w ps w'" "ids = concat (map (page_ids s) ps)"
    using list_loop_served [of ctl s "[]" "[]" w ids w'] assms(2) by (auto simp: sub_List_def)
  have "lists_ok acts ctl" using assms(1) by (simp add: control_ok_def)
  with ps(1) have l: "wane (acts w (actorTemplateNS s)) (acts w' (actorTemplateNS s))"
    "\<And>n t b. acts w' (actorTemplateNS s) n = Some (t, b) \<Longrightarrow>
      \<exists>p \<in> set ps. \<exists>a \<in> set p. ResourceMetadata_GetName (Actor_GetMetadata (Some a)) = n \<and> actor_template a = t"
    "\<And>p a. p \<in> set ps \<Longrightarrow> a \<in> set p \<Longrightarrow> \<exists>b.
      acts w (actorTemplateNS s) (ResourceMetadata_GetName (Actor_GetMetadata (Some a))) = Some (actor_template a, b)"
    unfolding lists_ok_def by blast+
  have m: "pid \<in> set ids \<longleftrightarrow> (\<exists>p \<in> set ps. \<exists>a \<in> set p. ResourceMetadata_GetName (Actor_GetMetadata (Some a)) = actorID pid \<and>
      actor_template a = (actorTemplateNS s, actorTemplateName s))" for pid
    unfolding ps(2) set_concat set_map by (auto simp: set_page_ids uses_template_def actor_template_def)
  show ?thesis
    unfolding sub_sandboxes_def
  proof (rule list_wane [OF l(1)])
    show "there (sandboxes_in UNIV actorID (\<lambda>t. t = (actorTemplateNS s, actorTemplateName s)) (acts w' (actorTemplateNS s))) \<subseteq> set ids"
    proof
      fix pid assume "pid \<in> there (sandboxes_in UNIV actorID (\<lambda>t. t = (actorTemplateNS s, actorTemplateName s)) (acts w' (actorTemplateNS s)))"
      then obtain b where "acts w' (actorTemplateNS s) (actorID pid) = Some ((actorTemplateNS s, actorTemplateName s), b)"
        by (auto simp: sandboxes_in_def)
      from l(2) [OF this] m show "pid \<in> set ids" by blast
    qed
    show "set ids \<subseteq> there (sandboxes_in UNIV actorID (\<lambda>t. t = (actorTemplateNS s, actorTemplateName s)) (acts w (actorTemplateNS s)))"
    proof
      fix pid assume "pid \<in> set ids"
      then obtain p a where "p \<in> set ps" "a \<in> set p" "ResourceMetadata_GetName (Actor_GetMetadata (Some a)) = actorID pid"
        "actor_template a = (actorTemplateNS s, actorTemplateName s)" using m by blast
      with l(3) [of p a] show "pid \<in> there (sandboxes_in UNIV actorID (\<lambda>t. t = (actorTemplateNS s, actorTemplateName s)) (acts w (actorTemplateNS s)))"
        by (auto simp: sandboxes_in_def)
    qed
  qed
qed

end
