(* ===== verification/Sandbox_Life.thy ===== *)
theory Sandbox_Life
  imports Cr_Store Substrate_Set Process_Life
begin

text \<open>
  Sessions and sandboxes, for all four backends: the operations of a
  backend on the set of ids that have a sandbox, and which sandboxes have a session after the start, after a
  round of the reaper and after a failed \<open>Ensure\<close>.  A sandbox without a session is an orphan: the reaper
  deletes only what it finds in the session map, so an orphan stays until a request of its id or the
  next start.
\<close>

section \<open>A backend and its sandboxes\<close>

text \<open>
  The call of \<open>Ensure\<close> through the interface; \<open>None\<close> if it never returns, which only the loops of the
  substrate backend can do.
\<close>

fun bk_Ensure ::
  "'w services \<Rightarrow> 'w k8s \<Rightarrow> ('w, string) poller \<Rightarrow> (json option \<Rightarrow> string) \<Rightarrow> backend_impl \<Rightarrow> string \<Rightarrow> 'w \<Rightarrow> (Endpoint result \<times> 'w) option" where
  "bk_Ensure sv cl poll fv (BkSandboxClaim s) pid w = Some (sc_Ensure (sv_un sv) (sv_dyn sv) poll s pid w)"
| "bk_Ensure sv cl poll fv (BkSubstrate s) pid w = sub_Ensure (sv_env sv) (sv_ctl sv) s pid w"
| "bk_Ensure sv cl poll fv (BkKars k) pid w = Some (kars_Ensure (sv_un sv) (sv_dyn sv) cl poll k pid w)"
| "bk_Ensure sv cl poll fv (BkIsola b) pid w = Some (isola_Ensure (sv_un sv) fv (sv_dyn sv) poll b pid w)"

text \<open>
  The ids in use must have distinct names.  For claims, KARS sandboxes and actors they may be all ids (for the
  first two, all but the empty one, which \<open>List\<close> skips); for isola they may be any ids without a collision
  of their names, for example those that fit into a name, or hashed ones.
\<close>

fun scope_ok :: "backend_impl \<Rightarrow> string set \<Rightarrow> bool" where
  "scope_ok (BkSandboxClaim s) D \<longleftrightarrow> [] \<notin> D"
| "scope_ok (BkKars k) D \<longleftrightarrow> [] \<notin> D"
| "scope_ok (BkIsola b) D \<longleftrightarrow> [] \<notin> D \<and> inj_on isolaName D"
| "scope_ok (BkSubstrate s) D \<longleftrightarrow> D = UNIV"

text \<open>The sandboxes of the ids in use, and that the objects of these ids are the proxy's.\<close>

fun sandboxes_of :: "('w \<Rightarrow> store) \<Rightarrow> ('w \<Rightarrow> actor_map) \<Rightarrow> unstructured \<Rightarrow> backend_impl \<Rightarrow> string set \<Rightarrow> 'w \<Rightarrow> sandboxes" where
  "sandboxes_of objs acts u (BkSandboxClaim s) D w =
     obj_sandboxes D claimName (obj_cells objs u sandboxClaimGVR (sc_namespace s) w)"
| "sandboxes_of objs acts u (BkKars k) D w = obj_sandboxes D karsName (obj_cells objs u karsSandboxGVR (kb_namespace k) w)"
| "sandboxes_of objs acts u (BkIsola b) D w = obj_sandboxes D isolaName (obj_cells objs u isolaSandboxGVR (ib_namespace b) w)"
| "sandboxes_of objs acts u (BkSubstrate s) D w = sub_sandboxes acts s w"

fun sandboxes_ours :: "('w \<Rightarrow> store) \<Rightarrow> unstructured \<Rightarrow> backend_impl \<Rightarrow> string set \<Rightarrow> 'w \<Rightarrow> bool" where
  "sandboxes_ours objs u (BkSandboxClaim s) D w \<longleftrightarrow>
     objs_owned (sc_labelKey s) D claimName (obj_cells objs u sandboxClaimGVR (sc_namespace s) w)"
| "sandboxes_ours objs u (BkKars k) D w \<longleftrightarrow>
     objs_owned (kb_labelKey k) D karsName (obj_cells objs u karsSandboxGVR (kb_namespace k) w)"
| "sandboxes_ours objs u (BkIsola b) D w \<longleftrightarrow>
     objs_owned (ib_labelKey b) D isolaName (obj_cells objs u isolaSandboxGVR (ib_namespace b) w)"
| "sandboxes_ours objs u (BkSubstrate s) D w \<longleftrightarrow> True"

text \<open>The service behind a backend does what its calls document.\<close>

fun service_ok :: "('w \<Rightarrow> store) \<Rightarrow> ('w \<Rightarrow> actor_map) \<Rightarrow> 'w services \<Rightarrow> backend_impl \<Rightarrow> bool" where
  "service_ok objs acts sv (BkSubstrate s) \<longleftrightarrow> control_ok acts (sv_env sv) (sv_ctl sv)"
| "service_ok objs acts sv _ \<longleftrightarrow> store_ok objs (sv_un sv) (sv_dyn sv) \<and> unstructured_ok (sv_un sv)"

text \<open>The label with the id is not the label that marks the objects of the proxy.\<close>

fun key_ok :: "backend_impl \<Rightarrow> bool" where
  "key_ok (BkSandboxClaim s) \<longleftrightarrow> sc_labelKey s \<noteq> managedByLabel"
| "key_ok (BkKars k) \<longleftrightarrow> kb_labelKey k \<noteq> managedByLabel"
| "key_ok (BkIsola b) \<longleftrightarrow> ib_labelKey b \<noteq> managedByLabel"
| "key_ok (BkSubstrate s) \<longleftrightarrow> True"

text \<open>The first step of \<open>Ensure\<close>; an actor of another template is no sandbox of the proxy.\<close>

fun gets_sandbox :: "'w services \<Rightarrow> backend_impl \<Rightarrow> string \<Rightarrow> 'w \<Rightarrow> bool" where
  "gets_sandbox sv (BkSandboxClaim s) pid w \<longleftrightarrow> fst (sc_getOrCreate (sv_dyn sv) s pid w) = None"
| "gets_sandbox sv (BkKars k) pid w \<longleftrightarrow> fst (kars_getOrCreate (sv_dyn sv) k pid w) = None"
| "gets_sandbox sv (BkIsola b) pid w \<longleftrightarrow> fst (isola_getOrCreate (sv_dyn sv) b pid w) = None"
| "gets_sandbox sv (BkSubstrate s) pid w \<longleftrightarrow>
     (case fst (sub_getOrCreate (sv_env sv) (sv_ctl sv) s (actorID pid) w) of
        Inl _ \<Rightarrow> False | Inr a \<Rightarrow> actor_template a = (actorTemplateNS s, actorTemplateName s))"

section \<open>The operations on the set of sandboxes\<close>

lemma bk_Ensure_gets:
  assumes "bk_Ensure sv cl poll fv bk pid w = Some (Inr ep, w')"
  shows "gets_sandbox sv bk pid w"
  using assms
  by (cases bk) (auto simp: sc_Ensure_def kars_Ensure_def isola_Ensure_def sub_Ensure_def actor_template_def Let_def
      split: option.splits prod.splits sum.splits if_splits)

lemma bk_Ensure_refines:
  assumes "service_ok objs acts sv bk" and "poll_quiet objs (sv_un sv) poll" and "k8s_quiet objs (sv_un sv) cl"
    and "key_ok bk" and "scope_ok bk D" and "sandboxes_ours objs (sv_un sv) bk D w" and "pid \<in> D"
    and "bk_Ensure sv cl poll fv bk pid w = Some (r, w')"
  shows "sandboxes_ours objs (sv_un sv) bk D w' \<and>
    ensure_spec pid (gets_sandbox sv bk pid w) (sandboxes_of objs acts (sv_un sv) bk D w) (sandboxes_of objs acts (sv_un sv) bk D w')"
proof (cases bk)
  case (BkSandboxClaim s)
  with assms(1,8) have e: "sc_Ensure (sv_un sv) (sv_dyn sv) poll s pid w = (r, w')"
    and ok: "store_ok objs (sv_un sv) (sv_dyn sv)" "unstructured_ok (sv_un sv)" by simp_all
  obtain x w1 where g: "sc_getOrCreate (sv_dyn sv) s pid w = (x, w1)" by fastforce
  note wane = sc_Ensure_wane [OF ok(1) assms(2) e, unfolded g snd_conv]
  show ?thesis using claim_store.ensure_refines [OF ok _ plain_names_inj(1) _ assms(7) g wane] assms(4,6) g BkSandboxClaim by simp
next
  case (BkKars k)
  with assms(1,8) have e: "kars_Ensure (sv_un sv) (sv_dyn sv) cl poll k pid w = (r, w')"
    and ok: "store_ok objs (sv_un sv) (sv_dyn sv)" "unstructured_ok (sv_un sv)" by simp_all
  obtain x w1 where g: "kars_getOrCreate (sv_dyn sv) k pid w = (x, w1)" by fastforce
  note wane = kars_Ensure_wane [OF ok(1) assms(2,3) e, unfolded g snd_conv]
  show ?thesis using kars_store.ensure_refines [OF ok _ plain_names_inj(2) _ assms(7) g wane] assms(4,6) g BkKars by simp
next
  case (BkIsola b)
  with assms(1,8) have e: "isola_Ensure (sv_un sv) fv (sv_dyn sv) poll b pid w = (r, w')"
    and ok: "store_ok objs (sv_un sv) (sv_dyn sv)" "unstructured_ok (sv_un sv)" by simp_all
  obtain x w1 where g: "isola_getOrCreate (sv_dyn sv) b pid w = (x, w1)" by fastforce
  note wane = isola_Ensure_wane [OF ok(1) assms(2) e, unfolded g snd_conv]
  show ?thesis using isola_store.ensure_refines [OF ok _ _ _ assms(7) g wane] assms(4-6) g BkIsola by simp
next
  case (BkSubstrate s)
  with assms(1,8) have e: "sub_Ensure (sv_env sv) (sv_ctl sv) s pid w = Some (r, w')"
    and ok: "control_ok acts (sv_env sv) (sv_ctl sv)" by simp_all
  obtain x w1 where g: "sub_getOrCreate (sv_env sv) (sv_ctl sv) s (actorID pid) w = (x, w1)" by fastforce
  show ?thesis using sub_Ensure_refines [OF ok e g, of "gets_sandbox sv bk pid w"] g BkSubstrate by (auto split: sum.splits)
qed

lemma bk_Delete_refines:
  assumes "service_ok objs acts sv bk" and "scope_ok bk D" and "sandboxes_ours objs (sv_un sv) bk D w" and "pid \<in> D"
    and "bk_Delete sv bk pid w = (r, w')"
  shows "sandboxes_ours objs (sv_un sv) bk D w' \<and>
    delete_spec pid (r = None) (sandboxes_of objs acts (sv_un sv) bk D w) (sandboxes_of objs acts (sv_un sv) bk D w')"
proof (cases bk)
  case (BkSandboxClaim s)
  with assms show ?thesis using claim_store.del_refines [OF _ plain_names_inj(1), of objs "sv_un sv" "sv_dyn sv" s D w pid r w'] by simp
next
  case (BkKars k)
  with assms show ?thesis using kars_store.del_refines [OF _ plain_names_inj(2), of objs "sv_un sv" "sv_dyn sv" k D w pid r w'] by simp
next
  case (BkIsola b)
  with assms show ?thesis using isola_store.del_refines [of objs "sv_un sv" "sv_dyn sv" D b w pid r w'] by simp
next
  case (BkSubstrate s)
  with assms show ?thesis using sub_Delete_refines [of acts "sv_env sv" "sv_ctl sv" s pid w r w'] by simp
qed

lemma bk_List_refines:
  assumes "service_ok objs acts sv bk" and "scope_ok bk D" and "sandboxes_ours objs (sv_un sv) bk D w"
    and "bk_List sv bk w = Some (Inr ids, w')"
  shows "sandboxes_ours objs (sv_un sv) bk D w' \<and>
    list_spec (set ids) (sandboxes_of objs acts (sv_un sv) bk D w) (sandboxes_of objs acts (sv_un sv) bk D w')"
proof (cases bk)
  case (BkSandboxClaim s)
  with assms show ?thesis using claim_store.lst_refines [OF _ plain_names_inj(1), of objs "sv_un sv" "sv_dyn sv" D s w ids w'] by simp
next
  case (BkKars k)
  with assms show ?thesis using kars_store.lst_refines [OF _ plain_names_inj(2), of objs "sv_un sv" "sv_dyn sv" D k w ids w'] by simp
next
  case (BkIsola b)
  with assms show ?thesis using isola_store.lst_refines [of objs "sv_un sv" "sv_dyn sv" D b w ids w'] by simp
next
  case (BkSubstrate s)
  with assms show ?thesis using sub_List_refines [of acts "sv_env sv" "sv_ctl sv" s w ids w'] by simp
qed

lemma sandboxes_of_scope: "scope_ok bk D \<Longrightarrow> there (sandboxes_of objs acts u bk D w) \<subseteq> D"
  by (cases bk) (simp_all add: obj_sandboxes_def sub_sandboxes_def in_scope)

lemma sandboxes_of_live: "live (sandboxes_of objs acts u bk D w) \<subseteq> there (sandboxes_of objs acts u bk D w)"
  by (cases bk) (simp_all add: obj_sandboxes_def sub_sandboxes_def live_there)

text \<open>
  C12.  Every backend is a set of sandboxes.  Assumed of the service: its calls do what \<open>store_ok\<close> or
  \<open>control_ok\<close> say (a deletion may only mark an object for finalizers, a call that fails may have taken
  effect, objects that are being deleted may vanish at any time), and nobody else creates or deletes a sandbox
  during the call.  Assumed of the setting: the ids in use have distinct names, objects that are marked as
  managed or have the name of such an id are the proxy's, with the id in the label, and the id label is not
  the marker.  Then \<open>Ensure\<close> takes no live sandbox away and adds at most that of its id, and if it succeeds,
  its id has a live sandbox, or had one that was being deleted when \<open>Ensure\<close> began; \<open>Delete\<close> touches at most the sandbox of
  its id, which is no longer live if it succeeds; \<open>List\<close> changes no live sandbox, returns every sandbox that is
  still there when it returns and none that was not there when it began.  All three keep the objects the
  proxy's.
\<close>

theorem backends_refine_sandbox_set:
  assumes "service_ok objs acts sv bk" and "poll_quiet objs (sv_un sv) poll" and "k8s_quiet objs (sv_un sv) cl"
    and "key_ok bk" and "scope_ok bk D" and "sandboxes_ours objs (sv_un sv) bk D w" and "pid \<in> D"
  shows "(\<forall>res w'. bk_Ensure sv cl poll fv bk pid w = Some (res, w') \<longrightarrow> sandboxes_ours objs (sv_un sv) bk D w' \<and>
      ensure_spec pid (\<exists>ep. res = Inr ep) (sandboxes_of objs acts (sv_un sv) bk D w) (sandboxes_of objs acts (sv_un sv) bk D w')) \<and>
    (\<forall>r w'. bk_Delete sv bk pid w = (r, w') \<longrightarrow> sandboxes_ours objs (sv_un sv) bk D w' \<and>
      delete_spec pid (r = None) (sandboxes_of objs acts (sv_un sv) bk D w) (sandboxes_of objs acts (sv_un sv) bk D w')) \<and>
    (\<forall>ids w'. bk_List sv bk w = Some (Inr ids, w') \<longrightarrow> sandboxes_ours objs (sv_un sv) bk D w' \<and>
      list_spec (set ids) (sandboxes_of objs acts (sv_un sv) bk D w) (sandboxes_of objs acts (sv_un sv) bk D w'))"
proof (intro conjI allI impI, goal_cases)
  case (1 res w')
  from bk_Ensure_refines [OF assms 1] show ?case by simp
next
  case (2 res w')
  have "gets_sandbox sv bk pid w" if "res = Inr ep" for ep by (rule bk_Ensure_gets [OF 2 [unfolded that]])
  then have "(\<exists>ep. res = Inr ep) \<longrightarrow> gets_sandbox sv bk pid w" by blast
  with bk_Ensure_refines [OF assms 2, THEN conjunct2] show ?case by (rule ensure_spec_weaken)
next
  case (3 r w')
  from bk_Delete_refines [OF assms(1,5-7) 3] show ?case by simp
next
  case (4 r w')
  from bk_Delete_refines [OF assms(1,5-7) 4] show ?case by simp
next
  case (5 ids w')
  from bk_List_refines [OF assms(1,5,6) 5] show ?case by simp
next
  case (6 ids w')
  from bk_List_refines [OF assms(1,5,6) 6] show ?case by simp
qed

section \<open>The reaper and orphans\<close>

text \<open>The ids whose deletion fails, of a list of deletions one after the other.\<close>

fun failed_deletes :: "(string \<Rightarrow> ('w, err option) io) \<Rightarrow> string list \<Rightarrow> 'w \<Rightarrow> string set" where
  "failed_deletes del [] w = {}"
| "failed_deletes del (pid # ids) w =
     (case del pid w of (r, w') \<Rightarrow> (if r = None then {} else {pid}) \<union> failed_deletes del ids w')"

lemma failed_deletes_subset: "failed_deletes del ids w \<subseteq> set ids"
  by (induction ids arbitrary: w) (auto split: prod.splits if_splits)

lemma deletes_refine:
  assumes "service_ok objs acts sv bk" and "scope_ok bk D"
  shows "set ids \<subseteq> D \<Longrightarrow> sandboxes_ours objs (sv_un sv) bk D w \<Longrightarrow>
    sandboxes_ours objs (sv_un sv) bk D (fold (\<lambda>pid w. snd (bk_Delete sv bk pid w)) ids w) \<and>
    live (sandboxes_of objs acts (sv_un sv) bk D w) - set ids \<subseteq>
      live (sandboxes_of objs acts (sv_un sv) bk D (fold (\<lambda>pid w. snd (bk_Delete sv bk pid w)) ids w)) \<and>
    live (sandboxes_of objs acts (sv_un sv) bk D (fold (\<lambda>pid w. snd (bk_Delete sv bk pid w)) ids w)) \<subseteq>
      live (sandboxes_of objs acts (sv_un sv) bk D w) - (set ids - failed_deletes (bk_Delete sv bk) ids w)"
proof (induction ids arbitrary: w)
  case (Cons pid ids)
  obtain r w1 where d: "bk_Delete sv bk pid w = (r, w1)" by fastforce
  have e: "sandboxes_ours objs (sv_un sv) bk D w1 \<and>
      delete_spec pid (r = None) (sandboxes_of objs acts (sv_un sv) bk D w) (sandboxes_of objs acts (sv_un sv) bk D w1)"
    using bk_Delete_refines [OF assms Cons.prems(2) _ d] Cons.prems(1) by simp
  with Cons.IH [of w1] Cons.prems(1) d show ?case by (cases r) (auto simp: delete_spec_def)
qed simp

lemma orphan_algebra:
  "S - V \<subseteq> S' \<Longrightarrow> S' \<subseteq> S - (V - F) \<Longrightarrow> M' = M - V \<Longrightarrow> V \<subseteq> M \<Longrightarrow>
    S - M \<subseteq> S' - M' \<and> S' - M' \<subseteq> (S - M) \<union> (S \<inter> F)"
  by blast

text \<open>
  C15.  What a round of the reaper does to the sandboxes in the cluster, under the assumptions of C12 and when
  nothing else happens during the round; sessions have ids in use, and the manager is in a reachable state.
  The live sandboxes of sessions that are not idle, and those without a session, stay.  Those of the idle
  sessions are no longer live afterwards, except possibly those whose deletion fails, of which some may be
  deleted all the same.  Exactly the idle sessions are dropped.  So the round leaves no new sandbox without a
  session but those whose deletion fails: no later round tries them again, because the session is dropped
  before the deletion is attempted.
\<close>

theorem reaper_orphans_only_failed_deletes:
  assumes "service_ok objs acts sv bk" and "scope_ok bk D" and "sandboxes_ours objs (sv_un sv) bk D w" and "mgr_reach ens m"
    and "distinct order" and "set order = dom (sessions m)" and "dom (sessions m) \<subseteq> D"
    and "reapOnce now now' order (bk_Delete sv bk) m w = (m', w')"
    and "L = live (sandboxes_of objs acts (sv_un sv) bk D w)" and "L' = live (sandboxes_of objs acts (sv_un sv) bk D w')"
    and "idle = {pid. doomed (now - idleTTL m) m pid}"
    and "bad = failed_deletes (bk_Delete sv bk) (filter (doomed (now - idleTTL m) m) order) w"
  shows "sandboxes_ours objs (sv_un sv) bk D w' \<and> L - idle \<subseteq> L' \<and> L' \<subseteq> L - (idle - bad) \<and>
    dom (sessions m') = dom (sessions m) - idle \<and>
    L - dom (sessions m) \<subseteq> L' - dom (sessions m') \<and> L' - dom (sessions m') \<subseteq> (L - dom (sessions m)) \<union> (L \<inter> bad)"
proof -
  let ?v = "filter (doomed (now - idleTTL m) m) order"
  have e: "w' = fold (\<lambda>pid w. snd (bk_Delete sv bk pid w)) ?v w" "sessions m' = sessions (reap_scan now order m)"
    using reapOnce_effect [OF assms(4-6), of now now' "bk_Delete sv bk" w] assms(8) by simp_all
  have v: "set ?v = idle" using assms(6) by (auto simp: assms(11) doomed_def)
  have "set ?v \<subseteq> D" using assms(6,7) by auto
  from deletes_refine [OF assms(1,2) this assms(3)]
  have ids: "sandboxes_ours objs (sv_un sv) bk D w'" "L - idle \<subseteq> L'" "L' \<subseteq> L - (idle - bad)"
    unfolding v by (simp_all add: e(1) assms(9,10,12))
  have dom: "dom (sessions m') = dom (sessions m) - idle"
    using reap_scan_effect(1) [OF assms(5,6), of now] e(2) by (auto simp: assms(11) split: if_splits)
  have "idle \<subseteq> dom (sessions m)" by (auto simp: assms(11) doomed_def)
  from orphan_algebra [OF ids(2,3) dom this] ids dom show ?thesis by (intro conjI) simp_all
qed

section \<open>Restart\<close>

lemma build_phase:
  assumes "build sv version commit now cfg bk w = Some (p, w1)" and "bk_List sv bk w = Some (Inr ids, w1)"
  shows "phase_of (pc_mgr p) pid = (if pid \<in> set ids then Resolving else Absent)"
proof -
  obtain mx where p: "pc_mgr p = reconcile_ids now ids (New_Manager (Backend cfg) (EnsureTimeout cfg) (IdleTTL cfg) mx)"
    using assms by (auto simp: build_def Let_def Reconcile_def)
  have "mgr_reach (\<lambda>_ _. True) (New_Manager (Backend cfg) (EnsureTimeout cfg) (IdleTTL cfg) mx)" by (rule mgr_reach.init)
  from phase_reconcile [OF reach_inv [OF this], of now ids pid] show ?thesis
    unfolding p by (simp add: phase_of_def New_Manager_def)
qed

text \<open>
  C16.  Sandboxes survive a restart of the proxy.  When the process starts and the listing of the sandboxes
  succeeds, under the assumptions of C12: every sandbox that is there when the listing returns, live or being
  deleted, has a session, which is being resolved; in particular every live sandbox has one, also one that was
  orphaned before.  No other id has a session, but possibly one whose sandbox was being deleted when the
  listing began and has vanished since.
\<close>

theorem restart_recovers_sessions:
  assumes "service_ok objs acts sv bk" and "scope_ok bk D" and "sandboxes_ours objs (sv_un sv) bk D w"
    and "build sv version commit now cfg bk w = Some (p, w1)" and "\<exists>ids. bk_List sv bk w = Some (Inr ids, w1)"
    and "S = sandboxes_of objs acts (sv_un sv) bk D w" and "S1 = sandboxes_of objs acts (sv_un sv) bk D w1"
  shows "live S1 = live S \<and> live S1 \<subseteq> there S1 \<and> phase_of (pc_mgr p) pid \<in> {Absent, Resolving} \<and>
    (pid \<in> there S1 \<longrightarrow> phase_of (pc_mgr p) pid = Resolving) \<and>
    (phase_of (pc_mgr p) pid = Resolving \<longrightarrow> pid \<in> there S1 \<or> pid \<in> dying S)"
proof -
  obtain ids where l: "bk_List sv bk w = Some (Inr ids, w1)" using assms(5) by blast
  have "list_spec (set ids) S S1" using bk_List_refines [OF assms(1-3) l] by (simp add: assms(6,7))
  moreover have "live S1 \<subseteq> there S1" unfolding assms(7) by (rule sandboxes_of_live)
  ultimately show ?thesis using build_phase [OF assms(4) l, of pid]
    by (auto simp: list_spec_def dying_def split: if_splits)
qed

section \<open>A failed Ensure\<close>

text \<open>
  When \<open>Ensure\<close> got or created the sandbox and fails later, for instance because it does not become ready
  in time, it leaves the sandbox; the session is published with the error and dropped by the next
  \<open>Get\<close>, and the sandbox is an orphan, unless it was being deleted anyway.
\<close>

theorem failed_Ensure_orphans_sandbox:
  assumes "service_ok objs acts sv bk" and "poll_quiet objs (sv_un sv) poll" and "k8s_quiet objs (sv_un sv) cl" and "key_ok bk"
    and "scope_ok bk D" and "sandboxes_ours objs (sv_un sv) bk D w" and "pid \<in> D"
    and "bk_Ensure sv cl poll fv bk pid w = Some (Inl e, w')" and "gets_sandbox sv bk pid w"
    and "sessions m pid = Some r" and "heap m r = Some sess" and "\<not> ready sess" and "resolve r t t' (Inl e) m = Some m1"
  shows "(pid \<in> live (sandboxes_of objs acts (sv_un sv) bk D w') \<or> pid \<in> dying (sandboxes_of objs acts (sv_un sv) bk D w)) \<and>
    fst (Get_ready pid r m1) = Inl e \<and> sessions (snd (Get_ready pid r m1)) pid = None"
proof -
  have "pid \<in> live (sandboxes_of objs acts (sv_un sv) bk D w') \<or> pid \<in> dying (sandboxes_of objs acts (sv_un sv) bk D w)"
    using bk_Ensure_refines [OF assms(1-8)] assms(9) by (simp add: ensure_spec_def)
  moreover obtain mx where "m1 = m\<lparr>mmetrics := mx, heap := (heap m)(r \<mapsto> publish (Inl e) sess), resolving := remove1 r (resolving m)\<rparr>"
    using resolve_effect [OF assms(11,12), of t t' "Inl e"] assms(13) by auto
  ultimately show ?thesis using assms(10) by (simp add: Get_ready_def publish_def)
qed

text \<open>
  \<open>Delete\<close> of the substrate backend does not look at the template.  \<open>Ensure\<close> refuses an actor of another
  template and asks to migrate or delete it explicitly, but the refused session, if no caller waits for it
  any more, stays in the map, is reaped when it has been idle, and the actor that was refused is deleted.
\<close>

theorem reaper_deletes_refused_actor:
  assumes "control_ok acts (sv_env sv) (sv_ctl sv)"
    and "acts w (actorTemplateNS s) (actorID pid) = Some (t, True)" and "t \<noteq> (actorTemplateNS s, actorTemplateName s)"
    and "mgr_reach ens m" and "sessions m pid = Some r" and "heap m r = Some sess" and "ready sess" and "serr sess = Some e"
    and "ActiveConns sess \<le> 0" and "LastActive sess \<le> now - idleTTL m" and "sessions m = [pid \<mapsto> r]"
    and "reapOnce now now' [pid] (bk_Delete sv (BkSubstrate s)) m w = (m', w')" and "fst (bk_Delete sv (BkSubstrate s) pid w) = None"
  shows "(\<forall>ep w1. sub_Ensure (sv_env sv) (sv_ctl sv) s pid w \<noteq> Some (Inr ep, w1)) \<and>
    (\<forall>t'. acts w' (actorTemplateNS s) (actorID pid) \<noteq> Some (t', True))"
proof -
  have "\<not> gets_sandbox sv (BkSubstrate s) pid w"
  proof -
    obtain x w1 where g: "sub_getOrCreate (sv_env sv) (sv_ctl sv) s (actorID pid) w = (x, w1)" by fastforce
    have "x = Inr a \<Longrightarrow> actor_template a = t" for a
      using sub_getOrCreate_existing [OF assms(1) g assms(2)] by simp
    with g assms(3) show ?thesis by (auto split: sum.splits)
  qed
  then have "\<forall>ep w1. sub_Ensure (sv_env sv) (sv_ctl sv) s pid w \<noteq> Some (Inr ep, w1)"
    using bk_Ensure_gets [of sv _ _ _ "BkSubstrate s" pid w] by auto
  moreover have "doomed (now - idleTTL m) m pid" using assms(5-7,9,10) by (auto simp: doomed_def reapable_def)
  then have "w' = snd (bk_Delete sv (BkSubstrate s) pid w)"
    using reapOnce_effect [OF assms(4), of "[pid]" now now' "bk_Delete sv (BkSubstrate s)" w] assms(11,12) by simp
  then have "marked (actorID pid) (acts w (actorTemplateNS s)) (acts w' (actorTemplateNS s))"
    using sub_Delete_acts(1) [OF assms(1), of s pid w None w'] assms(13) by (simp add: prod_eq_iff)
  ultimately show ?thesis by (simp add: marked_def wane_live) (simp add: mark_def map_option_case split: option.splits prod.splits)
qed

section \<open>Examples\<close>

text \<open>An API server that refuses every deletion.\<close>

definition stuck_dyn :: "store dyn" where
  "stuck_dyn = (store_dyn (\<lambda>_ _. []))\<lparr>ddelete := \<lambda>g ns n w. (Some (ErrStatus 500), w)\<rparr>"

lemma stuck_dyn_ok: "store_ok id std_unstructured stuck_dyn"
proof -
  have ops: "dget stuck_dyn = dget (store_dyn (\<lambda>_ _. []))" "dcreate stuck_dyn = dcreate (store_dyn (\<lambda>_ _. []))"
    "dlist stuck_dyn = dlist (store_dyn (\<lambda>_ _. []))" "ddelete stuck_dyn g ns n w = (Some (ErrStatus 500), w)" for g ns n w
    by (simp_all add: stuck_dyn_def)
  show ?thesis
    using store_dyn_gets [of "\<lambda>_ _. []"] store_dyn_creates [of "\<lambda>_ _. []"] store_dyn_lists [of "\<lambda>_ _. []"]
    unfolding store_ok_def store_gets_def store_creates_def store_lists_def store_deletes_def ops
    by (intro conjI) (assumption | simp add: isNotFound_def)+
qed

definition claim_services :: "store dyn \<Rightarrow> store services" where
  "claim_services dyn = \<lparr>sv_un = std_unstructured, sv_dyn = dyn, sv_env = idle_env, sv_ctl = idle_ctl\<rparr>"

lemma claim_services_simps [simp]: "sv_un (claim_services dyn) = std_unstructured" "sv_dyn (claim_services dyn) = dyn"
  by (simp_all add: claim_services_def)

definition idle_k8s :: "'w k8s" where
  "idle_k8s = \<lparr>npCreate = (\<lambda>ns p w. (Inl (ErrStatus 500), w)), npGet = (\<lambda>ns n w. (Inl (ErrStatus 500), w)),
     podList = (\<lambda>ns l w. (Inr [], w)), specEqual = (=)\<rparr>"

lemma idle_k8s_quiet: "k8s_quiet objs u idle_k8s"
  by (simp add: k8s_quiet_def idle_k8s_def)

definition one_claim :: "string \<Rightarrow> store" where
  "one_claim pid = put_obj sandboxClaimGVR (sc_namespace sc_example) (claimName pid)
     (Some (buildClaim sc_example (claimName pid) pid)) no_objects"

lemma no_claims: "no_objects sandboxClaimGVR (sc_namespace sc_example) = Map.empty"
  by (simp add: no_objects_def fun_eq_iff)

definition no_actors :: "'w \<Rightarrow> actor_map" where
  "no_actors w ns n = None"

lemma example_key: "key_ok (BkSandboxClaim sc_example)"
  by (simp add: sc_example_def NewSandboxClaim_def managedByLabel_def)

definition claims :: "string set \<Rightarrow> store \<Rightarrow> sandboxes" where
  "claims D w = sandboxes_of id no_actors std_unstructured (BkSandboxClaim sc_example) D w"

definition claims_ours :: "string set \<Rightarrow> store \<Rightarrow> bool" where
  "claims_ours D w \<longleftrightarrow> sandboxes_ours id std_unstructured (BkSandboxClaim sc_example) D w"

lemmas claims_fold = claims_def [symmetric] claims_ours_def [symmetric]

lemma no_claims_cells: "obj_cells id u sandboxClaimGVR (sc_namespace sc_example) no_objects = Map.empty"
  by (simp add: obj_cells_def no_claims fun_eq_iff)

lemma no_claims_ids: "claims D no_objects = \<lparr>live = {}, there = {}\<rparr>" "claims_ours D no_objects"
  by (simp_all add: claims_def claims_ours_def no_claims_cells obj_sandboxes_def sandboxes_in_def objs_owned_def)

lemma one_claim_cells:
  "obj_cells id std_unstructured sandboxClaimGVR (sc_namespace sc_example) (one_claim pid) =
     [claimName pid \<mapsto> (GetLabels std_unstructured (buildClaim sc_example (claimName pid) pid), True)]"
  by (simp add: one_claim_def put_cells no_claims_cells view_def not_deleted_def) (simp add: buildClaim_def)

lemma one_claim_ours: "pid \<in> D \<Longrightarrow> claims_ours D (one_claim pid)"
  and one_claim_ids: "pid \<in> D \<Longrightarrow> claims D (one_claim pid) = \<lparr>live = {pid}, there = {pid}\<rparr>"
proof -
  assume p: "pid \<in> D"
  have "own_labels (sc_labelKey sc_example) pid (GetLabels std_unstructured (buildClaim sc_example (claimName pid) pid))"
    using claim_store.built_own [OF std_unstructured_ok] example_key by simp
  with p show "claims_ours D (one_claim pid)" by (auto simp: claims_ours_def one_claim_cells objs_owned_def split: if_splits)
  show "claims D (one_claim pid) = \<lparr>live = {pid}, there = {pid}\<rparr>"
    using p by (auto simp: claims_def one_claim_cells obj_sandboxes_def sandboxes_in_def claimName_def split: if_splits)
qed

theorem backends_refine_sandbox_set_witness:
  "\<exists>w'. bk_Ensure (claim_services (store_dyn (\<lambda>_ _. []))) idle_k8s poll_once (\<lambda>_. []) (BkSandboxClaim sc_example) ''alpha'' no_objects =
      Some (Inr \<lparr>Host = ''10.0.0.5'', TargetActor = [], Port = 9222, MCPPort = 9223\<rparr>, w') \<and>
    live (claims {''alpha''} w') = {''alpha''}"
proof -
  let ?sv = "claim_services (store_dyn (\<lambda>_ _. []))" and ?bk = "BkSandboxClaim sc_example"
  obtain w' where e: "bk_Ensure ?sv idle_k8s poll_once (\<lambda>_. []) ?bk ''alpha'' no_objects =
     Some (Inr \<lparr>Host = ''10.0.0.5'', TargetActor = [], Port = 9222, MCPPort = 9223\<rparr>, w')"
    using claim_ready_after_create [of "\<lambda>_ _. []"] by auto
  have ok: "service_ok id no_actors ?sv ?bk" using store_dyn_ok std_unstructured_ok by simp
  have i: "scope_ok ?bk {''alpha''}" "''alpha'' \<in> {''alpha''}" by simp_all
  have ours: "sandboxes_ours id (sv_un ?sv) ?bk {''alpha''} no_objects"
    unfolding claim_services_simps claims_fold by (rule no_claims_ids)
  note t = backends_refine_sandbox_set [OF ok poll_once_quiet idle_k8s_quiet example_key i(1) ours i(2)]
  have "ensure_spec ''alpha'' True (claims {''alpha''} no_objects) (claims {''alpha''} w')"
    using conjunct2 [OF t [THEN conjunct1, rule_format, OF e]] unfolding claim_services_simps claims_fold by simp
  then have "live (claims {''alpha''} w') = {''alpha''}" unfolding no_claims_ids by (auto simp: ensure_spec_def dying_def)
  with e show ?thesis by blast
qed

theorem reaper_orphans_only_failed_deletes_witness:
  "let (m', w') = reapOnce 700 700 [''a''] (bk_Delete (claim_services stuck_dyn) (BkSandboxClaim sc_example))
       (one_session ep_example) (one_claim ''a'')
   in sessions m' = Map.empty \<and> live (claims {''a''} w') \<subseteq> {''a''} \<and>
     failed_deletes (bk_Delete (claim_services stuck_dyn) (BkSandboxClaim sc_example)) [''a''] (one_claim ''a'') = {''a''}"
proof -
  let ?bk = "BkSandboxClaim sc_example" and ?m = "one_session ep_example"
  let ?del = "bk_Delete (claim_services stuck_dyn) ?bk"
  obtain m' w' where r: "reapOnce 700 700 [''a''] ?del ?m (one_claim ''a'') = (m', w')" by fastforce
  have d: "set [''a''] = dom (sessions ?m)" and dist: "distinct [''a'']" by simp_all
  have scope: "scope_ok ?bk {''a''}" "dom (sessions ?m) \<subseteq> {''a''}" by simp_all
  have ours: "sandboxes_ours id (sv_un (claim_services stuck_dyn)) ?bk {''a''} (one_claim ''a'')"
    unfolding claim_services_simps claims_fold by (rule one_claim_ours) simp
  have i: "doomed (700 - idleTTL ?m) ?m q \<longleftrightarrow> q = ''a''" for q
    by (auto simp: doomed_def reapable_def one_session_cell_def ActiveConns_def LastActive_def)
  have "service_ok id no_actors (claim_services stuck_dyn) ?bk" using stuck_dyn_ok std_unstructured_ok by simp
  note t = reaper_orphans_only_failed_deletes [OF this scope(1) ours reach_one_session dist d scope(2) r refl refl refl refl]
  note t = t [unfolded claim_services_simps claims_fold one_claim_ids [OF singletonI] i sandboxes.select_convs]
  have "live (claims {''a''} w') \<subseteq> {''a''} - ({pid. pid = ''a''} - failed_deletes ?del (filter (\<lambda>q. q = ''a'') [''a'']) (one_claim ''a''))"
    using t i by (elim conjE) simp
  then have "live (claims {''a''} w') \<subseteq> {''a''}" by blast
  moreover have "dom (sessions m') = dom (sessions ?m) - {pid. pid = ''a''}" using t by (elim conjE)
  then have "sessions m' = Map.empty" by simp
  moreover have "failed_deletes ?del [''a''] (one_claim ''a'') = {''a''}"
    by (simp add: sc_Delete_def stuck_dyn_def isNotFound_def)
  ultimately show ?thesis using r by simp
qed

theorem restart_recovers_sessions_witness:
  "\<forall>cfg. \<exists>p w1. build (claim_services (store_dyn (\<lambda>_ _. [''pw-a'']))) ''dev'' ''none'' 0 cfg (BkSandboxClaim sc_example) (one_claim ''a'') =
      Some (p, w1) \<and> phase_of (pc_mgr p) ''a'' = Resolving \<and> phase_of (pc_mgr p) ''b'' = Absent"
proof
  fix cfg
  let ?sv = "claim_services (store_dyn (\<lambda>_ _. [''pw-a'']))" and ?bk = "BkSandboxClaim sc_example" and ?D = "{''a'', ''b''}"
  have "dom (one_claim ''a'' sandboxClaimGVR (sc_namespace sc_example)) \<subseteq> set [''pw-a'']"
    by (auto simp: one_claim_def no_objects_def claimName_def split: if_splits)
  then obtain ids w1 where l: "bk_List ?sv ?bk (one_claim ''a'') = Some (Inr ids, w1)"
    by (simp add: sc_List_def store_dyn_def)
  then obtain p where b: "build ?sv ''dev'' ''none'' 0 cfg ?bk (one_claim ''a'') = Some (p, w1)"
    by (simp add: build_def Let_def del: bk_List.simps)
  have ok: "service_ok id no_actors ?sv ?bk" "scope_ok ?bk ?D" "sandboxes_ours id (sv_un ?sv) ?bk ?D (one_claim ''a'')"
    using store_dyn_ok std_unstructured_ok one_claim_ours [of "''a''" ?D] by (simp_all add: claims_ours_def)
  have "\<exists>ids. bk_List ?sv ?bk (one_claim ''a'') = Some (Inr ids, w1)" using l by blast
  note t = restart_recovers_sessions [OF ok b this refl refl, unfolded claim_services_simps claims_fold]
  have s: "claims ?D (one_claim ''a'') = \<lparr>live = {''a''}, there = {''a''}\<rparr>" by (rule one_claim_ids) simp
  note li = bk_List_refines [OF ok l, unfolded claim_services_simps claims_fold, THEN conjunct2, unfolded list_spec_def s sandboxes.select_convs]
  have sub: "there (claims ?D w1) \<subseteq> {''a''}" using li by (blast dest: subset_trans)
  have "live (claims ?D w1) = {''a''}" using li by (elim conjE)
  moreover have "live (claims ?D w1) \<subseteq> there (claims ?D w1)" unfolding claims_def by (rule sandboxes_of_live)
  ultimately have "''a'' \<in> there (claims ?D w1)" by blast
  moreover have "''a'' \<in> there (claims ?D w1) \<longrightarrow> phase_of (pc_mgr p) ''a'' = Resolving" using t [of "''a''"] by (elim conjE)
  ultimately have "phase_of (pc_mgr p) ''a'' = Resolving" by (rule rev_mp)
  moreover have "''b'' \<notin> there (claims ?D w1)" using sub by fastforce
  then have "phase_of (pc_mgr p) ''b'' = Absent" using t [of "''b''"] unfolding s dying_def by fastforce
  ultimately show "\<exists>p w1. build ?sv ''dev'' ''none'' 0 cfg ?bk (one_claim ''a'') = Some (p, w1) \<and>
     phase_of (pc_mgr p) ''a'' = Resolving \<and> phase_of (pc_mgr p) ''b'' = Absent" using b by blast
qed

section \<open>Names that the API server refuses\<close>

text \<open>
  A playwright-id is a label value, which may contain upper-case letters and underscores; the names of
  claims and KARS sandboxes contain it as it is and are then no legal object names, so that no sandbox can
  be created, while isola replaces such an id by its hash.
\<close>

theorem claim_names_can_be_illegal:
  "\<not> isDNS1123 (claimName ''Team_A'') \<and> \<not> isDNS1123 (karsName ''Team_A'') \<and> isDNS1123 (isolaName ''Team_A'')"
proof -
  have "isDNS1123 (isolaName ''Team_A'')"
    using hash_name_fits(2) [of "''Team_A''"] by (simp add: isDNS1123_iff isolaName_cases fits_def) (simp add: dns_char_def)
  then show ?thesis by (simp add: claimName_def karsName_def isDNS1123_iff dns_char_def)
qed

end
