(* ===== verification/Orphans.thy ===== *)
theory Orphans
  imports Sandbox_Life
begin

text \<open>
  The session manager and its backend as one system: the critical sections of the manager interleaved with the
  calls of \<open>Ensure\<close> and \<open>Delete\<close> that the goroutines make between them, and with what others do to the
  sandboxes.  Which sandboxes can be orphans, without a session, and which sessions can be without a sandbox,
  in every reachable state.
\<close>

section \<open>The system\<close>

text \<open>
  The manager, the world of the backend, the answers of \<open>Ensure\<close> that \<open>resolve\<close> has not published yet, the
  answer of the \<open>Delete\<close> for the first victim, if the reaper has it already, and four sets of ids that
  record the history: those that a \<open>Refresh\<close> dropped and nobody asked for again, those for which \<open>Ensure\<close>
  or \<open>Delete\<close> has failed since the last successful \<open>Ensure\<close>, those whose sandbox has been deleted under
  their session since then, from outside or by the reaper on behalf of an older session, or was already being
  deleted when \<open>Ensure\<close> found it, and those whose sandbox others have created and nobody asked for since.
\<close>

record 'w system =
  s_mgr :: Manager
  s_world :: 'w
  answers :: "sref \<rightharpoonup> Endpoint result"
  deleting :: "err option option"
  refreshing :: "string set"
  failed :: "string set"
  pulled :: "string set"
  foreign :: "string set"

definition started :: "Manager \<Rightarrow> 'w \<Rightarrow> 'w system" where
  "started m w = \<lparr>s_mgr = m, s_world = w, answers = Map.empty, deleting = None,
     refreshing = {}, failed = {}, pulled = {}, foreign = {}\<rparr>"

text \<open>A newer session has taken the place of a victim.\<close>

definition superseded :: "sref \<Rightarrow> Session \<Rightarrow> Manager \<Rightarrow> bool" where
  "superseded r s m \<longleftrightarrow> (\<exists>r' s'. sessions m (sID s) = Some r' \<and> heap m r' = Some s' \<and> r < r')"

text \<open>
  The steps, for a backend with the operations \<open>ensure\<close> and \<open>del\<close> whose sandboxes in a world are \<open>boxes\<close>:
  \<open>Get\<close> up to its wait; an \<open>Ensure\<close> returns; \<open>resolve\<close> publishes its answer; the ready case of \<open>Get\<close>; the
  scan of the reaper; its \<open>Delete\<close> for the next victim returns; its bookkeeping after that; \<open>Refresh\<close> up to
  its \<open>Get\<close>; uses of a session; metrics;
  others create, change and delete sandboxes, without breaking \<open>ours\<close>.  A call of \<open>Ensure\<close> or \<open>Delete\<close> counts as
  one step, at the time it returns.
\<close>

inductive sys_step ::
  "(string \<Rightarrow> 'w \<Rightarrow> (Endpoint result \<times> 'w) option) \<Rightarrow>
   (string \<Rightarrow> ('w, err option) io) \<Rightarrow>
   ('w \<Rightarrow> sandboxes) \<Rightarrow> ('w \<Rightarrow> bool) \<Rightarrow> string set \<Rightarrow> 'w system \<Rightarrow> 'w system \<Rightarrow> bool"
  for ensure del boxes ours scope where
  entered: "pid \<in> scope \<Longrightarrow>
    sys_step ensure del boxes ours scope S
      (S\<lparr>s_mgr := snd (Get_enter c a pid (s_mgr S)), refreshing := refreshing S - {pid},
         foreign := foreign S - {pid}\<rparr>)"
| answered: "r \<in> set (resolving (s_mgr S)) \<Longrightarrow> heap (s_mgr S) r = Some s \<Longrightarrow> answers S r = None \<Longrightarrow>
    ensure (sID s) (s_world S) = Some (res, w') \<Longrightarrow>
    sys_step ensure del boxes ours scope S
      (S\<lparr>s_world := w', answers := (answers S)(r \<mapsto> res),
         pulled := (case res of
           Inl _ \<Rightarrow> pulled S
         | Inr _ \<Rightarrow>
             if sID s \<in> dying (boxes (s_world S)) \<and> sID s \<notin> live (boxes w') then insert (sID s) (pulled S)
             else pulled S - {sID s})\<rparr>)"
| published: "r \<in> set (resolving (s_mgr S)) \<Longrightarrow> heap (s_mgr S) r = Some s \<Longrightarrow> answers S r = Some res \<Longrightarrow>
    resolve r t t' res (s_mgr S) = Some m' \<Longrightarrow>
    sys_step ensure del boxes ours scope S
      (S\<lparr>s_mgr := m', failed := (case res of Inl _ \<Rightarrow> insert (sID s) (failed S) | Inr _ \<Rightarrow> failed S - {sID s})\<rparr>)"
| returned: "heap (s_mgr S) r = Some s \<Longrightarrow> ready s \<Longrightarrow>
    sys_step ensure del boxes ours scope S (S\<lparr>s_mgr := snd (Get_ready (sID s) r (s_mgr S))\<rparr>)"
| scanned: "victims (s_mgr S) = [] \<Longrightarrow> distinct order \<Longrightarrow> set order = dom (sessions (s_mgr S)) \<Longrightarrow>
    sys_step ensure del boxes ours scope S (S\<lparr>s_mgr := reap_scan now order (s_mgr S)\<rparr>)"
| torn_down: "victims (s_mgr S) = r # rs \<Longrightarrow> heap (s_mgr S) r = Some s \<Longrightarrow> deleting S = None \<Longrightarrow>
    del (sID s) (s_world S) = (res, w') \<Longrightarrow>
    sys_step ensure del boxes ours scope S
      (S\<lparr>s_world := w', deleting := Some res,
         pulled := pulled S \<union> (if superseded r s (s_mgr S) then live (boxes (s_world S)) - live (boxes w') else {})\<rparr>)"
| reaped: "victims (s_mgr S) = r # rs \<Longrightarrow> heap (s_mgr S) r = Some s \<Longrightarrow> deleting S = Some res \<Longrightarrow>
    sys_step ensure del boxes ours scope S
      (S\<lparr>s_mgr := reap_delete now res (s_mgr S), deleting := None,
         failed := (if res = None then failed S else insert (sID s) (failed S))\<rparr>)"
| refreshed: "heap (s_mgr S) r = Some s \<Longrightarrow> ready s \<Longrightarrow> serr s = None \<Longrightarrow>
    Refresh_enter t t' r (sID s) (s_mgr S) = (act, m') \<Longrightarrow>
    sys_step ensure del boxes ours scope S
      (S\<lparr>s_mgr := m', refreshing := (case act of ReturnCached _ \<Rightarrow> refreshing S | _ \<Rightarrow> insert (sID s) (refreshing S))\<rparr>)"
| used: "f \<in> {MarkActive now, ConnOpened now, ConnClosed now} \<Longrightarrow>
    sys_step ensure del boxes ours scope S (S\<lparr>s_mgr := upd_session r f (s_mgr S)\<rparr>)"
| counted: "sys_step ensure del boxes ours scope S (S\<lparr>s_mgr := (s_mgr S)\<lparr>mmetrics := mx\<rparr>\<rparr>)"
| outside: "ours w' \<Longrightarrow>
    sys_step ensure del boxes ours scope S
      (S\<lparr>s_world := w', pulled := pulled S \<union> (live (boxes (s_world S)) - live (boxes w')),
         foreign := foreign S \<union> (live (boxes w') - live (boxes (s_world S)))\<rparr>)"

inductive sys_reach ::
  "(string \<Rightarrow> 'w \<Rightarrow> (Endpoint result \<times> 'w) option) \<Rightarrow> (string \<Rightarrow> ('w, err option) io) \<Rightarrow>
   ('w \<Rightarrow> sandboxes) \<Rightarrow> ('w \<Rightarrow> bool) \<Rightarrow> string set \<Rightarrow> 'w system \<Rightarrow> 'w system \<Rightarrow> bool"
  for ensure del boxes ours scope where
  start: "sys_reach ensure del boxes ours scope S S"
| step: "sys_reach ensure del boxes ours scope S T \<Longrightarrow> sys_step ensure del boxes ours scope T U \<Longrightarrow>
    sys_reach ensure del boxes ours scope S U"

text \<open>The manager of the system only makes steps of \<open>Session\<close>, or none.\<close>

lemma sys_step_mgr:
  "sys_step ensure del boxes ours scope S T \<Longrightarrow>
    mgr_step (\<lambda>_ _. True) (s_mgr S) (s_mgr T) \<or> s_mgr T = s_mgr S"
proof (induction rule: sys_step.induct)
  case (refreshed S r s t t' act m')
  then have "mgr_step (\<lambda>_ _. True) (s_mgr S) (snd (Refresh_enter t t' r (sID s) (s_mgr S)))"
    by (intro mgr_step.refresh)
  with refreshed(4) show ?case by simp
qed (auto intro: mgr_step.intros)

section \<open>The invariant\<close>

text \<open>The ids of the victims whose sandboxes the reaper has not deleted yet.\<close>

definition owner_ids :: "Manager \<Rightarrow> sref list \<Rightarrow> string set" where
  "owner_ids m rs = (\<lambda>r. sID (the (heap m r))) ` set rs"

definition pending :: "'w system \<Rightarrow> string set" where
  "pending S = owner_ids (s_mgr S) (if deleting S = Some None then tl (victims (s_mgr S)) else victims (s_mgr S))"

text \<open>Every live sandbox has a session, or is about to get one or to be deleted, or something failed for its id,
  or others created it.\<close>

definition cover :: "'w system \<Rightarrow> string set" where
  "cover S = dom (sessions (s_mgr S)) \<union> pending S \<union> refreshing S \<union> failed S \<union> foreign S"

definition covered :: "('w \<Rightarrow> sandboxes) \<Rightarrow> 'w system \<Rightarrow> bool" where
  "covered boxes S \<longleftrightarrow> live (boxes (s_world S)) \<subseteq> cover S"

lemma covered_step:
  "covered boxes S \<Longrightarrow> cover S \<subseteq> cover T \<Longrightarrow> live (boxes (s_world T)) \<subseteq> live (boxes (s_world S)) \<union> cover T \<Longrightarrow> covered boxes T"
  unfolding covered_def by blast

text \<open>
  Every session that \<open>Get\<close> can return has a sandbox, unless that was deleted under it; so has a session whose
  \<open>Ensure\<close> has succeeded, although it is not published yet; a session with an error marks its id as failed.
\<close>

definition backed :: "('w \<Rightarrow> sandboxes) \<Rightarrow> 'w system \<Rightarrow> bool" where
  "backed boxes S \<longleftrightarrow> (\<forall>r s. heap (s_mgr S) r = Some s \<longrightarrow> sessions (s_mgr S) (sID s) = Some r \<longrightarrow>
     ready s \<longrightarrow> (if serr s = None then sID s \<in> live (boxes (s_world S)) \<union> pulled S else sID s \<in> failed S))"

definition answers_ok :: "('w \<Rightarrow> sandboxes) \<Rightarrow> 'w system \<Rightarrow> bool" where
  "answers_ok boxes S \<longleftrightarrow> dom (answers S) \<subseteq> dom (heap (s_mgr S)) \<and>
     (\<forall>r s ep. answers S r = Some (Inr ep) \<longrightarrow> heap (s_mgr S) r = Some s \<longrightarrow> \<not> ready s \<longrightarrow>
        sID s \<in> live (boxes (s_world S)) \<union> pulled S)"

lemma backedI:
  assumes "\<And>r s. \<lbrakk>heap (s_mgr S) r = Some s; sessions (s_mgr S) (sID s) = Some r; ready s; serr s = None\<rbrakk> \<Longrightarrow>
      sID s \<in> live (boxes (s_world S)) \<union> pulled S"
    and "\<And>r s. \<lbrakk>heap (s_mgr S) r = Some s; sessions (s_mgr S) (sID s) = Some r; ready s; serr s \<noteq> None\<rbrakk> \<Longrightarrow>
      sID s \<in> failed S"
  shows "backed boxes S"
  using assms unfolding backed_def by (intro allI impI) (simp split: if_split)

lemma backedD:
  assumes "backed boxes S" and "heap (s_mgr S) r = Some s" and "sessions (s_mgr S) (sID s) = Some r" and "ready s"
  shows "serr s = None \<Longrightarrow> sID s \<in> live (boxes (s_world S)) \<union> pulled S" and "serr s \<noteq> None \<Longrightarrow> sID s \<in> failed S"
  using assms unfolding backed_def by (metis (full_types))+

lemma answers_okI:
  assumes "dom (answers S) \<subseteq> dom (heap (s_mgr S))"
    and "\<And>r s ep. answers S r = Some (Inr ep) \<Longrightarrow> heap (s_mgr S) r = Some s \<Longrightarrow> \<not> ready s \<Longrightarrow>
      sID s \<in> live (boxes (s_world S)) \<union> pulled S"
  shows "answers_ok boxes S"
  using assms by (simp add: answers_ok_def)

lemma answers_okD:
  assumes "answers_ok boxes S"
  shows "dom (answers S) \<subseteq> dom (heap (s_mgr S))"
    and "answers S r = Some (Inr ep) \<Longrightarrow> heap (s_mgr S) r = Some s \<Longrightarrow> \<not> ready s \<Longrightarrow>
      sID s \<in> live (boxes (s_world S)) \<union> pulled S"
  using assms by (auto simp: answers_ok_def)

text \<open>Steps that leave the manager alone.\<close>

definition served :: "('w \<Rightarrow> sandboxes) \<Rightarrow> 'w system \<Rightarrow> string set" where
  "served boxes S = (live (boxes (s_world S)) \<union> pulled S) \<inter> dom (sessions (s_mgr S))"

lemma backed_world:
  assumes "backed boxes S" and "s_mgr T = s_mgr S" and "failed S \<subseteq> failed T" and "served boxes S \<subseteq> live (boxes (s_world T)) \<union> pulled T"
  shows "backed boxes T"
proof (rule backedI)
  fix r s
  assume s: "heap (s_mgr T) r = Some s" "sessions (s_mgr T) (sID s) = Some r" "ready s"
  note s = s [unfolded assms(2)] and b = backedD [OF assms(1) s [unfolded assms(2)]]
  show "sID s \<in> live (boxes (s_world T)) \<union> pulled T" if "serr s = None"
    using b(1) [OF that] s(2) assms(4) by (auto simp: served_def)
  show "sID s \<in> failed T" if "serr s \<noteq> None" using b(2) [OF that] assms(3) by (rule rev_subsetD)
qed

lemma answers_world:
  assumes "answers_ok boxes S" and "mgr_inv ens (s_mgr S)" and "s_mgr T = s_mgr S" and "dom (answers T) \<subseteq> dom (heap (s_mgr S))"
    and "\<And>r s ep. answers T r = Some (Inr ep) \<Longrightarrow> heap (s_mgr S) r = Some s \<Longrightarrow>
      answers S r = Some (Inr ep) \<or> sID s \<in> live (boxes (s_world T)) \<union> pulled T"
    and "served boxes S \<subseteq> live (boxes (s_world T)) \<union> pulled T"
  shows "answers_ok boxes T"
proof (rule answers_okI)
  show "sID s \<in> live (boxes (s_world T)) \<union> pulled T"
    if "answers T r = Some (Inr ep)" "heap (s_mgr T) r = Some s" "\<not> ready s" for r s ep
  proof -
    have h: "heap (s_mgr S) r = Some s" using that(2) by (simp add: assms(3))
    have "sID s \<in> dom (sessions (s_mgr S))" using inv_unready_current [OF assms(2) h that(3)] by blast
    with assms(5) [OF that(1) h] answers_okD(2) [OF assms(1) _ h that(3)] assms(6) show ?thesis
      unfolding served_def by blast
  qed
qed (use assms(3,4) in simp)

text \<open>The reaper took a victim out of the map, so a session of its id is a newer one.\<close>

definition victims_old :: "Manager \<Rightarrow> bool" where
  "victims_old m \<longleftrightarrow> (\<forall>r \<in> set (victims m). \<forall>s r'. heap m r = Some s \<longrightarrow> sessions m (sID s) = Some r' \<longrightarrow> r < r')"

definition scoped :: "string set \<Rightarrow> Manager \<Rightarrow> bool" where
  "scoped scope m \<longleftrightarrow> (\<forall>r s. heap m r = Some s \<longrightarrow> sID s \<in> scope)"

definition sys_inv :: "('w \<Rightarrow> sandboxes) \<Rightarrow> ('w \<Rightarrow> bool) \<Rightarrow> string set \<Rightarrow> 'w system \<Rightarrow> bool" where
  "sys_inv boxes ours scope S \<longleftrightarrow> mgr_inv (\<lambda>_ _. True) (s_mgr S) \<and> ours (s_world S) \<and> scoped scope (s_mgr S) \<and>
     (deleting S \<noteq> None \<longrightarrow> victims (s_mgr S) \<noteq> []) \<and> covered boxes S \<and> backed boxes S \<and> answers_ok boxes S \<and>
     victims_old (s_mgr S)"

lemma sys_invD:
  assumes "sys_inv boxes ours scope S"
  shows "mgr_inv (\<lambda>_ _. True) (s_mgr S)" "ours (s_world S)" "scoped scope (s_mgr S)"
    "deleting S \<noteq> None \<Longrightarrow> victims (s_mgr S) \<noteq> []" "covered boxes S" "backed boxes S" "answers_ok boxes S"
    "victims_old (s_mgr S)"
  using assms by (simp_all add: sys_inv_def)

section \<open>Steps of the manager alone\<close>

text \<open>
  The steps that neither publish an answer nor change the victims: sessions keep what is published of them,
  new ones are open, and an id loses its session only if it is being refreshed or has failed.
\<close>

definition mgr_move :: "string set \<Rightarrow> Manager \<Rightarrow> Manager \<Rightarrow> bool" where
  "mgr_move scope m m' \<longleftrightarrow> victims m' = victims m \<and>
     (\<forall>r s. heap m r = Some s \<longrightarrow> (\<exists>s'. heap m' r = Some s' \<and> sID s' = sID s \<and> ready s' = ready s \<and> serr s' = serr s)) \<and>
     (\<forall>r s'. heap m r = None \<longrightarrow> heap m' r = Some s' \<longrightarrow> \<not> ready s' \<and> sID s' \<in> scope) \<and>
     (\<forall>pid r. sessions m' pid = Some r \<longrightarrow> sessions m pid = Some r \<or> heap m r = None \<and> fresh m \<le> r)"

lemma mgr_move_heap:
  assumes "mgr_move scope m m'" and "heap m' r = Some s'"
  shows "(\<exists>s. heap m r = Some s \<and> sID s' = sID s \<and> ready s' = ready s \<and> serr s' = serr s) \<or>
    heap m r = None \<and> \<not> ready s' \<and> sID s' \<in> scope"
  using assms by (cases "heap m r") (fastforce simp: mgr_move_def)+

lemma mgr_move_owner:
  assumes "mgr_move scope m m'" and "\<forall>r \<in> set rs. heap m r \<noteq> None"
  shows "owner_ids m' rs = owner_ids m rs"
proof -
  have "sID (the (heap m' r)) = sID (the (heap m r))" if "r \<in> set rs" for r
    using assms that by (fastforce simp: mgr_move_def)
  then show ?thesis by (simp add: owner_ids_def)
qed

lemma victims_allocated: "mgr_inv ens m \<Longrightarrow> \<forall>r \<in> set (victims m). heap m r \<noteq> None"
  using inv_victims by fastforce

lemma set_tl_subset: "set (tl xs) \<subseteq> set xs"
  by (cases xs) auto

lemma mgr_move_pending:
  assumes "mgr_inv ens (s_mgr S)" and "mgr_move scope (s_mgr S) m'"
  shows "pending (S\<lparr>s_mgr := m', refreshing := rf, foreign := fo\<rparr>) = pending S"
proof -
  have v: "victims m' = victims (s_mgr S)" using assms(2) by (simp add: mgr_move_def)
  have "\<forall>r \<in> set (if deleting S = Some None then tl (victims (s_mgr S)) else victims (s_mgr S)). heap (s_mgr S) r \<noteq> None"
    using victims_allocated [OF assms(1)] set_tl_subset [of "victims (s_mgr S)"] by auto
  from mgr_move_owner [OF assms(2) this] v show ?thesis by (simp add: pending_def split: if_splits)
qed

lemma mgr_move_backed:
  assumes "backed boxes S" and mv: "mgr_move scope (s_mgr S) m'"
  shows "backed boxes (S\<lparr>s_mgr := m', refreshing := rf, foreign := fo\<rparr>)" (is "backed boxes ?T")
proof (rule backedI)
  fix r s'
  assume s': "heap (s_mgr ?T) r = Some s'" "sessions (s_mgr ?T) (sID s') = Some r" "ready s'"
  then obtain s where s: "heap (s_mgr S) r = Some s" "sID s' = sID s" "ready s" "serr s' = serr s"
    using mgr_move_heap [OF mv, of r s'] by auto
  moreover have "sessions (s_mgr S) (sID s') = Some r" using mv s(1) s'(2) unfolding mgr_move_def by fastforce
  ultimately show "serr s' = None \<Longrightarrow> sID s' \<in> live (boxes (s_world ?T)) \<union> pulled ?T"
    "serr s' \<noteq> None \<Longrightarrow> sID s' \<in> failed ?T"
    using backedD [OF assms(1) s(1) _ s(3)] by simp_all
qed

lemma mgr_move_answers:
  assumes "answers_ok boxes S" and mv: "mgr_move scope (s_mgr S) m'"
  shows "answers_ok boxes (S\<lparr>s_mgr := m', refreshing := rf, foreign := fo\<rparr>)" (is "answers_ok boxes ?T")
proof (rule answers_okI)
  have "dom (heap (s_mgr S)) \<subseteq> dom (heap m')" using mv unfolding mgr_move_def by fastforce
  then show "dom (answers ?T) \<subseteq> dom (heap (s_mgr ?T))" using answers_okD(1) [OF assms(1)] by simp
  show "sID s' \<in> live (boxes (s_world ?T)) \<union> pulled ?T"
    if "answers ?T r = Some (Inr ep)" "heap (s_mgr ?T) r = Some s'" "\<not> ready s'" for r s' ep
    using mgr_move_heap [OF mv, of r s'] answers_okD [OF assms(1)] that by fastforce
qed

lemma mgr_move_victims_old:
  assumes inv: "mgr_inv ens m" and "victims_old m" and mv: "mgr_move scope m m'"
  shows "victims_old m'"
  unfolding victims_old_def
proof (intro ballI allI impI)
  fix r s' r'
  assume v: "r \<in> set (victims m')" and r: "heap m' r = Some s'" "sessions m' (sID s') = Some r'"
  then have v: "r \<in> set (victims m)" using mv by (simp add: mgr_move_def)
  obtain s where s: "heap m r = Some s" "sID s' = sID s"
    using inv_victims [OF inv v] mgr_move_heap [OF mv r(1)] by auto
  have "r < fresh m" by (rule inv_fresh [OF inv s(1)])
  moreover have "sessions m (sID s) = Some r' \<or> fresh m \<le> r'"
    using mv r(2) unfolding mgr_move_def s(2) by blast
  moreover have "sessions m (sID s) = Some r' \<Longrightarrow> r < r'"
    using assms(2) v s(1) unfolding victims_old_def by blast
  ultimately show "r < r'" by auto
qed

lemma inv_mgr_move:
  assumes inv: "sys_inv boxes ours scope S" and m': "mgr_inv (\<lambda>_ _. True) m'" and mv: "mgr_move scope (s_mgr S) m'"
    and cov: "dom (sessions (s_mgr S)) \<union> refreshing S \<union> failed S \<union> foreign S \<subseteq> dom (sessions m') \<union> rf \<union> failed S \<union> fo"
  shows "sys_inv boxes ours scope (S\<lparr>s_mgr := m', refreshing := rf, foreign := fo\<rparr>)" (is "sys_inv boxes ours scope ?T")
proof -
  note i = sys_invD [OF inv]
  have "scoped scope m'" using i(3) mgr_move_heap [OF mv] unfolding scoped_def by metis
  moreover have "covered boxes ?T"
    using cov by (intro covered_step [OF i(5)]) (auto simp: cover_def mgr_move_pending [OF i(1) mv])
  moreover have "victims m' = victims (s_mgr S)" using mv by (simp add: mgr_move_def)
  ultimately show ?thesis
    using i(2,4) m' mgr_move_backed [OF i(6) mv] mgr_move_answers [OF i(7) mv] mgr_move_victims_old [OF i(1,8) mv]
    by (simp add: sys_inv_def)
qed

lemma move_Get_enter:
  "mgr_inv ens m \<Longrightarrow> pid \<in> scope \<Longrightarrow> mgr_move scope m (snd (Get_enter c a pid m))"
  using inv_fresh_None [of ens m] by (auto simp: mgr_move_def Get_enter_def start_session_def split: option.splits)

lemma dom_Get_enter: "dom (sessions (snd (Get_enter c a pid m))) = insert pid (dom (sessions m))"
  by (auto simp: Get_enter_def start_session_def split: option.splits)

lemma move_Get_ready: "mgr_move scope m (snd (Get_ready pid r m))"
  by (auto simp: mgr_move_def Get_ready_def split: option.splits)

lemma move_Refresh_enter: "mgr_move scope m (snd (Refresh_enter t t' r pid m))"
  by (auto simp: mgr_move_def Refresh_enter_def Let_def split: option.splits)

lemma move_upd_session:
  "f \<in> {MarkActive now, ConnOpened now, ConnClosed now} \<Longrightarrow> mgr_move scope m (upd_session r f m)"
  by (auto simp: mgr_move_def upd_session_def MarkActive_def ConnOpened_def ConnClosed_def split: option.splits)

lemma reap_delete_effect:
  "victims m = r # rs \<Longrightarrow> heap m r = Some s \<Longrightarrow> \<exists>mx. reap_delete now res m = m\<lparr>victims := rs, mmetrics := mx\<rparr>"
  by (cases res) (auto simp: reap_delete_def Let_def intro: exI [of _ "mmetrics m"])

section \<open>The reaper as a run of the system\<close>

lemma sys_reach_trans:
  "sys_reach ensure del boxes ours scope T U \<Longrightarrow> sys_reach ensure del boxes ours scope S T \<Longrightarrow>
    sys_reach ensure del boxes ours scope S U"
  by (induction rule: sys_reach.induct) (auto intro: sys_reach.step)

text \<open>A round of the reaper, as the code runs it, is a run of the system.\<close>

lemma victim_deleted:
  assumes "victims (s_mgr S) = r # rs" and "heap (s_mgr S) r = Some s" and "deleting S = None"
    and "del (sID s) (s_world S) = (res, w')"
  shows "\<exists>T. sys_reach ensure del boxes ours scope S T \<and> s_mgr T = reap_delete now res (s_mgr S) \<and>
    s_world T = w' \<and> deleting T = None"
proof -
  define U where "U = S\<lparr>s_world := w', deleting := Some res,
    pulled := pulled S \<union> (if superseded r s (s_mgr S) then live (boxes (s_world S)) - live (boxes w') else {})\<rparr>"
  define T where "T = U\<lparr>s_mgr := reap_delete now res (s_mgr U), deleting := None,
    failed := (if res = None then failed U else insert (sID s) (failed U))\<rparr>"
  have "sys_step ensure del boxes ours scope S U" unfolding U_def by (rule sys_step.torn_down) (fact assms)+
  moreover have "sys_step ensure del boxes ours scope U T"
    unfolding T_def by (rule sys_step.reaped [where r = r and rs = rs and s = s]) (simp_all add: U_def assms)
  ultimately have "sys_reach ensure del boxes ours scope S T"
    by (rule sys_reach.step [OF sys_reach.step [OF sys_reach.start]])
  then show ?thesis by (intro exI [of _ T]) (simp add: T_def U_def)
qed

lemma reap_deletes_run:
  "n = length (victims (s_mgr S)) \<Longrightarrow> \<forall>r \<in> set (victims (s_mgr S)). heap (s_mgr S) r \<noteq> None \<Longrightarrow> deleting S = None \<Longrightarrow>
    \<exists>T. sys_reach ensure del boxes ours scope S T \<and> deleting T = None \<and>
      (s_mgr T, s_world T) = reap_deletes now del n (s_mgr S) (s_world S)"
proof (induction n arbitrary: S)
  case 0
  then show ?case by (intro exI [of _ S]) (simp add: sys_reach.start)
next
  case (Suc n)
  then obtain r rs where v: "victims (s_mgr S) = r # rs" by (cases "victims (s_mgr S)") auto
  with Suc.prems obtain s where s: "heap (s_mgr S) r = Some s" by auto
  obtain res w' where d: "del (sID s) (s_world S) = (res, w')" by fastforce
  obtain T where t: "sys_reach ensure del boxes ours scope S T" "s_mgr T = reap_delete now res (s_mgr S)" "s_world T = w'" "deleting T = None"
    using victim_deleted [where del = del and res = res and w' = w' and s = s, OF v s Suc.prems(3)] d by blast
  have "victims (s_mgr T) = rs" "heap (s_mgr T) = heap (s_mgr S)"
    using reap_delete_effect [OF v s, of now res] t(2) by auto
  with Suc.IH [of T] Suc.prems v t(4) obtain U where
    "sys_reach ensure del boxes ours scope T U" "deleting U = None" "(s_mgr U, s_world U) = reap_deletes now del n (s_mgr T) (s_world T)"
    by auto
  with t v s d show ?case by (intro exI [of _ U]) (auto intro: sys_reach_trans)
qed

lemma reapOnce_run:
  assumes "mgr_inv ens (s_mgr S)" and "victims (s_mgr S) = []" and "deleting S = None"
    and "distinct order" and "set order = dom (sessions (s_mgr S))"
  shows "\<exists>T. sys_reach ensure del boxes ours scope S T \<and>
    (s_mgr T, s_world T) = reapOnce now now' order del (s_mgr S) (s_world S)"
proof -
  let ?S = "S\<lparr>s_mgr := reap_scan now order (s_mgr S)\<rparr>"
  have "sys_reach ensure del boxes ours scope S ?S"
    by (rule sys_reach.step [OF sys_reach.start sys_step.scanned [OF assms(2,4,5)]])
  moreover have "\<forall>r \<in> set (victims (s_mgr ?S)). heap (s_mgr ?S) r \<noteq> None"
    using victims_allocated [OF inv_reap_scan [OF assms(1)]] by simp
  ultimately show ?thesis
    using reap_deletes_run [of "length (victims (s_mgr ?S))" ?S ensure del boxes ours scope now'] assms(3)
    by (auto simp: reapOnce_def Let_def intro: sys_reach_trans)
qed

section \<open>A backend that is a set of sandboxes\<close>

text \<open>
  What the manager relies on: \<open>Ensure\<close> and \<open>Delete\<close> implement the abstract operations on sets of sandboxes.
  The parameter \<open>c\<close> is the deployment.
\<close>

locale sandbox_service =
  fixes ok :: "'c \<Rightarrow> bool"
    and ensure :: "'c \<Rightarrow> string \<Rightarrow> 'w \<Rightarrow> (Endpoint result \<times> 'w) option"
    and del :: "'c \<Rightarrow> string \<Rightarrow> 'w \<Rightarrow> err option \<times> 'w"
    and boxes :: "'c \<Rightarrow> 'w \<Rightarrow> sandboxes"
    and ours :: "'c \<Rightarrow> 'w \<Rightarrow> bool"
    and scope :: "'c \<Rightarrow> string set"
  assumes ensure_law: "\<lbrakk>ok c; ours c w; pid \<in> scope c; ensure c pid w = Some (res, w')\<rbrakk> \<Longrightarrow>
      ours c w' \<and> ensure_spec pid (\<exists>ep. res = Inr ep) (boxes c w) (boxes c w')"
    and del_law: "\<lbrakk>ok c; ours c w; pid \<in> scope c; del c pid w = (r, w')\<rbrakk> \<Longrightarrow>
      ours c w' \<and> delete_spec pid (r = None) (boxes c w) (boxes c w')"
begin

abbreviation "steps c \<equiv> sys_step (ensure c) (del c) (boxes c) (ours c) (scope c)"
abbreviation "good c \<equiv> sys_inv (boxes c) (ours c) (scope c)"

lemma inv_answered:
  assumes "ok c" and inv: "good c S"
    and r: "r \<in> set (resolving (s_mgr S))" "heap (s_mgr S) r = Some s" "answers S r = None"
    and e: "ensure c (sID s) (s_world S) = Some (res, w')"
  shows "good c (S\<lparr>s_world := w', answers := (answers S)(r \<mapsto> res),
     pulled := (case res of
         Inl _ \<Rightarrow> pulled S
       | Inr _ \<Rightarrow>
           if sID s \<in> dying (boxes c (s_world S)) \<and> sID s \<notin> live (boxes c w') then insert (sID s) (pulled S)
           else pulled S - {sID s})\<rparr>)"
    (is "good c ?T")
proof -
  note i = sys_invD [OF inv]
  have "sID s \<in> scope c" using i(3) r(2) by (simp add: scoped_def)
  note law = ensure_law [OF assms(1) i(2) this e, unfolded ensure_spec_def]
  obtain "\<not> ready s" using inv_resolving [OF i(1) r(1)] r(2) by auto
  then have cur: "sessions (s_mgr S) (sID s) = Some r" by (rule inv_unready_current [OF i(1) r(2)])
  have p: "served (boxes c) S \<subseteq> live (boxes c (s_world ?T)) \<union> pulled ?T"
    using law by (auto simp: served_def split: sum.splits)
  have "cover S \<subseteq> cover ?T" "sID s \<in> cover ?T" using cur by (auto simp: cover_def pending_def)
  moreover have w: "s_world ?T = w'" by simp
  ultimately have "covered (boxes c) ?T" using law by (intro covered_step [OF i(5)]) (assumption, unfold w, blast)
  moreover have "backed (boxes c) ?T"
    by (rule backed_world [OF i(6)]) (use p in simp_all)
  moreover have "answers_ok (boxes c) ?T"
    by (rule answers_world [OF i(7,1)]) (use p law r(2) answers_okD(1) [OF i(7)] in \<open>auto split: if_splits\<close>)
  ultimately show ?thesis using i law by (simp add: sys_inv_def)
qed

lemma inv_published:
  assumes inv: "good c S"
    and r: "r \<in> set (resolving (s_mgr S))" "heap (s_mgr S) r = Some s" "answers S r = Some res"
    and m': "resolve r t t' res (s_mgr S) = Some m'"
  shows "good c (S\<lparr>s_mgr := m', failed := (case res of Inl _ \<Rightarrow> insert (sID s) (failed S) | Inr _ \<Rightarrow> failed S - {sID s})\<rparr>)"
    (is "good c ?T")
proof -
  note i = sys_invD [OF inv]
  have u: "\<not> ready s" using inv_resolving [OF i(1) r(1)] r(2) by auto
  then have cur: "sessions (s_mgr S) (sID s) = Some r" by (rule inv_unready_current [OF i(1) r(2)])
  have n: "serr s = None" using inv_heap [OF i(1) r(2)] u by (simp add: session_ok_def)
  obtain mx where m: "m' = (s_mgr S)\<lparr>mmetrics := mx, heap := (heap (s_mgr S))(r \<mapsto> publish res s),
      resolving := remove1 r (resolving (s_mgr S))\<rparr>"
    using resolve_effect [OF r(2) u, of t t' res] m' by auto
  have inv': "mgr_inv (\<lambda>_ _. True) m'" by (rule inv_resolve [OF i(1) r(1,2) _ m']) simp
  have o: "owner_ids m' rs = owner_ids (s_mgr S) rs" for rs
    unfolding owner_ids_def using r(2) by (intro image_cong) (simp_all add: m)
  have "pending ?T = pending S" by (simp add: pending_def o) (simp add: m)
  then have "cover S \<subseteq> cover ?T" using cur by (auto simp: cover_def m split: sum.splits)
  then have "covered (boxes c) ?T" by (intro covered_step [OF i(5)]) auto
  moreover have "backed (boxes c) ?T"
    by (rule backedI) (use backedD [OF i(6)] answers_okD(2) [OF i(7) _ r(2) u] r cur n in
      \<open>auto simp: m publish_def split: sum.splits if_splits\<close>)
  moreover have "answers_ok (boxes c) ?T"
    by (rule answers_okI) (use r(2) answers_okD [OF i(7)] in \<open>auto simp: m split: if_splits\<close>)
  moreover have "scoped (scope c) m'" using i(3) r(2) by (auto simp: scoped_def m)
  moreover have "victims_old m'" using i(8) r(2) by (auto simp: victims_old_def m)
  ultimately show ?thesis using i(2,4) inv' by (simp add: sys_inv_def m)
qed

lemma inv_scanned:
  assumes inv: "good c S"
    and o: "victims (s_mgr S) = []" "distinct order" "set order = dom (sessions (s_mgr S))"
  shows "good c (S\<lparr>s_mgr := reap_scan now order (s_mgr S)\<rparr>)" (is "good c ?T")
proof -
  note i = sys_invD [OF inv] and e = reap_scan_effect [OF o(2,3), of now]
  let ?d = "doomed (now - idleTTL (s_mgr S)) (s_mgr S)"
  have h: "heap (reap_scan now order (s_mgr S)) = heap (s_mgr S)" by (rule heap_reap_scan)
  have "deleting S = None" using i(4) o(1) by (cases "deleting S") simp_all
  moreover have "sID (the (heap (s_mgr S) (the (sessions (s_mgr S) pid)))) = pid" if "?d pid" for pid
    using that inv_sessions [OF i(1), of pid] by (auto simp: doomed_def)
  ultimately have "pending ?T = {pid. ?d pid}"
    using o(3) by (force simp: pending_def owner_ids_def h e(3) doomed_def)
  then have "cover S \<subseteq> cover ?T"
    using \<open>deleting S = None\<close> o(1) by (auto simp: cover_def pending_def owner_ids_def e(1))
  then have "covered (boxes c) ?T" by (intro covered_step [OF i(5)]) auto
  moreover have "backed (boxes c) ?T"
    by (rule backedI) (use backedD [OF i(6)] in \<open>auto simp: h e(1) split: if_splits\<close>)
  moreover have "answers_ok (boxes c) ?T"
    by (rule answers_okI) (use answers_okD [OF i(7)] in \<open>auto simp: h\<close>)
  moreover have "victims_old (reap_scan now order (s_mgr S))"
    using inv_sessions [OF i(1)] by (fastforce simp: victims_old_def h e(1,3) doomed_def split: if_splits)
  moreover have "mgr_inv (\<lambda>_ _. True) (reap_scan now order (s_mgr S))" using i(1) by (rule inv_reap_scan)
  ultimately show ?thesis using i(2,3) \<open>deleting S = None\<close> by (simp add: sys_inv_def scoped_def h)
qed

lemma inv_torn_down:
  assumes "ok c" and inv: "good c S"
    and v: "victims (s_mgr S) = r # rs" "heap (s_mgr S) r = Some s" "deleting S = None"
    and d: "del c (sID s) (s_world S) = (res, w')"
  shows "good c (S\<lparr>s_world := w', deleting := Some res,
     pulled := pulled S \<union> (if superseded r s (s_mgr S) then live (boxes c (s_world S)) - live (boxes c w') else {})\<rparr>)" (is "good c ?T")
proof -
  note i = sys_invD [OF inv]
  have "sID s \<in> scope c" using i(3) v(2) by (simp add: scoped_def)
  note law = del_law [OF assms(1) i(2) this d, unfolded delete_spec_def]
  have "sID s \<in> dom (sessions (s_mgr S)) \<Longrightarrow> superseded r s (s_mgr S)"
    using i(8) v(1,2) inv_sessions [OF i(1)] by (fastforce simp: victims_old_def superseded_def)
  then have p: "served (boxes c) S \<subseteq> live (boxes c (s_world ?T)) \<union> pulled ?T" using law by (auto simp: served_def)
  have cov: "cover S \<subseteq> insert (sID s) (cover ?T)" "res \<noteq> None \<Longrightarrow> cover S \<subseteq> cover ?T"
    using v by (auto simp: cover_def pending_def owner_ids_def)
  have w: "s_world ?T = w'" by simp
  have "covered (boxes c) ?T" unfolding covered_def w
    using law i(5) cov unfolding covered_def by (cases "res = None") blast+
  moreover have "backed (boxes c) ?T" by (rule backed_world [OF i(6)]) (use p in simp_all)
  moreover have "answers_ok (boxes c) ?T"
    by (rule answers_world [OF i(7,1)]) (use p answers_okD(1) [OF i(7)] in simp_all)
  ultimately show ?thesis using i law v(1) by (simp add: sys_inv_def)
qed

lemma inv_reaped:
  assumes inv: "good c S"
    and v: "victims (s_mgr S) = r # rs" "heap (s_mgr S) r = Some s" "deleting S = Some res"
  shows "good c (S\<lparr>s_mgr := reap_delete now res (s_mgr S), deleting := None,
         failed := (if res = None then failed S else insert (sID s) (failed S))\<rparr>)" (is "good c ?T")
proof -
  note i = sys_invD [OF inv]
  obtain mx where m: "reap_delete now res (s_mgr S) = (s_mgr S)\<lparr>victims := rs, mmetrics := mx\<rparr>"
    using reap_delete_effect [OF v(1,2)] by blast
  have "cover S \<subseteq> cover ?T" using v by (auto simp: cover_def pending_def owner_ids_def m)
  then have "covered (boxes c) ?T" by (intro covered_step [OF i(5)]) auto
  moreover have "backed (boxes c) ?T"
    by (rule backedI) (use backedD [OF i(6)] in \<open>auto simp: m\<close>)
  moreover have "answers_ok (boxes c) ?T"
    by (rule answers_okI) (use answers_okD [OF i(7)] in \<open>auto simp: m\<close>)
  moreover have "victims_old (reap_delete now res (s_mgr S))" using i(8) v(1) by (simp add: victims_old_def m)
  moreover have "mgr_inv (\<lambda>_ _. True) (reap_delete now res (s_mgr S))" using i(1) by (rule inv_reap_delete)
  ultimately show ?thesis using i(2,3) by (simp add: sys_inv_def scoped_def m)
qed

lemma inv_outside:
  assumes inv: "good c S" and "ours c w'"
  shows "good c (S\<lparr>s_world := w', pulled := pulled S \<union> (live (boxes c (s_world S)) - live (boxes c w')),
    foreign := foreign S \<union> (live (boxes c w') - live (boxes c (s_world S)))\<rparr>)" (is "good c ?T")
proof -
  note i = sys_invD [OF inv]
  have "covered (boxes c) ?T" using i(5) by (auto simp: covered_def cover_def pending_def)
  moreover have "backed (boxes c) ?T" by (rule backed_world [OF i(6)]) (auto simp: served_def)
  moreover have "answers_ok (boxes c) ?T"
    by (rule answers_world [OF i(7,1)]) (use answers_okD(1) [OF i(7)] in \<open>auto simp: served_def\<close>)
  ultimately show ?thesis using i assms(2) by (simp add: sys_inv_def)
qed

lemma good_step: "\<lbrakk>steps c S T; ok c; good c S\<rbrakk> \<Longrightarrow> good c T"
proof (induction rule: sys_step.induct)
  case (entered pid S c1 a)
  note i = sys_invD [OF entered.prems(2)]
  show ?case
    by (rule inv_mgr_move [OF entered.prems(2) inv_Get_enter [OF i(1)] move_Get_enter [OF i(1) entered.hyps]])
      (auto simp: dom_Get_enter)
next
  case (returned S r s)
  note i = sys_invD [OF returned.prems(2)]
  have "dom (sessions (s_mgr S)) \<subseteq> dom (sessions (snd (Get_ready (sID s) r (s_mgr S)))) \<union> failed S"
    using backedD(2) [OF i(6) returned.hyps(1) _ returned.hyps(2)] returned.hyps(1) by (auto simp: Get_ready_def split: option.splits)
  then have "good c (S\<lparr>s_mgr := snd (Get_ready (sID s) r (s_mgr S)), refreshing := refreshing S, foreign := foreign S\<rparr>)"
    by (intro inv_mgr_move [OF returned.prems(2) inv_Get_ready [OF i(1) returned.hyps] move_Get_ready]) auto
  then show ?case by simp
next
  case (refreshed S r s t t' act m')
  note i = sys_invD [OF refreshed.prems(2)]
  have m: "mgr_inv (\<lambda>_ _. True) m'" "mgr_move (scope c) (s_mgr S) m'"
    using inv_Refresh_enter [OF i(1) refreshed.hyps(1,2), of t t'] move_Refresh_enter [of "scope c" "s_mgr S" t t' r "sID s"] refreshed.hyps(4)
    by simp_all
  have "dom (sessions (s_mgr S)) \<subseteq> dom (sessions m') \<union> (case act of ReturnCached _ \<Rightarrow> refreshing S | _ \<Rightarrow> insert (sID s) (refreshing S))"
    using refreshed.hyps(4) by (auto simp: Refresh_enter_def Let_def split: if_splits option.splits)
  then have "good c (S\<lparr>s_mgr := m', refreshing := (case act of ReturnCached _ \<Rightarrow> refreshing S | _ \<Rightarrow> insert (sID s) (refreshing S)),
      foreign := foreign S\<rparr>)"
    by (intro inv_mgr_move [OF refreshed.prems(2) m]) (auto split: refresh_action.splits)
  then show ?case by simp
next
  case (used f now S r)
  note i = sys_invD [OF used.prems(2)]
  have "mgr_inv (\<lambda>_ _. True) (upd_session r f (s_mgr S))"
    using used.hyps i(1) by (auto intro: inv_active inv_opened inv_closed)
  moreover have "sessions (upd_session r f (s_mgr S)) = sessions (s_mgr S)" by (simp add: upd_session_def split: option.splits)
  ultimately have "good c (S\<lparr>s_mgr := upd_session r f (s_mgr S), refreshing := refreshing S, foreign := foreign S\<rparr>)"
    using move_upd_session [OF used.hyps] by (intro inv_mgr_move [OF used.prems(2)]) auto
  then show ?case by simp
next
  case (counted S mx)
  note i = sys_invD [OF counted.prems(2)]
  have "good c (S\<lparr>s_mgr := (s_mgr S)\<lparr>mmetrics := mx\<rparr>, refreshing := refreshing S, foreign := foreign S\<rparr>)"
    by (rule inv_mgr_move [OF counted.prems(2) inv_metrics [OF i(1)]]) (auto simp: mgr_move_def)
  then show ?case by simp
next
  case (outside w' S)
  then show ?case by (intro inv_outside) auto
next
  case (answered r S s res w')
  show ?case by (rule inv_answered [OF answered.prems answered.hyps])
next
  case (torn_down S r rs s res w')
  show ?case by (rule inv_torn_down [OF torn_down.prems torn_down.hyps])
next
  case (reaped S r rs s res now)
  show ?case by (rule inv_reaped [OF reaped.prems(2) reaped.hyps])
qed (auto intro: inv_published inv_scanned)

lemma good_reach: "\<lbrakk>sys_reach (ensure c) (del c) (boxes c) (ours c) (scope c) S T; ok c; good c S\<rbrakk> \<Longrightarrow> good c T"
  by (induction rule: sys_reach.induct) (auto intro: good_step)

text \<open>A process that has just listed its sandboxes: each has a session, all are being resolved.\<close>

lemma good_started:
  assumes "mgr_inv (\<lambda>_ _. True) m" and "ours c w" and "live (boxes c w) \<subseteq> dom (sessions m)" and "victims m = []"
    and "\<And>r s. heap m r = Some s \<Longrightarrow> \<not> ready s \<and> sID s \<in> scope c"
  shows "good c (started m w)"
  using assms by (auto simp: sys_inv_def started_def scoped_def covered_def cover_def answers_ok_def backed_def victims_old_def)

end

section \<open>The proxy and its backends\<close>

text \<open>
  A deployment: the backend with the services it calls, how its sandboxes are seen in the world, and the ids
  in use.
\<close>

record 'w deployment =
  d_objs :: "'w \<Rightarrow> store"
  d_acts :: "'w \<Rightarrow> actor_map"
  d_sv :: "'w services"
  d_cl :: "'w k8s"
  d_poll :: "('w, string) poller"
  d_fv :: "json option \<Rightarrow> string"
  d_bk :: backend_impl
  d_scope :: "string set"

definition deployment_ok :: "'w deployment \<Rightarrow> bool" where
  "deployment_ok d \<longleftrightarrow> service_ok (d_objs d) (d_acts d) (d_sv d) (d_bk d) \<and>
     poll_quiet (d_objs d) (sv_un (d_sv d)) (d_poll d) \<and> k8s_quiet (d_objs d) (sv_un (d_sv d)) (d_cl d) \<and>
     key_ok (d_bk d) \<and> scope_ok (d_bk d) (d_scope d)"

definition dep_ensure :: "'w deployment \<Rightarrow> string \<Rightarrow> 'w \<Rightarrow> (Endpoint result \<times> 'w) option" where
  "dep_ensure d = bk_Ensure (d_sv d) (d_cl d) (d_poll d) (d_fv d) (d_bk d)"

definition dep_delete :: "'w deployment \<Rightarrow> string \<Rightarrow> ('w, err option) io" where
  "dep_delete d = bk_Delete (d_sv d) (d_bk d)"

definition dep_boxes :: "'w deployment \<Rightarrow> 'w \<Rightarrow> sandboxes" where
  "dep_boxes d = sandboxes_of (d_objs d) (d_acts d) (sv_un (d_sv d)) (d_bk d) (d_scope d)"

definition dep_ours :: "'w deployment \<Rightarrow> 'w \<Rightarrow> bool" where
  "dep_ours d = sandboxes_ours (d_objs d) (sv_un (d_sv d)) (d_bk d) (d_scope d)"

definition dep_reach :: "'w deployment \<Rightarrow> 'w system \<Rightarrow> 'w system \<Rightarrow> bool" where
  "dep_reach d = sys_reach (dep_ensure d) (dep_delete d) (dep_boxes d) (dep_ours d) (d_scope d)"

lemma deployment_okD:
  assumes "deployment_ok d"
  shows "service_ok (d_objs d) (d_acts d) (d_sv d) (d_bk d)" "poll_quiet (d_objs d) (sv_un (d_sv d)) (d_poll d)"
    "k8s_quiet (d_objs d) (sv_un (d_sv d)) (d_cl d)" "key_ok (d_bk d)" "scope_ok (d_bk d) (d_scope d)"
  using assms by (simp_all add: deployment_ok_def)

interpretation dep: sandbox_service deployment_ok dep_ensure dep_delete dep_boxes dep_ours d_scope
proof
  fix d :: "'w deployment" and w pid res w'
  assume d: "deployment_ok d" and o: "dep_ours d w" "pid \<in> d_scope d" and e: "dep_ensure d pid w = Some (res, w')"
  note e = e [unfolded dep_ensure_def]
  note law = bk_Ensure_refines [OF deployment_okD [OF d] o [unfolded dep_ours_def] e]
  have "gets_sandbox (d_sv d) (d_bk d) pid w" if "res = Inr ep" for ep by (rule bk_Ensure_gets [OF e [unfolded that]])
  then have "(\<exists>ep. res = Inr ep) \<longrightarrow> gets_sandbox (d_sv d) (d_bk d) pid w" by blast
  with law show "dep_ours d w' \<and> ensure_spec pid (\<exists>ep. res = Inr ep) (dep_boxes d w) (dep_boxes d w')"
    unfolding dep_ours_def dep_boxes_def by (blast intro: ensure_spec_weaken)
next
  fix d :: "'w deployment" and w pid r w'
  assume d: "deployment_ok d" and o: "dep_ours d w" "pid \<in> d_scope d" and e: "dep_delete d pid w = (r, w')"
  show "dep_ours d w' \<and> delete_spec pid (r = None) (dep_boxes d w) (dep_boxes d w')"
    using bk_Delete_refines [OF deployment_okD(1,5) [OF d] o [unfolded dep_ours_def] e [unfolded dep_delete_def]]
    unfolding dep_ours_def dep_boxes_def .
qed

lemma reconcile_ids_fresh:
  "heap (reconcile_ids now ids m) r = Some s \<Longrightarrow> heap m r = Some s \<or> \<not> ready s \<and> sID s \<in> set ids"
  by (induction ids arbitrary: m) (fastforce simp: start_session_def split: option.splits if_splits)+

lemma reconcile_ids_victims: "victims (reconcile_ids now ids m) = victims m"
  by (induction ids arbitrary: m) (simp_all add: start_session_def split: option.splits)

lemma build_started:
  assumes d: "deployment_ok d" and o: "dep_ours d w"
    and b: "build (d_sv d) version commit now cfg (d_bk d) w = Some (p, w1)"
    and l: "bk_List (d_sv d) (d_bk d) w = Some (Inr ids, w1)"
  shows "dep.good d (started (pc_mgr p) w1)"
proof -
  obtain mx where p: "pc_mgr p = reconcile_ids now ids (New_Manager (Backend cfg) (EnsureTimeout cfg) (IdleTTL cfg) mx)"
    using b l by (auto simp: build_def Let_def Reconcile_def)
  note li = bk_List_refines [OF deployment_okD(1,5) [OF d] o [unfolded dep_ours_def] l, folded dep_boxes_def, unfolded list_spec_def]
  have dom: "set ids \<subseteq> dom (sessions (pc_mgr p))"
  proof
    fix pid assume "pid \<in> set ids"
    with build_phase [OF b l, of pid] have "phase_of (pc_mgr p) pid = Resolving" by simp
    then show "pid \<in> dom (sessions (pc_mgr p))" by (cases "sessions (pc_mgr p) pid") (simp_all add: phase_of_def domIff)
  qed
  show ?thesis
  proof (rule dep.good_started)
    show "mgr_inv (\<lambda>_ _. True) (pc_mgr p)" unfolding p by (intro inv_intros)
    show "dep_ours d w1" using li by (simp add: dep_ours_def)
    have "live (dep_boxes d w1) \<subseteq> there (dep_boxes d w1)" unfolding dep_boxes_def by (rule sandboxes_of_live)
    with dom li show "live (dep_boxes d w1) \<subseteq> dom (sessions (pc_mgr p))" by blast
    show "victims (pc_mgr p) = []" by (simp add: p reconcile_ids_victims New_Manager_def)
    have "there (dep_boxes d w) \<subseteq> d_scope d"
      unfolding dep_boxes_def by (rule sandboxes_of_scope [OF deployment_okD(5) [OF d]])
    with li have "set ids \<subseteq> d_scope d" by blast
    moreover have "\<not> ready s \<and> sID s \<in> set ids" if "heap (pc_mgr p) r = Some s" for r s
      using reconcile_ids_fresh [OF that [unfolded p]] by (simp add: New_Manager_def)
    ultimately show "\<not> ready s \<and> sID s \<in> d_scope d" if "heap (pc_mgr p) r = Some s" for r s
      using that by blast
  qed
qed

lemma dep_inv:
  assumes "deployment_ok d" and "dep_ours d w" and "build (d_sv d) version commit now cfg (d_bk d) w = Some (p, w1)"
    and "\<exists>ids. bk_List (d_sv d) (d_bk d) w = Some (Inr ids, w1)" and "dep_reach d (started (pc_mgr p) w1) S"
  shows "dep.good d S"
proof -
  obtain ids where "bk_List (d_sv d) (d_bk d) w = Some (Inr ids, w1)" using assms(4) by blast
  from build_started [OF assms(1-3) this] show ?thesis
    using dep.good_reach [OF assms(5) [unfolded dep_reach_def] assms(1)] by blast
qed

text \<open>
  C13.  No sandbox is orphaned silently.  Assumed: the service and the setting are as in C12 (calls do what
  their contracts say, ids in use with distinct names, objects that are marked or named as the proxy's are
  the proxy's); the process started with a listing that succeeded; requests ask for ids in use; an \<open>Ensure\<close> or
  \<open>Delete\<close> takes effect as one step.  Then, whatever the goroutines of clients, of \<open>resolve\<close> and of the
  reaper do in any order, and whatever others create and delete, every live sandbox of the cluster (one that is not
  being deleted) has a session, or its session was reaped and its \<open>Delete\<close> is still to come, or \<open>Refresh\<close> has
  just dropped its session and is about to call \<open>Get\<close>; the only other ids with a live sandbox are those for
  which an \<open>Ensure\<close> or a \<open>Delete\<close> has failed since the last \<open>Ensure\<close> that succeeded, and those whose sandbox
  others created while the proxy was running and nobody asked for since.
\<close>

theorem no_silent_orphans:
  assumes "deployment_ok d" and "dep_ours d w" and "build (d_sv d) version commit now cfg (d_bk d) w = Some (p, w1)"
    and "\<exists>ids. bk_List (d_sv d) (d_bk d) w = Some (Inr ids, w1)" and "dep_reach d (started (pc_mgr p) w1) S"
    and "pid \<in> live (dep_boxes d (s_world S))"
  shows "sessions (s_mgr S) pid \<noteq> None \<or> pid \<in> pending S \<or> pid \<in> refreshing S \<or> pid \<in> failed S \<or> pid \<in> foreign S"
  using sys_invD(5) [OF dep_inv [OF assms(1-5)]] assms(6) by (auto simp: covered_def cover_def)

text \<open>
  C14.  A session is served from a live sandbox.  In the same system and under the same assumptions, a session
  that \<open>Get\<close> would return, resolved and without an error, has a live sandbox in the cluster.  The only exceptions
  are the ids whose sandbox, since the last \<open>Ensure\<close> that succeeded and found or made a live one, was deleted from outside, or by
  the reaper on behalf of an older session of the id (the race of the reaper with a new session), or was
  already being deleted when \<open>Ensure\<close> found it.
\<close>

theorem sessions_have_sandboxes:
  assumes "deployment_ok d" and "dep_ours d w" and "build (d_sv d) version commit now cfg (d_bk d) w = Some (p, w1)"
    and "\<exists>ids. bk_List (d_sv d) (d_bk d) w = Some (Inr ids, w1)" and "dep_reach d (started (pc_mgr p) w1) S"
    and "sessions (s_mgr S) pid = Some r" and "Get_ready pid r (s_mgr S) = (Inr r', m')"
    and "\<exists>s. heap (s_mgr S) r = Some s \<and> ready s"
  shows "pid \<in> live (dep_boxes d (s_world S)) \<or> pid \<in> pulled S"
proof -
  note i = sys_invD [OF dep_inv [OF assms(1-5)]]
  obtain s where s: "heap (s_mgr S) r = Some s" "ready s" using assms(8) by blast
  then have "serr s = None" using assms(7) by (auto simp: Get_ready_def split: option.splits)
  moreover have "sID s = pid" using inv_sessions [OF i(1) assms(6)] s(1) by simp
  ultimately show ?thesis using backedD(1) [OF i(6) s(1) _ s(2)] assms(6) by simp
qed

text \<open>
  When nothing is in flight, nothing has failed and nobody else created or deleted a sandbox, the live
  sandboxes in the cluster are exactly the sessions of the manager.
\<close>

corollary sessions_are_sandboxes:
  assumes "deployment_ok d" and "dep_ours d w" and "build (d_sv d) version commit now cfg (d_bk d) w = Some (p, w1)"
    and "\<exists>ids. bk_List (d_sv d) (d_bk d) w = Some (Inr ids, w1)" and "dep_reach d (started (pc_mgr p) w1) S"
    and "resolving (s_mgr S) = []" "victims (s_mgr S) = []" "refreshing S = {}" "failed S = {}" "pulled S = {}" "foreign S = {}"
  shows "dom (sessions (s_mgr S)) = live (dep_boxes d (s_world S))"
proof
  note i = sys_invD [OF dep_inv [OF assms(1-5)]]
  have "pending S = {}" using assms(7) by (simp add: pending_def owner_ids_def)
  then show "live (dep_boxes d (s_world S)) \<subseteq> dom (sessions (s_mgr S))"
    using i(5) assms(8,9,11) by (simp add: covered_def cover_def)
  show "dom (sessions (s_mgr S)) \<subseteq> live (dep_boxes d (s_world S))"
  proof
    fix pid assume "pid \<in> dom (sessions (s_mgr S))"
    then obtain r where r: "sessions (s_mgr S) pid = Some r" by blast
    from inv_sessions [OF i(1) r] obtain s where s: "heap (s_mgr S) r = Some s" "sID s = pid" by blast
    then have "ready s" using inv_heap [OF i(1)] assms(6) by (fastforce simp: session_ok_def)
    with backedD [OF i(6) s(1)] r s(2) assms(9,10) show "pid \<in> live (dep_boxes d (s_world S))" by auto
  qed
qed

section \<open>Examples\<close>

text \<open>
  The SandboxClaim backend on an API server without objects: the process starts, a client asks for \<open>alpha\<close>,
  \<open>Ensure\<close> creates the claim, and the session is published.
\<close>

definition claim_deployment :: "store deployment" where
  "claim_deployment = \<lparr>d_objs = id, d_acts = no_actors, d_sv = claim_services (store_dyn (\<lambda>_ _. [])), d_cl = idle_k8s,
     d_poll = poll_once, d_fv = (\<lambda>_. []), d_bk = BkSandboxClaim sc_example, d_scope = {''alpha''}\<rparr>"

lemma claim_deployment_simps [simp]:
  "d_sv claim_deployment = claim_services (store_dyn (\<lambda>_ _. []))" "d_bk claim_deployment = BkSandboxClaim sc_example"
  "d_scope claim_deployment = {''alpha''}"
  by (simp_all add: claim_deployment_def)

lemma claim_deployment_boxes: "dep_boxes claim_deployment = claims {''alpha''}" "dep_ours claim_deployment = claims_ours {''alpha''}"
  by (simp_all add: dep_boxes_def dep_ours_def claims_def [abs_def] claims_ours_def [abs_def] fun_eq_iff claim_deployment_def del: sandboxes_of.simps sandboxes_ours.simps)

lemma claim_deployment_ok: "deployment_ok claim_deployment" "dep_ours claim_deployment no_objects"
proof -
  show "deployment_ok claim_deployment"
    using store_dyn_ok std_unstructured_ok example_key
    by (simp add: poll_once_quiet idle_k8s_quiet deployment_ok_def claim_deployment_def)
  show "dep_ours claim_deployment no_objects" unfolding claim_deployment_boxes by (rule no_claims_ids)
qed

lemma claim_ensured:
  obtains w where "dep_ensure claim_deployment ''alpha'' no_objects =
      Some (Inr \<lparr>Host = ''10.0.0.5'', TargetActor = [], Port = 9222, MCPPort = 9223\<rparr>, w)"
    and "live (dep_boxes claim_deployment w) = {''alpha''}"
proof -
  obtain w where e: "dep_ensure claim_deployment ''alpha'' no_objects =
      Some (Inr \<lparr>Host = ''10.0.0.5'', TargetActor = [], Port = 9222, MCPPort = 9223\<rparr>, w)"
    using claim_ready_after_create [of "\<lambda>_ _. []"] by (auto simp: dep_ensure_def claim_deployment_def)
  have "''alpha'' \<in> d_scope claim_deployment" by simp
  from dep.ensure_law [OF claim_deployment_ok this e] have "live (dep_boxes claim_deployment w) = {''alpha''}"
    unfolding claim_deployment_boxes no_claims_ids by (auto simp: ensure_spec_def dying_def)
  with e show thesis by (rule that)
qed

lemma claim_start:
  "bk_List (claim_services (store_dyn (\<lambda>_ _. []))) (BkSandboxClaim sc_example) no_objects = Some (Inr [], no_objects)"
  by (simp add: sc_List_def store_dyn_def no_claims)

definition example_system :: "Manager \<Rightarrow> store \<Rightarrow> Manager \<Rightarrow> store system" where
  "example_system m w m' = (started m no_objects)\<lparr>s_mgr := m', s_world := w,
     answers := [0 \<mapsto> Inr \<lparr>Host = ''10.0.0.5'', TargetActor = [], Port = 9222, MCPPort = 9223\<rparr>]\<rparr>"

lemma claim_run:
  assumes "m = New_Manager kind timeout ttl mx"
  obtains w m' where "dep_reach claim_deployment (started m no_objects) (example_system m w m')"
    and "sessions m' = [''alpha'' \<mapsto> 0]" "victims m' = []" and "live (dep_boxes claim_deployment w) = {''alpha''}"
    and "\<exists>s. heap m' 0 = Some s \<and> ready s" and "Get_ready ''alpha'' 0 m' = (Inr 0, m')"
proof -
  let ?ep = "\<lparr>Host = ''10.0.0.5'', TargetActor = [], Port = 9222, MCPPort = 9223\<rparr>"
  let ?step = "sys_step (dep_ensure claim_deployment) (dep_delete claim_deployment)
    (dep_boxes claim_deployment) (dep_ours claim_deployment) {''alpha''}"
  define m1 where "m1 = snd (Get_enter 0 0 ''alpha'' m)"
  have m1: "heap m1 0 = Some \<lparr>sID = ''alpha'', sEndpoint = zero_Endpoint, created = 0, lastActive = 0,
      activeConn = 0, ready = False, serr = None\<rparr>" "resolving m1 = [0]" "sessions m1 = [''alpha'' \<mapsto> 0]"
    by (simp_all add: m1_def assms mgr_eval)
  have v: "victims m1 = []" by (simp add: m1_def assms mgr_eval)
  obtain m' where m': "resolve 0 0 0 (Inr ?ep) m1 = Some m'" using resolve_effect [OF m1(1)] by fastforce
  with resolve_effect [OF m1(1), of 0 0 "Inr ?ep"] obtain mx' where
    eq: "m' = m1\<lparr>mmetrics := mx', heap := (heap m1)(0 \<mapsto> publish (Inr ?ep) (the (heap m1 0))), resolving := remove1 0 (resolving m1)\<rparr>"
    by (auto simp: m1)
  obtain w where w: "dep_ensure claim_deployment ''alpha'' no_objects = Some (Inr ?ep, w)" "live (dep_boxes claim_deployment w) = {''alpha''}"
    by (rule claim_ensured)
  define S1 where "S1 = (started m no_objects)\<lparr>s_mgr := m1\<rparr>"
  define S2 where "S2 = S1\<lparr>s_world := w, answers := [0 \<mapsto> Inr ?ep]\<rparr>"
  have "?step (started m no_objects) S1"
    using sys_step.entered [of "''alpha''" "{''alpha''}" _ _ _ _ "started m no_objects" 0 0]
    by (simp add: S1_def m1_def started_def)
  moreover have "?step S1 S2"
    using sys_step.answered [of 0 S1 _ "dep_ensure claim_deployment" "Inr ?ep" w "dep_delete claim_deployment"
        "dep_boxes claim_deployment" "dep_ours claim_deployment" "{''alpha''}"] m1 w
    by (simp add: S1_def S2_def started_def)
  moreover have "?step S2 (example_system m w m')"
    using sys_step.published [of 0 S2 _ "Inr ?ep" 0 0 m'] m1 m'
    by (simp add: S1_def S2_def started_def example_system_def)
  ultimately have "dep_reach claim_deployment (started m no_objects) (example_system m w m')"
    unfolding dep_reach_def claim_deployment_simps
    by (intro sys_reach.step [OF sys_reach.step [OF sys_reach.step [OF sys_reach.start]]])
  then show thesis
  proof (rule that)
    show "sessions m' = [''alpha'' \<mapsto> 0]" "victims m' = []" "\<exists>s. heap m' 0 = Some s \<and> ready s" by (simp_all add: eq m1 v)
    show "Get_ready ''alpha'' 0 m' = (Inr 0, m')" by (simp add: eq m1 Get_ready_def publish_def)
  qed (rule w(2))
qed

lemma claim_start_run:
  obtains p w m' where "build (d_sv claim_deployment) ''dev'' ''none'' 0 cfg (d_bk claim_deployment) no_objects = Some (p, no_objects)"
    and "dep_reach claim_deployment (started (pc_mgr p) no_objects) (example_system (pc_mgr p) w m')"
    and "sessions m' = [''alpha'' \<mapsto> 0]" "victims m' = []" and "live (dep_boxes claim_deployment w) = {''alpha''}"
    and "\<exists>s. heap m' 0 = Some s \<and> ready s" and "Get_ready ''alpha'' 0 m' = (Inr 0, m')"
proof -
  obtain p mx where p: "build (d_sv claim_deployment) ''dev'' ''none'' 0 cfg (d_bk claim_deployment) no_objects = Some (p, no_objects)"
    "pc_mgr p = New_Manager (Backend cfg) (EnsureTimeout cfg) (IdleTTL cfg) mx"
    using claim_start by (auto simp: build_def Let_def Reconcile_def simp del: bk_List.simps)
  show thesis by (rule claim_run [OF p(2)]) (rule that [OF p(1)])
qed

lemma example_system_simps [simp]:
  "s_mgr (example_system m w m') = m'" "s_world (example_system m w m') = w" "refreshing (example_system m w m') = {}"
  "failed (example_system m w m') = {}" "pulled (example_system m w m') = {}" "foreign (example_system m w m') = {}" "deleting (example_system m w m') = None"
  by (simp_all add: example_system_def started_def)

theorem no_silent_orphans_witness:
  "\<forall>cfg. \<exists>p S. build (d_sv claim_deployment) ''dev'' ''none'' 0 cfg (d_bk claim_deployment) no_objects = Some (p, no_objects) \<and>
    dep_reach claim_deployment (started (pc_mgr p) no_objects) S \<and> ''alpha'' \<in> live (dep_boxes claim_deployment (s_world S)) \<and>
    sessions (s_mgr S) ''alpha'' \<noteq> None"
proof
  fix cfg
  obtain p w m' where r: "build (d_sv claim_deployment) ''dev'' ''none'' 0 cfg (d_bk claim_deployment) no_objects = Some (p, no_objects)"
    "dep_reach claim_deployment (started (pc_mgr p) no_objects) (example_system (pc_mgr p) w m')"
    "victims m' = []" "live (dep_boxes claim_deployment w) = {''alpha''}" by (rule claim_start_run)
  have "\<exists>ids. bk_List (d_sv claim_deployment) (d_bk claim_deployment) no_objects = Some (Inr ids, no_objects)"
    using claim_start by simp
  from no_silent_orphans [OF claim_deployment_ok r(1) this r(2), of "''alpha''"] r(3,4)
  have "sessions m' ''alpha'' \<noteq> None" by (simp add: pending_def owner_ids_def)
  with r show "\<exists>p S. build (d_sv claim_deployment) ''dev'' ''none'' 0 cfg (d_bk claim_deployment) no_objects = Some (p, no_objects) \<and>
      dep_reach claim_deployment (started (pc_mgr p) no_objects) S \<and> ''alpha'' \<in> live (dep_boxes claim_deployment (s_world S)) \<and>
      sessions (s_mgr S) ''alpha'' \<noteq> None"
    by (intro exI [of _ p] exI [of _ "example_system (pc_mgr p) w m'"]) simp
qed

theorem sessions_have_sandboxes_witness:
  "\<forall>cfg. \<exists>p S. build (d_sv claim_deployment) ''dev'' ''none'' 0 cfg (d_bk claim_deployment) no_objects = Some (p, no_objects) \<and>
    dep_reach claim_deployment (started (pc_mgr p) no_objects) S \<and> Get_ready ''alpha'' 0 (s_mgr S) = (Inr 0, s_mgr S) \<and>
    ''alpha'' \<in> live (dep_boxes claim_deployment (s_world S))"
proof
  fix cfg
  obtain p w m' where r: "build (d_sv claim_deployment) ''dev'' ''none'' 0 cfg (d_bk claim_deployment) no_objects = Some (p, no_objects)"
    "dep_reach claim_deployment (started (pc_mgr p) no_objects) (example_system (pc_mgr p) w m')"
    "sessions m' = [''alpha'' \<mapsto> 0]" "\<exists>s. heap m' 0 = Some s \<and> ready s" "Get_ready ''alpha'' 0 m' = (Inr 0, m')"
    by (rule claim_start_run)
  have "\<exists>ids. bk_List (d_sv claim_deployment) (d_bk claim_deployment) no_objects = Some (Inr ids, no_objects)"
    using claim_start by simp
  from sessions_have_sandboxes [OF claim_deployment_ok r(1) this r(2), of "''alpha''" 0 0 m'] r(3-5)
  have "''alpha'' \<in> live (dep_boxes claim_deployment w)" by simp
  with r show "\<exists>p S. build (d_sv claim_deployment) ''dev'' ''none'' 0 cfg (d_bk claim_deployment) no_objects = Some (p, no_objects) \<and>
      dep_reach claim_deployment (started (pc_mgr p) no_objects) S \<and> Get_ready ''alpha'' 0 (s_mgr S) = (Inr 0, s_mgr S) \<and>
      ''alpha'' \<in> live (dep_boxes claim_deployment (s_world S))"
    by (intro exI [of _ p] exI [of _ "example_system (pc_mgr p) w m'"]) simp
qed

end
