(* ===== verification/Tunnel.thy ===== *)
theory Tunnel
  imports Prelude
begin

text \<open>
  The end of \<open>handleWS\<close> in \<open>internal/proxy/proxy.go\<close> as what it is, three goroutines: two that copy
  bytes, add what they copied to an atomic counter and report on the channel \<open>errc\<close>, and the handler,
  which waits for one report, closes both connections, waits for the other report and then runs the
  deferred accounting.  \<open>Proxy.tunnel\<close> runs the two copies one after the other; the theorems here show
  that their interleaving does not matter to it: whatever the schedule, the accounting sees the final
  totals of both directions, and the handler gets there once one direction has ended.
\<close>

section \<open>State\<close>

text \<open>Where each goroutine is; a copy in progress with the number of bytes it has moved.\<close>

datatype up_pc = Draining nat | Copying nat | UpReport | UpDone
datatype down_pc = DownCopying nat | DownReport | DownDone
datatype main_pc = AwaitFirst | CloseClient | CloseBackend | AwaitSecond | Account | Returned

text \<open>The handler goes through its positions in this order.\<close>

fun main_pos :: "main_pc \<Rightarrow> nat" where
  "main_pos AwaitFirst = 0"
| "main_pos CloseClient = 1"
| "main_pos CloseBackend = 2"
| "main_pos AwaitSecond = 3"
| "main_pos Account = 4"
| "main_pos Returned = 5"

lemma main_pos_inj: "main_pos x = main_pos y \<longleftrightarrow> x = y"
  by (cases x; cases y) simp_all

instantiation main_pc :: linorder
begin

definition less_eq_main_pc :: "main_pc \<Rightarrow> main_pc \<Rightarrow> bool" where
  [simp]: "less_eq_main_pc x y \<longleftrightarrow> main_pos x \<le> main_pos y"

definition less_main_pc :: "main_pc \<Rightarrow> main_pc \<Rightarrow> bool" where
  [simp]: "less_main_pc x y \<longleftrightarrow> main_pos x < main_pos y"

instance
  by standard (auto simp: main_pos_inj)

end

record tun =
  buffered :: nat \<comment> \<open>\<open>brw.Reader.Buffered()\<close> at the start\<close>
  up :: up_pc
  down :: down_pc
  mainpc :: main_pc
  c2b :: nat
  b2c :: nat
  errc :: nat \<comment> \<open>the number of reports in the channel, which has capacity 2\<close>
  clientClosed :: bool
  backendClosed :: bool
  upMoved :: nat \<comment> \<open>bytes that really went to the backend\<close>
  downMoved :: nat \<comment> \<open>bytes that really went to the client\<close>
  accounted :: "(nat \<times> nat) option" \<comment> \<open>the arguments of the two \<open>AddBytes\<close> calls\<close>

definition tun_start :: "nat \<Rightarrow> tun" where
  "tun_start b = \<lparr>buffered = b, up = (if b > 0 then Draining 0 else Copying 0), down = DownCopying 0,
     mainpc = AwaitFirst, c2b = 0, b2c = 0, errc = 0, clientClosed = False, backendClosed = False,
     upMoved = 0, downMoved = 0, accounted = None\<rparr>"

section \<open>Steps\<close>

text \<open>
  Bytes move only while the connections they go between are open; a copy may end at any time (end of
  stream, error, or a closed connection), except that \<open>CopyN\<close> ends without an error only when it has
  moved all bytes.
\<close>

inductive tun_step :: "tun \<Rightarrow> tun \<Rightarrow> bool" where
  drain_move: "up t = Draining n \<Longrightarrow> n < buffered t \<Longrightarrow> \<not> backendClosed t \<Longrightarrow>
    tun_step t (t\<lparr>up := Draining (Suc n), upMoved := upMoved t + 1\<rparr>)"
| drain_done: "up t = Draining n \<Longrightarrow> n = buffered t \<Longrightarrow> tun_step t (t\<lparr>up := Copying 0, c2b := c2b t + n\<rparr>)"
| drain_fail: "up t = Draining n \<Longrightarrow> n < buffered t \<Longrightarrow> tun_step t (t\<lparr>up := UpReport, c2b := c2b t + n\<rparr>)"
| copy_move: "up t = Copying n \<Longrightarrow> \<not> clientClosed t \<Longrightarrow> \<not> backendClosed t \<Longrightarrow>
    tun_step t (t\<lparr>up := Copying (Suc n), upMoved := upMoved t + 1\<rparr>)"
| copy_end: "up t = Copying n \<Longrightarrow> tun_step t (t\<lparr>up := UpReport, c2b := c2b t + n\<rparr>)"
| up_send: "up t = UpReport \<Longrightarrow> errc t < 2 \<Longrightarrow> tun_step t (t\<lparr>up := UpDone, errc := errc t + 1\<rparr>)"
| down_move: "down t = DownCopying n \<Longrightarrow> \<not> clientClosed t \<Longrightarrow>
    tun_step t (t\<lparr>down := DownCopying (Suc n), downMoved := downMoved t + 1\<rparr>)"
| down_end: "down t = DownCopying n \<Longrightarrow> tun_step t (t\<lparr>down := DownReport, b2c := b2c t + n\<rparr>)"
| down_send: "down t = DownReport \<Longrightarrow> errc t < 2 \<Longrightarrow> tun_step t (t\<lparr>down := DownDone, errc := errc t + 1\<rparr>)"
| first: "mainpc t = AwaitFirst \<Longrightarrow> 0 < errc t \<Longrightarrow> tun_step t (t\<lparr>mainpc := CloseClient, errc := errc t - 1\<rparr>)"
| close_client: "mainpc t = CloseClient \<Longrightarrow> tun_step t (t\<lparr>mainpc := CloseBackend, clientClosed := True\<rparr>)"
| close_backend: "mainpc t = CloseBackend \<Longrightarrow> tun_step t (t\<lparr>mainpc := AwaitSecond, backendClosed := True\<rparr>)"
| second: "mainpc t = AwaitSecond \<Longrightarrow> 0 < errc t \<Longrightarrow> tun_step t (t\<lparr>mainpc := Account, errc := errc t - 1\<rparr>)"
| account: "mainpc t = Account \<Longrightarrow> tun_step t (t\<lparr>mainpc := Returned, accounted := Some (c2b t, b2c t)\<rparr>)"

inductive tun_reach :: "nat \<Rightarrow> tun \<Rightarrow> bool" for b :: nat where
  init: "tun_reach b (tun_start b)"
| step: "tun_reach b t \<Longrightarrow> tun_step t t' \<Longrightarrow> tun_reach b t'"

section \<open>The invariant\<close>

text \<open>Reports received by the handler, and bytes moved but not yet added to a counter.\<close>

fun received :: "main_pc \<Rightarrow> nat" where
  "received AwaitFirst = 0"
| "received CloseClient = 1"
| "received CloseBackend = 1"
| "received AwaitSecond = 1"
| "received Account = 2"
| "received Returned = 2"

fun up_pending :: "up_pc \<Rightarrow> nat" where
  "up_pending (Draining n) = n"
| "up_pending (Copying n) = n"
| "up_pending _ = 0"

fun down_pending :: "down_pc \<Rightarrow> nat" where
  "down_pending (DownCopying n) = n"
| "down_pending _ = 0"

definition ended :: "tun \<Rightarrow> nat" where
  "ended t = (if up t = UpDone then 1 else 0) + (if down t = DownDone then 1 else 0)"

definition tun_inv :: "tun \<Rightarrow> bool" where
  "tun_inv t \<longleftrightarrow>
     received (mainpc t) + errc t = ended t \<and>
     c2b t + up_pending (up t) = upMoved t \<and> b2c t + down_pending (down t) = downMoved t \<and>
     (clientClosed t \<longleftrightarrow> CloseClient < mainpc t) \<and>
     (backendClosed t \<longleftrightarrow> CloseBackend < mainpc t) \<and>
     (\<forall>n. up t = Draining n \<longrightarrow> n \<le> buffered t) \<and>
     accounted t = (if mainpc t = Returned then Some (c2b t, b2c t) else None)"

lemma inv_tun_start: "tun_inv (tun_start b)"
  by (simp add: tun_inv_def tun_start_def ended_def)

lemma ended_both: "ended t = 2 \<longleftrightarrow> up t = UpDone \<and> down t = DownDone"
  by (simp add: ended_def)

lemma returned_ended: "tun_inv t \<Longrightarrow> mainpc t = Returned \<Longrightarrow> up t = UpDone \<and> down t = DownDone \<and> errc t = 0"
proof -
  assume "tun_inv t" "mainpc t = Returned"
  then have "2 + errc t = ended t" by (simp add: tun_inv_def)
  moreover have "ended t \<le> 2" by (simp add: ended_def)
  ultimately have "errc t = 0" "ended t = 2" by simp_all
  then show ?thesis using ended_both by blast
qed

lemma inv_tun_step: "tun_step t t' \<Longrightarrow> tun_inv t \<Longrightarrow> tun_inv t'"
proof -
  assume inv: "tun_inv t" and "tun_step t t'"
  have r: "mainpc t = Returned \<Longrightarrow> up t = UpDone \<and> down t = DownDone" using returned_ended [OF inv] by blast
  from \<open>tun_step t t'\<close> inv r show "tun_inv t'"
    by cases (auto simp: tun_inv_def ended_def)
qed

lemma reach_tun_inv: "tun_reach b t \<Longrightarrow> tun_inv t"
  by (induction rule: tun_reach.induct) (auto intro: inv_tun_start inv_tun_step)

section \<open>Theorems\<close>

text \<open>
  C22.  The byte totals of a tunnel are final when they are accounted.  In every schedule of the three
  goroutines, when the handler has returned both copies have ended and reported, the channel is
  empty, and the two totals it passed to \<open>AddBytes\<close> are exactly the bytes that moved in each
  direction, bytes drained from the buffered reader included.
\<close>

theorem tunnel_totals_are_final:
  assumes "tun_reach b t" and "mainpc t = Returned"
  shows "accounted t = Some (upMoved t, downMoved t) \<and> up t = UpDone \<and> down t = DownDone \<and> errc t = 0"
proof -
  note inv = reach_tun_inv [OF assms(1)]
  from returned_ended [OF inv assms(2)] inv assms(2) show ?thesis by (auto simp: tun_inv_def)
qed

text \<open>A bound on the steps left, up to copies over open connections.\<close>

fun up_rank :: "nat \<Rightarrow> up_pc \<Rightarrow> nat" where
  "up_rank b (Draining n) = 3 + (b - n)"
| "up_rank b (Copying _) = 2"
| "up_rank b UpReport = 1"
| "up_rank b UpDone = 0"

fun down_rank :: "down_pc \<Rightarrow> nat" where
  "down_rank (DownCopying _) = 2"
| "down_rank DownReport = 1"
| "down_rank DownDone = 0"

definition rank :: "tun \<Rightarrow> nat" where
  "rank t = up_rank (buffered t) (up t) + down_rank (down t) + (5 - main_pos (mainpc t))"

lemma step_rank:
  assumes "tun_step t t'"
  shows "rank t' < rank t \<or> rank t' = rank t \<and> \<not> clientClosed t \<and>
    upMoved t' + downMoved t' = upMoved t + downMoved t + 1"
  using assms by cases (auto simp: rank_def)

text \<open>
  A step that does not wait for a peer: of the handler, of a goroutine that reports, or of a copy whose
  connections the handler has closed, which \<open>net.Conn\<close> documents to return.
\<close>

definition own_step :: "tun \<Rightarrow> tun \<Rightarrow> bool" where
  "own_step t t' \<longleftrightarrow> tun_step t t' \<and>
     (clientClosed t \<and> backendClosed t \<or> mainpc t' \<noteq> mainpc t \<or> errc t' \<noteq> errc t)"

lemma report_never_blocks:
  "tun_inv t \<Longrightarrow> up t = UpReport \<or> down t = DownReport \<Longrightarrow> errc t < 2"
  by (auto simp: tun_inv_def ended_def split: if_splits)

lemma tun_progress:
  assumes inv: "tun_inv t" and m: "mainpc t \<noteq> Returned"
  shows "\<exists>t'. tun_step t t'"
proof (cases "up t = UpDone \<and> down t = DownDone")
  case True
  with inv have "received (mainpc t) + errc t = 2" by (simp add: tun_inv_def ended_def)
  with m show ?thesis
    by (cases "mainpc t") (force intro: tun_step.first tun_step.close_client tun_step.close_backend
        tun_step.second tun_step.account)+
next
  case False
  consider (drain) n where "up t = Draining n" | (copy) n where "up t = Copying n" | (report) "up t = UpReport"
    | (down) n where "down t = DownCopying n" | (dreport) "down t = DownReport"
    using False by (cases "up t"; cases "down t") auto
  then show ?thesis
  proof cases
    case (drain n)
    then have "n \<le> buffered t" using inv by (simp add: tun_inv_def)
    with drain show ?thesis using tun_step.drain_done tun_step.drain_fail le_neq_implies_less by blast
  qed (use report_never_blocks [OF inv] in \<open>auto intro: tun_step.intros\<close>)
qed

lemma own_progress:
  assumes inv: "tun_inv t" and m: "mainpc t \<noteq> Returned"
    and e: "up t \<in> {UpReport, UpDone} \<or> down t \<in> {DownReport, DownDone}"
  shows "\<exists>t'. own_step t t'"
proof (cases "mainpc t")
  case AwaitFirst
  consider "up t = UpReport" | "down t = DownReport" | "0 < errc t"
    using e inv AwaitFirst by (auto simp: tun_inv_def ended_def split: if_splits)
  then show ?thesis
  proof cases
    case 1
    with report_never_blocks [OF inv] show ?thesis using tun_step.up_send unfolding own_step_def by fastforce
  next
    case 2
    with report_never_blocks [OF inv] show ?thesis using tun_step.down_send unfolding own_step_def by fastforce
  next
    case 3
    with AwaitFirst show ?thesis using tun_step.first unfolding own_step_def by fastforce
  qed
next
  case CloseClient
  then show ?thesis using tun_step.close_client unfolding own_step_def by fastforce
next
  case CloseBackend
  then show ?thesis using tun_step.close_backend unfolding own_step_def by fastforce
next
  case AwaitSecond
  then have "clientClosed t \<and> backendClosed t" using inv by (simp add: tun_inv_def)
  with tun_progress [OF inv m] show ?thesis unfolding own_step_def by blast
next
  case Account
  then show ?thesis using tun_step.account unfolding own_step_def by fastforce
qed (use m in simp)

lemma rank_bound: "tun_reach b t \<Longrightarrow> rank t \<le> 10 + b"
proof (induction rule: tun_reach.induct)
  case init
  show ?case by (simp add: rank_def tun_start_def)
next
  case (step t t')
  with step_rank [OF step(2)] show ?case by auto
qed

text \<open>
  C23.  A tunnel ends once one direction has ended.  From then on, and until the handler has returned, some
  goroutine can take a step that waits for neither peer; a goroutine that reports is never blocked on
  the channel.  Every step either brings the handler closer to its return, by a measure that is at most
  10 plus the buffered bytes, or moves a byte while the client connection is still open; so after the
  handler has closed that connection only boundedly many steps remain, and the last state is its return.
\<close>

theorem tunnel_ends:
  assumes "tun_reach b t"
  shows "(mainpc t \<noteq> Returned \<and> (up t \<in> {UpReport, UpDone} \<or> down t \<in> {DownReport, DownDone}) \<longrightarrow>
       (\<exists>t'. own_step t t')) \<and>
    (up t = UpReport \<or> down t = DownReport \<longrightarrow> errc t < 2) \<and>
    (\<forall>t'. tun_step t t' \<longrightarrow> rank t' < rank t \<or> \<not> clientClosed t \<and> rank t' = rank t \<and>
       upMoved t' + downMoved t' = upMoved t + downMoved t + 1) \<and>
    rank t \<le> 10 + b \<and> (mainpc t = Returned \<longrightarrow> (\<nexists>t'. tun_step t t'))"
proof -
  note inv = reach_tun_inv [OF assms]
  have "\<nexists>t'. tun_step t t'" if "mainpc t = Returned"
    using returned_ended [OF inv that] that by (auto elim: tun_step.cases)
  then show ?thesis
    using own_progress [OF inv] report_never_blocks [OF inv] step_rank [of t] rank_bound [OF assms] by blast
qed

text \<open>
  A schedule for examples: the two buffered bytes are drained, the backend sends one byte and ends, the
  handler closes the client connection and so on until it has returned.
\<close>

definition tun_example :: tun where
  "tun_example = \<lparr>buffered = 2, up = UpDone, down = DownDone, mainpc = Returned, c2b = 2, b2c = 1, errc = 0,
     clientClosed = True, backendClosed = True, upMoved = 2, downMoved = 1, accounted = Some (2, 1)\<rparr>"

lemma tun_reach_via: "tun_reach b t \<Longrightarrow> tun_step t t' \<Longrightarrow> t' = t'' \<Longrightarrow> tun_reach b t''"
  by (metis tun_reach.step)

lemma tun_example_reach: "tun_reach 2 tun_example"
proof -
  let ?t = "\<lambda>u d m c b e cc bc um dm a. \<lparr>buffered = 2, up = u, down = d, mainpc = m, c2b = c, b2c = b, errc = e,
     clientClosed = cc, backendClosed = bc, upMoved = um, downMoved = dm, accounted = a\<rparr>"
  have 0: "tun_reach 2 (?t (Draining 0) (DownCopying 0) AwaitFirst 0 0 0 False False 0 0 None)"
    using tun_reach.init [of 2] by (simp add: tun_start_def)
  have 1: "tun_reach 2 (?t (Draining 1) (DownCopying 0) AwaitFirst 0 0 0 False False 1 0 None)"
    by (rule tun_reach_via [OF 0 tun_step.drain_move]) simp_all
  have 2: "tun_reach 2 (?t (Draining 2) (DownCopying 0) AwaitFirst 0 0 0 False False 2 0 None)"
    by (rule tun_reach_via [OF 1 tun_step.drain_move]) simp_all
  have 3: "tun_reach 2 (?t (Copying 0) (DownCopying 0) AwaitFirst 2 0 0 False False 2 0 None)"
    by (rule tun_reach_via [OF 2 tun_step.drain_done]) simp_all
  have 4: "tun_reach 2 (?t (Copying 0) (DownCopying 1) AwaitFirst 2 0 0 False False 2 1 None)"
    by (rule tun_reach_via [OF 3 tun_step.down_move]) simp_all
  have 5: "tun_reach 2 (?t (Copying 0) DownReport AwaitFirst 2 1 0 False False 2 1 None)"
    by (rule tun_reach_via [OF 4 tun_step.down_end]) simp_all
  have 6: "tun_reach 2 (?t (Copying 0) DownDone AwaitFirst 2 1 1 False False 2 1 None)"
    by (rule tun_reach_via [OF 5 tun_step.down_send]) simp_all
  have 7: "tun_reach 2 (?t (Copying 0) DownDone CloseClient 2 1 0 False False 2 1 None)"
    by (rule tun_reach_via [OF 6 tun_step.first]) simp_all
  have 8: "tun_reach 2 (?t (Copying 0) DownDone CloseBackend 2 1 0 True False 2 1 None)"
    by (rule tun_reach_via [OF 7 tun_step.close_client]) simp_all
  have 9: "tun_reach 2 (?t (Copying 0) DownDone AwaitSecond 2 1 0 True True 2 1 None)"
    by (rule tun_reach_via [OF 8 tun_step.close_backend]) simp_all
  have 10: "tun_reach 2 (?t UpReport DownDone AwaitSecond 2 1 0 True True 2 1 None)"
    by (rule tun_reach_via [OF 9 tun_step.copy_end]) simp_all
  have 11: "tun_reach 2 (?t UpDone DownDone AwaitSecond 2 1 1 True True 2 1 None)"
    by (rule tun_reach_via [OF 10 tun_step.up_send]) simp_all
  have 12: "tun_reach 2 (?t UpDone DownDone Account 2 1 0 True True 2 1 None)"
    by (rule tun_reach_via [OF 11 tun_step.second]) simp_all
  show ?thesis
    by (rule tun_reach_via [OF 12 tun_step.account]) (simp_all add: tun_example_def)
qed

theorem tunnel_totals_are_final_witness: "accounted tun_example = Some (2, 1) \<and> upMoved tun_example = 2"
  using tunnel_totals_are_final [OF tun_example_reach] by (simp add: tun_example_def)

theorem tunnel_ends_witness:
  "(\<nexists>t'. tun_step tun_example t') \<and> rank (tun_start 2) \<le> 12"
  using tunnel_ends [OF tun_reach.init [of 2]] tunnel_ends [OF tun_example_reach] by (simp add: tun_example_def)

end
