(* ===== verification/Grpc.thy ===== *)
theory Grpc
  imports Prelude
begin

text \<open>
  What all services of the generated file \<open>internal/backend/ateapipb/ateapi_grpc.pb.go\<close> share: the body of a
  client stub, the body of a handler, the default implementation, and the interface \<open>grpc_service\<close> of
  a service descriptor.  Messages are a parameter \<open>'m\<close> (their encoding is the protobuf runtime's), the
  server is a parameter \<open>'s\<close>, and so is the connection: \<open>Invoke\<close> is a function that gets the full name
  of the called operation and fills the reply.
\<close>

section \<open>Calls and handlers\<close>

text \<open>\<open>Invoke\<close>: the content of the reply after the call, and the error.\<close>

type_synonym ('w, 'm) invoker = "string \<Rightarrow> 'm \<Rightarrow> ('w, 'm \<times> err option) io"
type_synonym ('w, 'm) rpc = "'m \<Rightarrow> ('w, 'm result) io"
type_synonym ('w, 'm) interceptor = "'m \<Rightarrow> string \<Rightarrow> ('w, 'm) rpc \<Rightarrow> ('w, 'm result) io"
type_synonym ('s, 'w, 'm) handler =
  "'s \<Rightarrow> 'm result \<Rightarrow> ('w, 'm) interceptor option \<Rightarrow> ('w, 'm result) io"

text \<open>The body all client stubs share.\<close>

definition unary_call :: "('w, 'm) invoker \<Rightarrow> string \<Rightarrow> ('w, 'm) rpc" where
  "unary_call cc full inp w =
     (case cc full inp w of
        ((_, Some e), w1) \<Rightarrow> (Inl e, w1)
      | ((out, None), w1) \<Rightarrow> (Inr out, w1))"

text \<open>The body all handlers share; \<open>dec\<close> is the result of decoding the request.\<close>

definition unary_handler ::
  "('w, 'm) rpc \<Rightarrow> string \<Rightarrow> 'm result \<Rightarrow> ('w, 'm) interceptor option \<Rightarrow> ('w, 'm result) io" where
  "unary_handler f full dec ic w =
     (case dec of
        Inl e \<Rightarrow> (Inl e, w)
      | Inr inp \<Rightarrow> (case ic of None \<Rightarrow> f inp w | Some i \<Rightarrow> i inp full f w))"

lemma handler_plain: "(\<lambda>inp. unary_handler f full (Inr inp) None) = f"
  by (simp add: fun_eq_iff unary_handler_def)

text \<open>The body of the operations of the default servers, with \<open>codes.Unimplemented\<close>.\<close>

definition unimplemented :: "string \<Rightarrow> ('w, 'm) rpc" where
  "unimplemented name inp w = (Inl (ErrWrap (''method '' @ name @ '' not implemented'') (ErrStatus 12)), w)"

text \<open>
  The body of the registrations: \<open>embedded\<close> is \<open>None\<close> for a server without \<open>testEmbeddedByValue\<close>, otherwise
  whether its default implementation is a nil pointer, on which that call panics (the value \<open>None\<close>).
\<close>

definition register_service ::
  "(string \<Rightarrow> 's \<Rightarrow> 'w \<Rightarrow> 'w) \<Rightarrow> string \<Rightarrow> bool option \<Rightarrow> 's \<Rightarrow> 'w \<Rightarrow> 'w option" where
  "register_service registrar service embedded srv w =
     (if embedded = Some True then None else Some (registrar service srv w))"

section \<open>Connections\<close>

definition full_name :: "string \<Rightarrow> string \<Rightarrow> string" where
  "full_name service n = ''/'' @ service @ ''/'' @ n"

text \<open>
  How an operation called through a connection relates to the one of the server.  Either the call comes through: it
  returns the reply, or the error as the status that gRPC makes of it (\<open>to_status\<close>; a plain error becomes
  \<open>codes.Unknown\<close>).  Or the transport fails (unavailable, deadline exceeded) with an error of its own, and the operation may
  or may not have run.
\<close>

definition rpc_through :: "(err \<Rightarrow> err) \<Rightarrow> ('w, 'm) rpc \<Rightarrow> ('w, 'm) rpc \<Rightarrow> bool" where
  "rpc_through to_status f g \<longleftrightarrow> (\<forall>inp w. case g inp w of (r, w1) \<Rightarrow>
     f inp w = (map_sum to_status id r, w1) \<or> (\<exists>e. f inp w = (Inl e, w1)) \<or> (\<exists>e. f inp w = (Inl e, w)))"

text \<open>So a reply is always the one of the operation, on the same request.\<close>

lemma rpc_reply: "rpc_through to_status f g \<Longrightarrow> f inp w = (Inr out, w') \<Longrightarrow> g inp w = (Inr out, w')"
  unfolding rpc_through_def by (cases "g inp w"; cases "fst (g inp w)") (fastforce split: prod.splits)+

text \<open>
  The documented behaviour of a connection to a server that registered a descriptor without an
  interceptor: a call of \<open>/service/operation\<close> runs the handler the descriptor has for it on the
  decoded request, unless the transport fails.
\<close>

definition grpc_connected ::
  "(err \<Rightarrow> err) \<Rightarrow> string \<Rightarrow> (string \<times> ('s, 'w, 'm) handler) list \<Rightarrow> 's \<Rightarrow> ('w, 'm) invoker \<Rightarrow> bool" where
  "grpc_connected to_status service methods srv cc \<longleftrightarrow>
     (\<forall>n h. (n, h) \<in> set methods \<longrightarrow>
        rpc_through to_status (unary_call cc (full_name service n)) (\<lambda>inp. h srv (Inr inp) None))"

text \<open>A connection in memory, which looks the handler up by its full name.\<close>

definition loopback ::
  "(err \<Rightarrow> err) \<Rightarrow> string \<Rightarrow> (string \<times> ('s, 'w, 'm) handler) list \<Rightarrow> 's \<Rightarrow> ('w, 'm) invoker" where
  "loopback to_status service methods srv full inp w =
     (case map_of (map (\<lambda>(n, h). (full_name service n, h)) methods) full of
        None \<Rightarrow> ((inp, Some (ErrStatus 12)), w)
      | Some h \<Rightarrow>
          (case h srv (Inr inp) None w of
             (Inl e, w1) \<Rightarrow> ((inp, Some (to_status e)), w1)
           | (Inr out, w1) \<Rightarrow> ((out, None), w1)))"

section \<open>Service descriptors\<close>

text \<open>What a descriptor promises its connections: no operation is listed twice.\<close>

locale grpc_service =
  fixes service :: string and methods :: "(string \<times> ('s, 'w, 'm) handler) list"
  assumes names_distinct: "distinct (map fst methods)"
begin

lemma connected_calls:
  assumes "grpc_connected to_status service methods srv cc"
  shows "list_all (\<lambda>(n, h). rpc_through to_status (unary_call cc (full_name service n)) (\<lambda>inp. h srv (Inr inp) None)) methods"
  using assms unfolding grpc_connected_def list_all_iff by blast

lemma loopback_connected: "grpc_connected to_status service methods srv (loopback to_status service methods srv)"
proof -
  have m: "map_of (map (\<lambda>(n, h). (full_name service n, h)) xs) (full_name service n) = map_of xs n"
    for xs :: "(string \<times> ('s, 'w, 'm) handler) list" and n
    by (induction xs) (auto simp: full_name_def)
  have "unary_call (loopback to_status service methods srv) (full_name service n) inp w =
      (case h srv (Inr inp) None w of (r, w1) \<Rightarrow> (map_sum to_status id r, w1))"
    if "(n, h) \<in> set methods" for n inp w h
  proof -
    have "map_of methods n = Some h" using map_of_is_SomeI [OF names_distinct that] .
    then show ?thesis unfolding loopback_def m unary_call_def by (simp split: sum.split prod.split)
  qed
  then show ?thesis unfolding grpc_connected_def rpc_through_def by (simp split: prod.split)
qed

end

end
