(* ===== verification/Grpc_Control.thy ===== *)
theory Grpc_Control
  imports Grpc
begin

text \<open>
  The Control service of \<open>internal/backend/ateapipb/ateapi_grpc.pb.go\<close>: names, client stubs, server interface
  with its default implementation, handlers and service descriptor.  The theorem says that these
  tables fit together: under the documented behaviour of a gRPC connection to a server with this
  descriptor, every client stub calls the operation of the server that has its name.
\<close>

section \<open>Names\<close>

definition Control_GetActor_FullMethodName :: string where
  "Control_GetActor_FullMethodName = ''/ateapi.Control/GetActor''"

definition Control_CreateActor_FullMethodName :: string where
  "Control_CreateActor_FullMethodName = ''/ateapi.Control/CreateActor''"

definition Control_UpdateActor_FullMethodName :: string where
  "Control_UpdateActor_FullMethodName = ''/ateapi.Control/UpdateActor''"

definition Control_SuspendActor_FullMethodName :: string where
  "Control_SuspendActor_FullMethodName = ''/ateapi.Control/SuspendActor''"

definition Control_PauseActor_FullMethodName :: string where
  "Control_PauseActor_FullMethodName = ''/ateapi.Control/PauseActor''"

definition Control_ResumeActor_FullMethodName :: string where
  "Control_ResumeActor_FullMethodName = ''/ateapi.Control/ResumeActor''"

definition Control_RevertActor_FullMethodName :: string where
  "Control_RevertActor_FullMethodName = ''/ateapi.Control/RevertActor''"

definition Control_DeleteActor_FullMethodName :: string where
  "Control_DeleteActor_FullMethodName = ''/ateapi.Control/DeleteActor''"

definition Control_GetActorEgressPolicy_FullMethodName :: string where
  "Control_GetActorEgressPolicy_FullMethodName = ''/ateapi.Control/GetActorEgressPolicy''"

definition Control_CreateActorEgressPolicy_FullMethodName :: string where
  "Control_CreateActorEgressPolicy_FullMethodName = ''/ateapi.Control/CreateActorEgressPolicy''"

definition Control_UpdateActorEgressPolicy_FullMethodName :: string where
  "Control_UpdateActorEgressPolicy_FullMethodName = ''/ateapi.Control/UpdateActorEgressPolicy''"

definition Control_DeleteActorEgressPolicy_FullMethodName :: string where
  "Control_DeleteActorEgressPolicy_FullMethodName = ''/ateapi.Control/DeleteActorEgressPolicy''"

definition Control_MintActorJwt_FullMethodName :: string where
  "Control_MintActorJwt_FullMethodName = ''/ateapi.Control/MintActorJwt''"

definition Control_MintActorCertificate_FullMethodName :: string where
  "Control_MintActorCertificate_FullMethodName = ''/ateapi.Control/MintActorCertificate''"

definition Control_CreateTag_FullMethodName :: string where
  "Control_CreateTag_FullMethodName = ''/ateapi.Control/CreateTag''"

definition Control_GetTag_FullMethodName :: string where
  "Control_GetTag_FullMethodName = ''/ateapi.Control/GetTag''"

definition Control_ListTags_FullMethodName :: string where
  "Control_ListTags_FullMethodName = ''/ateapi.Control/ListTags''"

definition Control_UpdateTag_FullMethodName :: string where
  "Control_UpdateTag_FullMethodName = ''/ateapi.Control/UpdateTag''"

definition Control_DeleteTag_FullMethodName :: string where
  "Control_DeleteTag_FullMethodName = ''/ateapi.Control/DeleteTag''"

definition Control_ListWorkers_FullMethodName :: string where
  "Control_ListWorkers_FullMethodName = ''/ateapi.Control/ListWorkers''"

definition Control_GetWorker_FullMethodName :: string where
  "Control_GetWorker_FullMethodName = ''/ateapi.Control/GetWorker''"

definition Control_CreateWorker_FullMethodName :: string where
  "Control_CreateWorker_FullMethodName = ''/ateapi.Control/CreateWorker''"

definition Control_UpdateWorker_FullMethodName :: string where
  "Control_UpdateWorker_FullMethodName = ''/ateapi.Control/UpdateWorker''"

definition Control_DeleteWorker_FullMethodName :: string where
  "Control_DeleteWorker_FullMethodName = ''/ateapi.Control/DeleteWorker''"

definition Control_DrainWorker_FullMethodName :: string where
  "Control_DrainWorker_FullMethodName = ''/ateapi.Control/DrainWorker''"

definition Control_MarkWorkerAvailable_FullMethodName :: string where
  "Control_MarkWorkerAvailable_FullMethodName = ''/ateapi.Control/MarkWorkerAvailable''"

definition Control_MarkWorkerUnavailable_FullMethodName :: string where
  "Control_MarkWorkerUnavailable_FullMethodName = ''/ateapi.Control/MarkWorkerUnavailable''"

definition Control_ListWorkerActorAssignments_FullMethodName :: string where
  "Control_ListWorkerActorAssignments_FullMethodName = ''/ateapi.Control/ListWorkerActorAssignments''"

definition Control_ListActors_FullMethodName :: string where
  "Control_ListActors_FullMethodName = ''/ateapi.Control/ListActors''"

definition Control_CreateAtespace_FullMethodName :: string where
  "Control_CreateAtespace_FullMethodName = ''/ateapi.Control/CreateAtespace''"

definition Control_GetAtespace_FullMethodName :: string where
  "Control_GetAtespace_FullMethodName = ''/ateapi.Control/GetAtespace''"

definition Control_ListAtespaces_FullMethodName :: string where
  "Control_ListAtespaces_FullMethodName = ''/ateapi.Control/ListAtespaces''"

definition Control_DeleteAtespace_FullMethodName :: string where
  "Control_DeleteAtespace_FullMethodName = ''/ateapi.Control/DeleteAtespace''"

definition Control_CreateActorTemplate_FullMethodName :: string where
  "Control_CreateActorTemplate_FullMethodName = ''/ateapi.Control/CreateActorTemplate''"

definition Control_GetActorTemplate_FullMethodName :: string where
  "Control_GetActorTemplate_FullMethodName = ''/ateapi.Control/GetActorTemplate''"

definition Control_ListActorTemplates_FullMethodName :: string where
  "Control_ListActorTemplates_FullMethodName = ''/ateapi.Control/ListActorTemplates''"

definition Control_DeleteActorTemplate_FullMethodName :: string where
  "Control_DeleteActorTemplate_FullMethodName = ''/ateapi.Control/DeleteActorTemplate''"

definition Control_GetGlobalAccessPolicy_FullMethodName :: string where
  "Control_GetGlobalAccessPolicy_FullMethodName = ''/ateapi.Control/GetGlobalAccessPolicy''"

definition Control_CreateGlobalAccessPolicy_FullMethodName :: string where
  "Control_CreateGlobalAccessPolicy_FullMethodName = ''/ateapi.Control/CreateGlobalAccessPolicy''"

definition Control_UpdateGlobalAccessPolicy_FullMethodName :: string where
  "Control_UpdateGlobalAccessPolicy_FullMethodName = ''/ateapi.Control/UpdateGlobalAccessPolicy''"

definition Control_GetAtespaceAccessPolicy_FullMethodName :: string where
  "Control_GetAtespaceAccessPolicy_FullMethodName = ''/ateapi.Control/GetAtespaceAccessPolicy''"

definition Control_CreateAtespaceAccessPolicy_FullMethodName :: string where
  "Control_CreateAtespaceAccessPolicy_FullMethodName = ''/ateapi.Control/CreateAtespaceAccessPolicy''"

definition Control_UpdateAtespaceAccessPolicy_FullMethodName :: string where
  "Control_UpdateAtespaceAccessPolicy_FullMethodName = ''/ateapi.Control/UpdateAtespaceAccessPolicy''"

definition Control_DeleteAtespaceAccessPolicy_FullMethodName :: string where
  "Control_DeleteAtespaceAccessPolicy_FullMethodName = ''/ateapi.Control/DeleteAtespaceAccessPolicy''"

lemmas full_names =
  Control_GetActor_FullMethodName_def
  Control_CreateActor_FullMethodName_def
  Control_UpdateActor_FullMethodName_def
  Control_SuspendActor_FullMethodName_def
  Control_PauseActor_FullMethodName_def
  Control_ResumeActor_FullMethodName_def
  Control_RevertActor_FullMethodName_def
  Control_DeleteActor_FullMethodName_def
  Control_GetActorEgressPolicy_FullMethodName_def
  Control_CreateActorEgressPolicy_FullMethodName_def
  Control_UpdateActorEgressPolicy_FullMethodName_def
  Control_DeleteActorEgressPolicy_FullMethodName_def
  Control_MintActorJwt_FullMethodName_def
  Control_MintActorCertificate_FullMethodName_def
  Control_CreateTag_FullMethodName_def
  Control_GetTag_FullMethodName_def
  Control_ListTags_FullMethodName_def
  Control_UpdateTag_FullMethodName_def
  Control_DeleteTag_FullMethodName_def
  Control_ListWorkers_FullMethodName_def
  Control_GetWorker_FullMethodName_def
  Control_CreateWorker_FullMethodName_def
  Control_UpdateWorker_FullMethodName_def
  Control_DeleteWorker_FullMethodName_def
  Control_DrainWorker_FullMethodName_def
  Control_MarkWorkerAvailable_FullMethodName_def
  Control_MarkWorkerUnavailable_FullMethodName_def
  Control_ListWorkerActorAssignments_FullMethodName_def
  Control_ListActors_FullMethodName_def
  Control_CreateAtespace_FullMethodName_def
  Control_GetAtespace_FullMethodName_def
  Control_ListAtespaces_FullMethodName_def
  Control_DeleteAtespace_FullMethodName_def
  Control_CreateActorTemplate_FullMethodName_def
  Control_GetActorTemplate_FullMethodName_def
  Control_ListActorTemplates_FullMethodName_def
  Control_DeleteActorTemplate_FullMethodName_def
  Control_GetGlobalAccessPolicy_FullMethodName_def
  Control_CreateGlobalAccessPolicy_FullMethodName_def
  Control_UpdateGlobalAccessPolicy_FullMethodName_def
  Control_GetAtespaceAccessPolicy_FullMethodName_def
  Control_CreateAtespaceAccessPolicy_FullMethodName_def
  Control_UpdateAtespaceAccessPolicy_FullMethodName_def
  Control_DeleteAtespaceAccessPolicy_FullMethodName_def

section \<open>The server\<close>

record ('w, 'm) ControlServer =
  srv_GetActor :: "('w, 'm) rpc"
  srv_CreateActor :: "('w, 'm) rpc"
  srv_UpdateActor :: "('w, 'm) rpc"
  srv_SuspendActor :: "('w, 'm) rpc"
  srv_PauseActor :: "('w, 'm) rpc"
  srv_ResumeActor :: "('w, 'm) rpc"
  srv_RevertActor :: "('w, 'm) rpc"
  srv_DeleteActor :: "('w, 'm) rpc"
  srv_GetActorEgressPolicy :: "('w, 'm) rpc"
  srv_CreateActorEgressPolicy :: "('w, 'm) rpc"
  srv_UpdateActorEgressPolicy :: "('w, 'm) rpc"
  srv_DeleteActorEgressPolicy :: "('w, 'm) rpc"
  srv_MintActorJwt :: "('w, 'm) rpc"
  srv_MintActorCertificate :: "('w, 'm) rpc"
  srv_CreateTag :: "('w, 'm) rpc"
  srv_GetTag :: "('w, 'm) rpc"
  srv_ListTags :: "('w, 'm) rpc"
  srv_UpdateTag :: "('w, 'm) rpc"
  srv_DeleteTag :: "('w, 'm) rpc"
  srv_ListWorkers :: "('w, 'm) rpc"
  srv_GetWorker :: "('w, 'm) rpc"
  srv_CreateWorker :: "('w, 'm) rpc"
  srv_UpdateWorker :: "('w, 'm) rpc"
  srv_DeleteWorker :: "('w, 'm) rpc"
  srv_DrainWorker :: "('w, 'm) rpc"
  srv_MarkWorkerAvailable :: "('w, 'm) rpc"
  srv_MarkWorkerUnavailable :: "('w, 'm) rpc"
  srv_ListWorkerActorAssignments :: "('w, 'm) rpc"
  srv_ListActors :: "('w, 'm) rpc"
  srv_CreateAtespace :: "('w, 'm) rpc"
  srv_GetAtespace :: "('w, 'm) rpc"
  srv_ListAtespaces :: "('w, 'm) rpc"
  srv_DeleteAtespace :: "('w, 'm) rpc"
  srv_CreateActorTemplate :: "('w, 'm) rpc"
  srv_GetActorTemplate :: "('w, 'm) rpc"
  srv_ListActorTemplates :: "('w, 'm) rpc"
  srv_DeleteActorTemplate :: "('w, 'm) rpc"
  srv_GetGlobalAccessPolicy :: "('w, 'm) rpc"
  srv_CreateGlobalAccessPolicy :: "('w, 'm) rpc"
  srv_UpdateGlobalAccessPolicy :: "('w, 'm) rpc"
  srv_GetAtespaceAccessPolicy :: "('w, 'm) rpc"
  srv_CreateAtespaceAccessPolicy :: "('w, 'm) rpc"
  srv_UpdateAtespaceAccessPolicy :: "('w, 'm) rpc"
  srv_DeleteAtespaceAccessPolicy :: "('w, 'm) rpc"

definition UnimplementedControlServer :: "('w, 'm) ControlServer" where
  "UnimplementedControlServer = \<lparr>srv_GetActor = unimplemented ''GetActor'',
     srv_CreateActor = unimplemented ''CreateActor'',
     srv_UpdateActor = unimplemented ''UpdateActor'',
     srv_SuspendActor = unimplemented ''SuspendActor'',
     srv_PauseActor = unimplemented ''PauseActor'',
     srv_ResumeActor = unimplemented ''ResumeActor'',
     srv_RevertActor = unimplemented ''RevertActor'',
     srv_DeleteActor = unimplemented ''DeleteActor'',
     srv_GetActorEgressPolicy = unimplemented ''GetActorEgressPolicy'',
     srv_CreateActorEgressPolicy = unimplemented ''CreateActorEgressPolicy'',
     srv_UpdateActorEgressPolicy = unimplemented ''UpdateActorEgressPolicy'',
     srv_DeleteActorEgressPolicy = unimplemented ''DeleteActorEgressPolicy'',
     srv_MintActorJwt = unimplemented ''MintActorJwt'',
     srv_MintActorCertificate = unimplemented ''MintActorCertificate'',
     srv_CreateTag = unimplemented ''CreateTag'',
     srv_GetTag = unimplemented ''GetTag'',
     srv_ListTags = unimplemented ''ListTags'',
     srv_UpdateTag = unimplemented ''UpdateTag'',
     srv_DeleteTag = unimplemented ''DeleteTag'',
     srv_ListWorkers = unimplemented ''ListWorkers'',
     srv_GetWorker = unimplemented ''GetWorker'',
     srv_CreateWorker = unimplemented ''CreateWorker'',
     srv_UpdateWorker = unimplemented ''UpdateWorker'',
     srv_DeleteWorker = unimplemented ''DeleteWorker'',
     srv_DrainWorker = unimplemented ''DrainWorker'',
     srv_MarkWorkerAvailable = unimplemented ''MarkWorkerAvailable'',
     srv_MarkWorkerUnavailable = unimplemented ''MarkWorkerUnavailable'',
     srv_ListWorkerActorAssignments = unimplemented ''ListWorkerActorAssignments'',
     srv_ListActors = unimplemented ''ListActors'',
     srv_CreateAtespace = unimplemented ''CreateAtespace'',
     srv_GetAtespace = unimplemented ''GetAtespace'',
     srv_ListAtespaces = unimplemented ''ListAtespaces'',
     srv_DeleteAtespace = unimplemented ''DeleteAtespace'',
     srv_CreateActorTemplate = unimplemented ''CreateActorTemplate'',
     srv_GetActorTemplate = unimplemented ''GetActorTemplate'',
     srv_ListActorTemplates = unimplemented ''ListActorTemplates'',
     srv_DeleteActorTemplate = unimplemented ''DeleteActorTemplate'',
     srv_GetGlobalAccessPolicy = unimplemented ''GetGlobalAccessPolicy'',
     srv_CreateGlobalAccessPolicy = unimplemented ''CreateGlobalAccessPolicy'',
     srv_UpdateGlobalAccessPolicy = unimplemented ''UpdateGlobalAccessPolicy'',
     srv_GetAtespaceAccessPolicy = unimplemented ''GetAtespaceAccessPolicy'',
     srv_CreateAtespaceAccessPolicy = unimplemented ''CreateAtespaceAccessPolicy'',
     srv_UpdateAtespaceAccessPolicy = unimplemented ''UpdateAtespaceAccessPolicy'',
     srv_DeleteAtespaceAccessPolicy = unimplemented ''DeleteAtespaceAccessPolicy''\<rparr>"

section \<open>Client stubs\<close>

definition controlClient_GetActor :: "('w, 'm) invoker \<Rightarrow> ('w, 'm) rpc" where
  "controlClient_GetActor cc = unary_call cc Control_GetActor_FullMethodName"

definition controlClient_CreateActor :: "('w, 'm) invoker \<Rightarrow> ('w, 'm) rpc" where
  "controlClient_CreateActor cc = unary_call cc Control_CreateActor_FullMethodName"

definition controlClient_UpdateActor :: "('w, 'm) invoker \<Rightarrow> ('w, 'm) rpc" where
  "controlClient_UpdateActor cc = unary_call cc Control_UpdateActor_FullMethodName"

definition controlClient_SuspendActor :: "('w, 'm) invoker \<Rightarrow> ('w, 'm) rpc" where
  "controlClient_SuspendActor cc = unary_call cc Control_SuspendActor_FullMethodName"

definition controlClient_PauseActor :: "('w, 'm) invoker \<Rightarrow> ('w, 'm) rpc" where
  "controlClient_PauseActor cc = unary_call cc Control_PauseActor_FullMethodName"

definition controlClient_ResumeActor :: "('w, 'm) invoker \<Rightarrow> ('w, 'm) rpc" where
  "controlClient_ResumeActor cc = unary_call cc Control_ResumeActor_FullMethodName"

definition controlClient_RevertActor :: "('w, 'm) invoker \<Rightarrow> ('w, 'm) rpc" where
  "controlClient_RevertActor cc = unary_call cc Control_RevertActor_FullMethodName"

definition controlClient_DeleteActor :: "('w, 'm) invoker \<Rightarrow> ('w, 'm) rpc" where
  "controlClient_DeleteActor cc = unary_call cc Control_DeleteActor_FullMethodName"

definition controlClient_GetActorEgressPolicy :: "('w, 'm) invoker \<Rightarrow> ('w, 'm) rpc" where
  "controlClient_GetActorEgressPolicy cc = unary_call cc Control_GetActorEgressPolicy_FullMethodName"

definition controlClient_CreateActorEgressPolicy :: "('w, 'm) invoker \<Rightarrow> ('w, 'm) rpc" where
  "controlClient_CreateActorEgressPolicy cc = unary_call cc Control_CreateActorEgressPolicy_FullMethodName"

definition controlClient_UpdateActorEgressPolicy :: "('w, 'm) invoker \<Rightarrow> ('w, 'm) rpc" where
  "controlClient_UpdateActorEgressPolicy cc = unary_call cc Control_UpdateActorEgressPolicy_FullMethodName"

definition controlClient_DeleteActorEgressPolicy :: "('w, 'm) invoker \<Rightarrow> ('w, 'm) rpc" where
  "controlClient_DeleteActorEgressPolicy cc = unary_call cc Control_DeleteActorEgressPolicy_FullMethodName"

definition controlClient_MintActorJwt :: "('w, 'm) invoker \<Rightarrow> ('w, 'm) rpc" where
  "controlClient_MintActorJwt cc = unary_call cc Control_MintActorJwt_FullMethodName"

definition controlClient_MintActorCertificate :: "('w, 'm) invoker \<Rightarrow> ('w, 'm) rpc" where
  "controlClient_MintActorCertificate cc = unary_call cc Control_MintActorCertificate_FullMethodName"

definition controlClient_CreateTag :: "('w, 'm) invoker \<Rightarrow> ('w, 'm) rpc" where
  "controlClient_CreateTag cc = unary_call cc Control_CreateTag_FullMethodName"

definition controlClient_GetTag :: "('w, 'm) invoker \<Rightarrow> ('w, 'm) rpc" where
  "controlClient_GetTag cc = unary_call cc Control_GetTag_FullMethodName"

definition controlClient_ListTags :: "('w, 'm) invoker \<Rightarrow> ('w, 'm) rpc" where
  "controlClient_ListTags cc = unary_call cc Control_ListTags_FullMethodName"

definition controlClient_UpdateTag :: "('w, 'm) invoker \<Rightarrow> ('w, 'm) rpc" where
  "controlClient_UpdateTag cc = unary_call cc Control_UpdateTag_FullMethodName"

definition controlClient_DeleteTag :: "('w, 'm) invoker \<Rightarrow> ('w, 'm) rpc" where
  "controlClient_DeleteTag cc = unary_call cc Control_DeleteTag_FullMethodName"

definition controlClient_ListWorkers :: "('w, 'm) invoker \<Rightarrow> ('w, 'm) rpc" where
  "controlClient_ListWorkers cc = unary_call cc Control_ListWorkers_FullMethodName"

definition controlClient_GetWorker :: "('w, 'm) invoker \<Rightarrow> ('w, 'm) rpc" where
  "controlClient_GetWorker cc = unary_call cc Control_GetWorker_FullMethodName"

definition controlClient_CreateWorker :: "('w, 'm) invoker \<Rightarrow> ('w, 'm) rpc" where
  "controlClient_CreateWorker cc = unary_call cc Control_CreateWorker_FullMethodName"

definition controlClient_UpdateWorker :: "('w, 'm) invoker \<Rightarrow> ('w, 'm) rpc" where
  "controlClient_UpdateWorker cc = unary_call cc Control_UpdateWorker_FullMethodName"

definition controlClient_DeleteWorker :: "('w, 'm) invoker \<Rightarrow> ('w, 'm) rpc" where
  "controlClient_DeleteWorker cc = unary_call cc Control_DeleteWorker_FullMethodName"

definition controlClient_DrainWorker :: "('w, 'm) invoker \<Rightarrow> ('w, 'm) rpc" where
  "controlClient_DrainWorker cc = unary_call cc Control_DrainWorker_FullMethodName"

definition controlClient_MarkWorkerAvailable :: "('w, 'm) invoker \<Rightarrow> ('w, 'm) rpc" where
  "controlClient_MarkWorkerAvailable cc = unary_call cc Control_MarkWorkerAvailable_FullMethodName"

definition controlClient_MarkWorkerUnavailable :: "('w, 'm) invoker \<Rightarrow> ('w, 'm) rpc" where
  "controlClient_MarkWorkerUnavailable cc = unary_call cc Control_MarkWorkerUnavailable_FullMethodName"

definition controlClient_ListWorkerActorAssignments :: "('w, 'm) invoker \<Rightarrow> ('w, 'm) rpc" where
  "controlClient_ListWorkerActorAssignments cc = unary_call cc Control_ListWorkerActorAssignments_FullMethodName"

definition controlClient_ListActors :: "('w, 'm) invoker \<Rightarrow> ('w, 'm) rpc" where
  "controlClient_ListActors cc = unary_call cc Control_ListActors_FullMethodName"

definition controlClient_CreateAtespace :: "('w, 'm) invoker \<Rightarrow> ('w, 'm) rpc" where
  "controlClient_CreateAtespace cc = unary_call cc Control_CreateAtespace_FullMethodName"

definition controlClient_GetAtespace :: "('w, 'm) invoker \<Rightarrow> ('w, 'm) rpc" where
  "controlClient_GetAtespace cc = unary_call cc Control_GetAtespace_FullMethodName"

definition controlClient_ListAtespaces :: "('w, 'm) invoker \<Rightarrow> ('w, 'm) rpc" where
  "controlClient_ListAtespaces cc = unary_call cc Control_ListAtespaces_FullMethodName"

definition controlClient_DeleteAtespace :: "('w, 'm) invoker \<Rightarrow> ('w, 'm) rpc" where
  "controlClient_DeleteAtespace cc = unary_call cc Control_DeleteAtespace_FullMethodName"

definition controlClient_CreateActorTemplate :: "('w, 'm) invoker \<Rightarrow> ('w, 'm) rpc" where
  "controlClient_CreateActorTemplate cc = unary_call cc Control_CreateActorTemplate_FullMethodName"

definition controlClient_GetActorTemplate :: "('w, 'm) invoker \<Rightarrow> ('w, 'm) rpc" where
  "controlClient_GetActorTemplate cc = unary_call cc Control_GetActorTemplate_FullMethodName"

definition controlClient_ListActorTemplates :: "('w, 'm) invoker \<Rightarrow> ('w, 'm) rpc" where
  "controlClient_ListActorTemplates cc = unary_call cc Control_ListActorTemplates_FullMethodName"

definition controlClient_DeleteActorTemplate :: "('w, 'm) invoker \<Rightarrow> ('w, 'm) rpc" where
  "controlClient_DeleteActorTemplate cc = unary_call cc Control_DeleteActorTemplate_FullMethodName"

definition controlClient_GetGlobalAccessPolicy :: "('w, 'm) invoker \<Rightarrow> ('w, 'm) rpc" where
  "controlClient_GetGlobalAccessPolicy cc = unary_call cc Control_GetGlobalAccessPolicy_FullMethodName"

definition controlClient_CreateGlobalAccessPolicy :: "('w, 'm) invoker \<Rightarrow> ('w, 'm) rpc" where
  "controlClient_CreateGlobalAccessPolicy cc = unary_call cc Control_CreateGlobalAccessPolicy_FullMethodName"

definition controlClient_UpdateGlobalAccessPolicy :: "('w, 'm) invoker \<Rightarrow> ('w, 'm) rpc" where
  "controlClient_UpdateGlobalAccessPolicy cc = unary_call cc Control_UpdateGlobalAccessPolicy_FullMethodName"

definition controlClient_GetAtespaceAccessPolicy :: "('w, 'm) invoker \<Rightarrow> ('w, 'm) rpc" where
  "controlClient_GetAtespaceAccessPolicy cc = unary_call cc Control_GetAtespaceAccessPolicy_FullMethodName"

definition controlClient_CreateAtespaceAccessPolicy :: "('w, 'm) invoker \<Rightarrow> ('w, 'm) rpc" where
  "controlClient_CreateAtespaceAccessPolicy cc = unary_call cc Control_CreateAtespaceAccessPolicy_FullMethodName"

definition controlClient_UpdateAtespaceAccessPolicy :: "('w, 'm) invoker \<Rightarrow> ('w, 'm) rpc" where
  "controlClient_UpdateAtespaceAccessPolicy cc = unary_call cc Control_UpdateAtespaceAccessPolicy_FullMethodName"

definition controlClient_DeleteAtespaceAccessPolicy :: "('w, 'm) invoker \<Rightarrow> ('w, 'm) rpc" where
  "controlClient_DeleteAtespaceAccessPolicy cc = unary_call cc Control_DeleteAtespaceAccessPolicy_FullMethodName"

section \<open>Handlers\<close>

definition Control_GetActor_Handler :: "(('w, 'm) ControlServer, 'w, 'm) handler" where
  "Control_GetActor_Handler srv = unary_handler (srv_GetActor srv) Control_GetActor_FullMethodName"

definition Control_CreateActor_Handler :: "(('w, 'm) ControlServer, 'w, 'm) handler" where
  "Control_CreateActor_Handler srv = unary_handler (srv_CreateActor srv) Control_CreateActor_FullMethodName"

definition Control_UpdateActor_Handler :: "(('w, 'm) ControlServer, 'w, 'm) handler" where
  "Control_UpdateActor_Handler srv = unary_handler (srv_UpdateActor srv) Control_UpdateActor_FullMethodName"

definition Control_SuspendActor_Handler :: "(('w, 'm) ControlServer, 'w, 'm) handler" where
  "Control_SuspendActor_Handler srv = unary_handler (srv_SuspendActor srv) Control_SuspendActor_FullMethodName"

definition Control_PauseActor_Handler :: "(('w, 'm) ControlServer, 'w, 'm) handler" where
  "Control_PauseActor_Handler srv = unary_handler (srv_PauseActor srv) Control_PauseActor_FullMethodName"

definition Control_ResumeActor_Handler :: "(('w, 'm) ControlServer, 'w, 'm) handler" where
  "Control_ResumeActor_Handler srv = unary_handler (srv_ResumeActor srv) Control_ResumeActor_FullMethodName"

definition Control_RevertActor_Handler :: "(('w, 'm) ControlServer, 'w, 'm) handler" where
  "Control_RevertActor_Handler srv = unary_handler (srv_RevertActor srv) Control_RevertActor_FullMethodName"

definition Control_DeleteActor_Handler :: "(('w, 'm) ControlServer, 'w, 'm) handler" where
  "Control_DeleteActor_Handler srv = unary_handler (srv_DeleteActor srv) Control_DeleteActor_FullMethodName"

definition Control_GetActorEgressPolicy_Handler :: "(('w, 'm) ControlServer, 'w, 'm) handler" where
  "Control_GetActorEgressPolicy_Handler srv = unary_handler (srv_GetActorEgressPolicy srv) Control_GetActorEgressPolicy_FullMethodName"

definition Control_CreateActorEgressPolicy_Handler :: "(('w, 'm) ControlServer, 'w, 'm) handler" where
  "Control_CreateActorEgressPolicy_Handler srv = unary_handler (srv_CreateActorEgressPolicy srv) Control_CreateActorEgressPolicy_FullMethodName"

definition Control_UpdateActorEgressPolicy_Handler :: "(('w, 'm) ControlServer, 'w, 'm) handler" where
  "Control_UpdateActorEgressPolicy_Handler srv = unary_handler (srv_UpdateActorEgressPolicy srv) Control_UpdateActorEgressPolicy_FullMethodName"

definition Control_DeleteActorEgressPolicy_Handler :: "(('w, 'm) ControlServer, 'w, 'm) handler" where
  "Control_DeleteActorEgressPolicy_Handler srv = unary_handler (srv_DeleteActorEgressPolicy srv) Control_DeleteActorEgressPolicy_FullMethodName"

definition Control_MintActorJwt_Handler :: "(('w, 'm) ControlServer, 'w, 'm) handler" where
  "Control_MintActorJwt_Handler srv = unary_handler (srv_MintActorJwt srv) Control_MintActorJwt_FullMethodName"

definition Control_MintActorCertificate_Handler :: "(('w, 'm) ControlServer, 'w, 'm) handler" where
  "Control_MintActorCertificate_Handler srv = unary_handler (srv_MintActorCertificate srv) Control_MintActorCertificate_FullMethodName"

definition Control_CreateTag_Handler :: "(('w, 'm) ControlServer, 'w, 'm) handler" where
  "Control_CreateTag_Handler srv = unary_handler (srv_CreateTag srv) Control_CreateTag_FullMethodName"

definition Control_GetTag_Handler :: "(('w, 'm) ControlServer, 'w, 'm) handler" where
  "Control_GetTag_Handler srv = unary_handler (srv_GetTag srv) Control_GetTag_FullMethodName"

definition Control_ListTags_Handler :: "(('w, 'm) ControlServer, 'w, 'm) handler" where
  "Control_ListTags_Handler srv = unary_handler (srv_ListTags srv) Control_ListTags_FullMethodName"

definition Control_UpdateTag_Handler :: "(('w, 'm) ControlServer, 'w, 'm) handler" where
  "Control_UpdateTag_Handler srv = unary_handler (srv_UpdateTag srv) Control_UpdateTag_FullMethodName"

definition Control_DeleteTag_Handler :: "(('w, 'm) ControlServer, 'w, 'm) handler" where
  "Control_DeleteTag_Handler srv = unary_handler (srv_DeleteTag srv) Control_DeleteTag_FullMethodName"

definition Control_ListWorkers_Handler :: "(('w, 'm) ControlServer, 'w, 'm) handler" where
  "Control_ListWorkers_Handler srv = unary_handler (srv_ListWorkers srv) Control_ListWorkers_FullMethodName"

definition Control_GetWorker_Handler :: "(('w, 'm) ControlServer, 'w, 'm) handler" where
  "Control_GetWorker_Handler srv = unary_handler (srv_GetWorker srv) Control_GetWorker_FullMethodName"

definition Control_CreateWorker_Handler :: "(('w, 'm) ControlServer, 'w, 'm) handler" where
  "Control_CreateWorker_Handler srv = unary_handler (srv_CreateWorker srv) Control_CreateWorker_FullMethodName"

definition Control_UpdateWorker_Handler :: "(('w, 'm) ControlServer, 'w, 'm) handler" where
  "Control_UpdateWorker_Handler srv = unary_handler (srv_UpdateWorker srv) Control_UpdateWorker_FullMethodName"

definition Control_DeleteWorker_Handler :: "(('w, 'm) ControlServer, 'w, 'm) handler" where
  "Control_DeleteWorker_Handler srv = unary_handler (srv_DeleteWorker srv) Control_DeleteWorker_FullMethodName"

definition Control_DrainWorker_Handler :: "(('w, 'm) ControlServer, 'w, 'm) handler" where
  "Control_DrainWorker_Handler srv = unary_handler (srv_DrainWorker srv) Control_DrainWorker_FullMethodName"

definition Control_MarkWorkerAvailable_Handler :: "(('w, 'm) ControlServer, 'w, 'm) handler" where
  "Control_MarkWorkerAvailable_Handler srv = unary_handler (srv_MarkWorkerAvailable srv) Control_MarkWorkerAvailable_FullMethodName"

definition Control_MarkWorkerUnavailable_Handler :: "(('w, 'm) ControlServer, 'w, 'm) handler" where
  "Control_MarkWorkerUnavailable_Handler srv = unary_handler (srv_MarkWorkerUnavailable srv) Control_MarkWorkerUnavailable_FullMethodName"

definition Control_ListWorkerActorAssignments_Handler :: "(('w, 'm) ControlServer, 'w, 'm) handler" where
  "Control_ListWorkerActorAssignments_Handler srv = unary_handler (srv_ListWorkerActorAssignments srv) Control_ListWorkerActorAssignments_FullMethodName"

definition Control_ListActors_Handler :: "(('w, 'm) ControlServer, 'w, 'm) handler" where
  "Control_ListActors_Handler srv = unary_handler (srv_ListActors srv) Control_ListActors_FullMethodName"

definition Control_CreateAtespace_Handler :: "(('w, 'm) ControlServer, 'w, 'm) handler" where
  "Control_CreateAtespace_Handler srv = unary_handler (srv_CreateAtespace srv) Control_CreateAtespace_FullMethodName"

definition Control_GetAtespace_Handler :: "(('w, 'm) ControlServer, 'w, 'm) handler" where
  "Control_GetAtespace_Handler srv = unary_handler (srv_GetAtespace srv) Control_GetAtespace_FullMethodName"

definition Control_ListAtespaces_Handler :: "(('w, 'm) ControlServer, 'w, 'm) handler" where
  "Control_ListAtespaces_Handler srv = unary_handler (srv_ListAtespaces srv) Control_ListAtespaces_FullMethodName"

definition Control_DeleteAtespace_Handler :: "(('w, 'm) ControlServer, 'w, 'm) handler" where
  "Control_DeleteAtespace_Handler srv = unary_handler (srv_DeleteAtespace srv) Control_DeleteAtespace_FullMethodName"

definition Control_CreateActorTemplate_Handler :: "(('w, 'm) ControlServer, 'w, 'm) handler" where
  "Control_CreateActorTemplate_Handler srv = unary_handler (srv_CreateActorTemplate srv) Control_CreateActorTemplate_FullMethodName"

definition Control_GetActorTemplate_Handler :: "(('w, 'm) ControlServer, 'w, 'm) handler" where
  "Control_GetActorTemplate_Handler srv = unary_handler (srv_GetActorTemplate srv) Control_GetActorTemplate_FullMethodName"

definition Control_ListActorTemplates_Handler :: "(('w, 'm) ControlServer, 'w, 'm) handler" where
  "Control_ListActorTemplates_Handler srv = unary_handler (srv_ListActorTemplates srv) Control_ListActorTemplates_FullMethodName"

definition Control_DeleteActorTemplate_Handler :: "(('w, 'm) ControlServer, 'w, 'm) handler" where
  "Control_DeleteActorTemplate_Handler srv = unary_handler (srv_DeleteActorTemplate srv) Control_DeleteActorTemplate_FullMethodName"

definition Control_GetGlobalAccessPolicy_Handler :: "(('w, 'm) ControlServer, 'w, 'm) handler" where
  "Control_GetGlobalAccessPolicy_Handler srv = unary_handler (srv_GetGlobalAccessPolicy srv) Control_GetGlobalAccessPolicy_FullMethodName"

definition Control_CreateGlobalAccessPolicy_Handler :: "(('w, 'm) ControlServer, 'w, 'm) handler" where
  "Control_CreateGlobalAccessPolicy_Handler srv = unary_handler (srv_CreateGlobalAccessPolicy srv) Control_CreateGlobalAccessPolicy_FullMethodName"

definition Control_UpdateGlobalAccessPolicy_Handler :: "(('w, 'm) ControlServer, 'w, 'm) handler" where
  "Control_UpdateGlobalAccessPolicy_Handler srv = unary_handler (srv_UpdateGlobalAccessPolicy srv) Control_UpdateGlobalAccessPolicy_FullMethodName"

definition Control_GetAtespaceAccessPolicy_Handler :: "(('w, 'm) ControlServer, 'w, 'm) handler" where
  "Control_GetAtespaceAccessPolicy_Handler srv = unary_handler (srv_GetAtespaceAccessPolicy srv) Control_GetAtespaceAccessPolicy_FullMethodName"

definition Control_CreateAtespaceAccessPolicy_Handler :: "(('w, 'm) ControlServer, 'w, 'm) handler" where
  "Control_CreateAtespaceAccessPolicy_Handler srv = unary_handler (srv_CreateAtespaceAccessPolicy srv) Control_CreateAtespaceAccessPolicy_FullMethodName"

definition Control_UpdateAtespaceAccessPolicy_Handler :: "(('w, 'm) ControlServer, 'w, 'm) handler" where
  "Control_UpdateAtespaceAccessPolicy_Handler srv = unary_handler (srv_UpdateAtespaceAccessPolicy srv) Control_UpdateAtespaceAccessPolicy_FullMethodName"

definition Control_DeleteAtespaceAccessPolicy_Handler :: "(('w, 'm) ControlServer, 'w, 'm) handler" where
  "Control_DeleteAtespaceAccessPolicy_Handler srv = unary_handler (srv_DeleteAtespaceAccessPolicy srv) Control_DeleteAtespaceAccessPolicy_FullMethodName"

text \<open>The service descriptor.\<close>

definition Control_ServiceName :: string where
  "Control_ServiceName = ''ateapi.Control''"

definition Control_Methods :: "(string \<times> (('w, 'm) ControlServer, 'w, 'm) handler) list" where
  "Control_Methods =
     [(''GetActor'', Control_GetActor_Handler),
      (''CreateActor'', Control_CreateActor_Handler),
      (''UpdateActor'', Control_UpdateActor_Handler),
      (''SuspendActor'', Control_SuspendActor_Handler),
      (''PauseActor'', Control_PauseActor_Handler),
      (''ResumeActor'', Control_ResumeActor_Handler),
      (''RevertActor'', Control_RevertActor_Handler),
      (''DeleteActor'', Control_DeleteActor_Handler),
      (''GetActorEgressPolicy'', Control_GetActorEgressPolicy_Handler),
      (''CreateActorEgressPolicy'', Control_CreateActorEgressPolicy_Handler),
      (''UpdateActorEgressPolicy'', Control_UpdateActorEgressPolicy_Handler),
      (''DeleteActorEgressPolicy'', Control_DeleteActorEgressPolicy_Handler),
      (''MintActorJwt'', Control_MintActorJwt_Handler),
      (''MintActorCertificate'', Control_MintActorCertificate_Handler),
      (''CreateTag'', Control_CreateTag_Handler),
      (''GetTag'', Control_GetTag_Handler),
      (''ListTags'', Control_ListTags_Handler),
      (''UpdateTag'', Control_UpdateTag_Handler),
      (''DeleteTag'', Control_DeleteTag_Handler),
      (''ListWorkers'', Control_ListWorkers_Handler),
      (''GetWorker'', Control_GetWorker_Handler),
      (''CreateWorker'', Control_CreateWorker_Handler),
      (''UpdateWorker'', Control_UpdateWorker_Handler),
      (''DeleteWorker'', Control_DeleteWorker_Handler),
      (''DrainWorker'', Control_DrainWorker_Handler),
      (''MarkWorkerAvailable'', Control_MarkWorkerAvailable_Handler),
      (''MarkWorkerUnavailable'', Control_MarkWorkerUnavailable_Handler),
      (''ListWorkerActorAssignments'', Control_ListWorkerActorAssignments_Handler),
      (''ListActors'', Control_ListActors_Handler),
      (''CreateAtespace'', Control_CreateAtespace_Handler),
      (''GetAtespace'', Control_GetAtespace_Handler),
      (''ListAtespaces'', Control_ListAtespaces_Handler),
      (''DeleteAtespace'', Control_DeleteAtespace_Handler),
      (''CreateActorTemplate'', Control_CreateActorTemplate_Handler),
      (''GetActorTemplate'', Control_GetActorTemplate_Handler),
      (''ListActorTemplates'', Control_ListActorTemplates_Handler),
      (''DeleteActorTemplate'', Control_DeleteActorTemplate_Handler),
      (''GetGlobalAccessPolicy'', Control_GetGlobalAccessPolicy_Handler),
      (''CreateGlobalAccessPolicy'', Control_CreateGlobalAccessPolicy_Handler),
      (''UpdateGlobalAccessPolicy'', Control_UpdateGlobalAccessPolicy_Handler),
      (''GetAtespaceAccessPolicy'', Control_GetAtespaceAccessPolicy_Handler),
      (''CreateAtespaceAccessPolicy'', Control_CreateAtespaceAccessPolicy_Handler),
      (''UpdateAtespaceAccessPolicy'', Control_UpdateAtespaceAccessPolicy_Handler),
      (''DeleteAtespaceAccessPolicy'', Control_DeleteAtespaceAccessPolicy_Handler)]"

definition RegisterControlServer ::
  "(string \<Rightarrow> ('w, 'm) ControlServer \<Rightarrow> 'x \<Rightarrow> 'x) \<Rightarrow> bool option \<Rightarrow> ('w, 'm) ControlServer \<Rightarrow> 'x \<Rightarrow> 'x option" where
  "RegisterControlServer registrar = register_service registrar Control_ServiceName"

interpretation control_svc: grpc_service Control_ServiceName Control_Methods
  by unfold_locales (simp add: Control_Methods_def)

section \<open>The tables fit together\<close>

text \<open>The operations of the client and of the server, in the order of the interface.\<close>

definition client_operations :: "('w, 'm) invoker \<Rightarrow> ('w, 'm) rpc list" where
  "client_operations cc =
     [controlClient_GetActor cc,
      controlClient_CreateActor cc,
      controlClient_UpdateActor cc,
      controlClient_SuspendActor cc,
      controlClient_PauseActor cc,
      controlClient_ResumeActor cc,
      controlClient_RevertActor cc,
      controlClient_DeleteActor cc,
      controlClient_GetActorEgressPolicy cc,
      controlClient_CreateActorEgressPolicy cc,
      controlClient_UpdateActorEgressPolicy cc,
      controlClient_DeleteActorEgressPolicy cc,
      controlClient_MintActorJwt cc,
      controlClient_MintActorCertificate cc,
      controlClient_CreateTag cc,
      controlClient_GetTag cc,
      controlClient_ListTags cc,
      controlClient_UpdateTag cc,
      controlClient_DeleteTag cc,
      controlClient_ListWorkers cc,
      controlClient_GetWorker cc,
      controlClient_CreateWorker cc,
      controlClient_UpdateWorker cc,
      controlClient_DeleteWorker cc,
      controlClient_DrainWorker cc,
      controlClient_MarkWorkerAvailable cc,
      controlClient_MarkWorkerUnavailable cc,
      controlClient_ListWorkerActorAssignments cc,
      controlClient_ListActors cc,
      controlClient_CreateAtespace cc,
      controlClient_GetAtespace cc,
      controlClient_ListAtespaces cc,
      controlClient_DeleteAtespace cc,
      controlClient_CreateActorTemplate cc,
      controlClient_GetActorTemplate cc,
      controlClient_ListActorTemplates cc,
      controlClient_DeleteActorTemplate cc,
      controlClient_GetGlobalAccessPolicy cc,
      controlClient_CreateGlobalAccessPolicy cc,
      controlClient_UpdateGlobalAccessPolicy cc,
      controlClient_GetAtespaceAccessPolicy cc,
      controlClient_CreateAtespaceAccessPolicy cc,
      controlClient_UpdateAtespaceAccessPolicy cc,
      controlClient_DeleteAtespaceAccessPolicy cc]"

definition server_operations :: "('w, 'm) ControlServer \<Rightarrow> ('w, 'm) rpc list" where
  "server_operations srv =
     [srv_GetActor srv,
      srv_CreateActor srv,
      srv_UpdateActor srv,
      srv_SuspendActor srv,
      srv_PauseActor srv,
      srv_ResumeActor srv,
      srv_RevertActor srv,
      srv_DeleteActor srv,
      srv_GetActorEgressPolicy srv,
      srv_CreateActorEgressPolicy srv,
      srv_UpdateActorEgressPolicy srv,
      srv_DeleteActorEgressPolicy srv,
      srv_MintActorJwt srv,
      srv_MintActorCertificate srv,
      srv_CreateTag srv,
      srv_GetTag srv,
      srv_ListTags srv,
      srv_UpdateTag srv,
      srv_DeleteTag srv,
      srv_ListWorkers srv,
      srv_GetWorker srv,
      srv_CreateWorker srv,
      srv_UpdateWorker srv,
      srv_DeleteWorker srv,
      srv_DrainWorker srv,
      srv_MarkWorkerAvailable srv,
      srv_MarkWorkerUnavailable srv,
      srv_ListWorkerActorAssignments srv,
      srv_ListActors srv,
      srv_CreateAtespace srv,
      srv_GetAtespace srv,
      srv_ListAtespaces srv,
      srv_DeleteAtespace srv,
      srv_CreateActorTemplate srv,
      srv_GetActorTemplate srv,
      srv_ListActorTemplates srv,
      srv_DeleteActorTemplate srv,
      srv_GetGlobalAccessPolicy srv,
      srv_CreateGlobalAccessPolicy srv,
      srv_UpdateGlobalAccessPolicy srv,
      srv_GetAtespaceAccessPolicy srv,
      srv_CreateAtespaceAccessPolicy srv,
      srv_UpdateAtespaceAccessPolicy srv,
      srv_DeleteAtespaceAccessPolicy srv]"

lemmas client_stubs =
  controlClient_GetActor_def
  controlClient_CreateActor_def
  controlClient_UpdateActor_def
  controlClient_SuspendActor_def
  controlClient_PauseActor_def
  controlClient_ResumeActor_def
  controlClient_RevertActor_def
  controlClient_DeleteActor_def
  controlClient_GetActorEgressPolicy_def
  controlClient_CreateActorEgressPolicy_def
  controlClient_UpdateActorEgressPolicy_def
  controlClient_DeleteActorEgressPolicy_def
  controlClient_MintActorJwt_def
  controlClient_MintActorCertificate_def
  controlClient_CreateTag_def
  controlClient_GetTag_def
  controlClient_ListTags_def
  controlClient_UpdateTag_def
  controlClient_DeleteTag_def
  controlClient_ListWorkers_def
  controlClient_GetWorker_def
  controlClient_CreateWorker_def
  controlClient_UpdateWorker_def
  controlClient_DeleteWorker_def
  controlClient_DrainWorker_def
  controlClient_MarkWorkerAvailable_def
  controlClient_MarkWorkerUnavailable_def
  controlClient_ListWorkerActorAssignments_def
  controlClient_ListActors_def
  controlClient_CreateAtespace_def
  controlClient_GetAtespace_def
  controlClient_ListAtespaces_def
  controlClient_DeleteAtespace_def
  controlClient_CreateActorTemplate_def
  controlClient_GetActorTemplate_def
  controlClient_ListActorTemplates_def
  controlClient_DeleteActorTemplate_def
  controlClient_GetGlobalAccessPolicy_def
  controlClient_CreateGlobalAccessPolicy_def
  controlClient_UpdateGlobalAccessPolicy_def
  controlClient_GetAtespaceAccessPolicy_def
  controlClient_CreateAtespaceAccessPolicy_def
  controlClient_UpdateAtespaceAccessPolicy_def
  controlClient_DeleteAtespaceAccessPolicy_def

lemmas handlers =
  Control_GetActor_Handler_def
  Control_CreateActor_Handler_def
  Control_UpdateActor_Handler_def
  Control_SuspendActor_Handler_def
  Control_PauseActor_Handler_def
  Control_ResumeActor_Handler_def
  Control_RevertActor_Handler_def
  Control_DeleteActor_Handler_def
  Control_GetActorEgressPolicy_Handler_def
  Control_CreateActorEgressPolicy_Handler_def
  Control_UpdateActorEgressPolicy_Handler_def
  Control_DeleteActorEgressPolicy_Handler_def
  Control_MintActorJwt_Handler_def
  Control_MintActorCertificate_Handler_def
  Control_CreateTag_Handler_def
  Control_GetTag_Handler_def
  Control_ListTags_Handler_def
  Control_UpdateTag_Handler_def
  Control_DeleteTag_Handler_def
  Control_ListWorkers_Handler_def
  Control_GetWorker_Handler_def
  Control_CreateWorker_Handler_def
  Control_UpdateWorker_Handler_def
  Control_DeleteWorker_Handler_def
  Control_DrainWorker_Handler_def
  Control_MarkWorkerAvailable_Handler_def
  Control_MarkWorkerUnavailable_Handler_def
  Control_ListWorkerActorAssignments_Handler_def
  Control_ListActors_Handler_def
  Control_CreateAtespace_Handler_def
  Control_GetAtespace_Handler_def
  Control_ListAtespaces_Handler_def
  Control_DeleteAtespace_Handler_def
  Control_CreateActorTemplate_Handler_def
  Control_GetActorTemplate_Handler_def
  Control_ListActorTemplates_Handler_def
  Control_DeleteActorTemplate_Handler_def
  Control_GetGlobalAccessPolicy_Handler_def
  Control_CreateGlobalAccessPolicy_Handler_def
  Control_UpdateGlobalAccessPolicy_Handler_def
  Control_GetAtespaceAccessPolicy_Handler_def
  Control_CreateAtespaceAccessPolicy_Handler_def
  Control_UpdateAtespaceAccessPolicy_Handler_def
  Control_DeleteAtespaceAccessPolicy_Handler_def

text \<open>
  The generated tables of the Control service agree: on a connection to a server that registered the
  descriptor, each of the 44 client stubs calls the operation of the same name of the server, so that a reply
  it returns is the reply of that operation.
\<close>

theorem control_stubs_reach_their_operations:
  assumes "grpc_connected to_status Control_ServiceName Control_Methods srv cc"
  shows "list_all2 (rpc_through to_status) (client_operations cc) (server_operations srv)"
  using control_svc.connected_calls [OF assms]
  by (simp add: Control_Methods_def Control_ServiceName_def full_name_def handlers handler_plain
      client_operations_def server_operations_def client_stubs full_names)

end
