(* ===== verification/Grpc_Worker.thy ===== *)
theory Grpc_Worker
  imports Grpc_Control
begin

text \<open>
  The WorkerService of \<open>internal/backend/ateapipb/ateapi_grpc.pb.go\<close>, which the program does not call: its names,
  stubs, handlers and descriptor, which fit together like those of the Control service.
\<close>

section \<open>Names\<close>

definition WorkerService_RegisterWorker_FullMethodName :: string where
  "WorkerService_RegisterWorker_FullMethodName = ''/ateapi.WorkerService/RegisterWorker''"

definition WorkerService_MintAteomActorCertificate_FullMethodName :: string where
  "WorkerService_MintAteomActorCertificate_FullMethodName = ''/ateapi.WorkerService/MintAteomActorCertificate''"

definition WorkerService_MintAteomActorJwt_FullMethodName :: string where
  "WorkerService_MintAteomActorJwt_FullMethodName = ''/ateapi.WorkerService/MintAteomActorJwt''"

definition WorkerService_RequestActorSuspend_FullMethodName :: string where
  "WorkerService_RequestActorSuspend_FullMethodName = ''/ateapi.WorkerService/RequestActorSuspend''"

definition WorkerService_ReportActorSnapshotState_FullMethodName :: string where
  "WorkerService_ReportActorSnapshotState_FullMethodName = ''/ateapi.WorkerService/ReportActorSnapshotState''"

lemmas worker_full_names =
  WorkerService_RegisterWorker_FullMethodName_def
  WorkerService_MintAteomActorCertificate_FullMethodName_def
  WorkerService_MintAteomActorJwt_FullMethodName_def
  WorkerService_RequestActorSuspend_FullMethodName_def
  WorkerService_ReportActorSnapshotState_FullMethodName_def

section \<open>The server\<close>

record ('w, 'm) WorkerServiceServer =
  wsrv_RegisterWorker :: "('w, 'm) rpc"
  wsrv_MintAteomActorCertificate :: "('w, 'm) rpc"
  wsrv_MintAteomActorJwt :: "('w, 'm) rpc"
  wsrv_RequestActorSuspend :: "('w, 'm) rpc"
  wsrv_ReportActorSnapshotState :: "('w, 'm) rpc"

definition UnimplementedWorkerServiceServer :: "('w, 'm) WorkerServiceServer" where
  "UnimplementedWorkerServiceServer = \<lparr>wsrv_RegisterWorker = unimplemented ''RegisterWorker'',
     wsrv_MintAteomActorCertificate = unimplemented ''MintAteomActorCertificate'',
     wsrv_MintAteomActorJwt = unimplemented ''MintAteomActorJwt'',
     wsrv_RequestActorSuspend = unimplemented ''RequestActorSuspend'',
     wsrv_ReportActorSnapshotState = unimplemented ''ReportActorSnapshotState''\<rparr>"

section \<open>Client stubs\<close>

definition workerServiceClient_RegisterWorker :: "('w, 'm) invoker \<Rightarrow> ('w, 'm) rpc" where
  "workerServiceClient_RegisterWorker cc = unary_call cc WorkerService_RegisterWorker_FullMethodName"

definition workerServiceClient_MintAteomActorCertificate :: "('w, 'm) invoker \<Rightarrow> ('w, 'm) rpc" where
  "workerServiceClient_MintAteomActorCertificate cc = unary_call cc WorkerService_MintAteomActorCertificate_FullMethodName"

definition workerServiceClient_MintAteomActorJwt :: "('w, 'm) invoker \<Rightarrow> ('w, 'm) rpc" where
  "workerServiceClient_MintAteomActorJwt cc = unary_call cc WorkerService_MintAteomActorJwt_FullMethodName"

definition workerServiceClient_RequestActorSuspend :: "('w, 'm) invoker \<Rightarrow> ('w, 'm) rpc" where
  "workerServiceClient_RequestActorSuspend cc = unary_call cc WorkerService_RequestActorSuspend_FullMethodName"

definition workerServiceClient_ReportActorSnapshotState :: "('w, 'm) invoker \<Rightarrow> ('w, 'm) rpc" where
  "workerServiceClient_ReportActorSnapshotState cc = unary_call cc WorkerService_ReportActorSnapshotState_FullMethodName"

section \<open>Handlers\<close>

definition WorkerService_RegisterWorker_Handler :: "(('w, 'm) WorkerServiceServer, 'w, 'm) handler" where
  "WorkerService_RegisterWorker_Handler srv = unary_handler (wsrv_RegisterWorker srv) WorkerService_RegisterWorker_FullMethodName"

definition WorkerService_MintAteomActorCertificate_Handler :: "(('w, 'm) WorkerServiceServer, 'w, 'm) handler" where
  "WorkerService_MintAteomActorCertificate_Handler srv = unary_handler (wsrv_MintAteomActorCertificate srv) WorkerService_MintAteomActorCertificate_FullMethodName"

definition WorkerService_MintAteomActorJwt_Handler :: "(('w, 'm) WorkerServiceServer, 'w, 'm) handler" where
  "WorkerService_MintAteomActorJwt_Handler srv = unary_handler (wsrv_MintAteomActorJwt srv) WorkerService_MintAteomActorJwt_FullMethodName"

definition WorkerService_RequestActorSuspend_Handler :: "(('w, 'm) WorkerServiceServer, 'w, 'm) handler" where
  "WorkerService_RequestActorSuspend_Handler srv = unary_handler (wsrv_RequestActorSuspend srv) WorkerService_RequestActorSuspend_FullMethodName"

definition WorkerService_ReportActorSnapshotState_Handler :: "(('w, 'm) WorkerServiceServer, 'w, 'm) handler" where
  "WorkerService_ReportActorSnapshotState_Handler srv = unary_handler (wsrv_ReportActorSnapshotState srv) WorkerService_ReportActorSnapshotState_FullMethodName"

text \<open>The service descriptor.\<close>

definition WorkerService_ServiceName :: string where
  "WorkerService_ServiceName = ''ateapi.WorkerService''"

definition WorkerService_Methods :: "(string \<times> (('w, 'm) WorkerServiceServer, 'w, 'm) handler) list" where
  "WorkerService_Methods =
     [(''RegisterWorker'', WorkerService_RegisterWorker_Handler),
      (''MintAteomActorCertificate'', WorkerService_MintAteomActorCertificate_Handler),
      (''MintAteomActorJwt'', WorkerService_MintAteomActorJwt_Handler),
      (''RequestActorSuspend'', WorkerService_RequestActorSuspend_Handler),
      (''ReportActorSnapshotState'', WorkerService_ReportActorSnapshotState_Handler)]"

definition RegisterWorkerServiceServer ::
  "(string \<Rightarrow> ('w, 'm) WorkerServiceServer \<Rightarrow> 'x \<Rightarrow> 'x) \<Rightarrow> bool option \<Rightarrow> ('w, 'm) WorkerServiceServer \<Rightarrow> 'x \<Rightarrow> 'x option" where
  "RegisterWorkerServiceServer registrar = register_service registrar WorkerService_ServiceName"

interpretation worker_svc: grpc_service WorkerService_ServiceName WorkerService_Methods
  by unfold_locales (simp add: WorkerService_Methods_def)

section \<open>The tables fit together\<close>

text \<open>The operations of the client and of the server, in the order of the interface.\<close>

definition worker_client_operations :: "('w, 'm) invoker \<Rightarrow> ('w, 'm) rpc list" where
  "worker_client_operations cc =
     [workerServiceClient_RegisterWorker cc,
      workerServiceClient_MintAteomActorCertificate cc,
      workerServiceClient_MintAteomActorJwt cc,
      workerServiceClient_RequestActorSuspend cc,
      workerServiceClient_ReportActorSnapshotState cc]"

definition worker_server_operations :: "('w, 'm) WorkerServiceServer \<Rightarrow> ('w, 'm) rpc list" where
  "worker_server_operations srv =
     [wsrv_RegisterWorker srv,
      wsrv_MintAteomActorCertificate srv,
      wsrv_MintAteomActorJwt srv,
      wsrv_RequestActorSuspend srv,
      wsrv_ReportActorSnapshotState srv]"

lemmas worker_client_stubs =
  workerServiceClient_RegisterWorker_def
  workerServiceClient_MintAteomActorCertificate_def
  workerServiceClient_MintAteomActorJwt_def
  workerServiceClient_RequestActorSuspend_def
  workerServiceClient_ReportActorSnapshotState_def

lemmas worker_handlers =
  WorkerService_RegisterWorker_Handler_def
  WorkerService_MintAteomActorCertificate_Handler_def
  WorkerService_MintAteomActorJwt_Handler_def
  WorkerService_RequestActorSuspend_Handler_def
  WorkerService_ReportActorSnapshotState_Handler_def

text \<open>The generated tables of the WorkerService agree as well.\<close>

theorem worker_stubs_reach_their_operations:
  assumes "grpc_connected to_status WorkerService_ServiceName WorkerService_Methods srv cc"
  shows "list_all2 (rpc_through to_status) (worker_client_operations cc) (worker_server_operations srv)"
  using worker_svc.connected_calls [OF assms]
  by (simp add: WorkerService_Methods_def WorkerService_ServiceName_def full_name_def worker_handlers handler_plain
      worker_client_operations_def worker_server_operations_def worker_client_stubs worker_full_names)

end
