(* ===== verification/Spec2Isabelle.thy ===== *)
theory Spec2Isabelle
  imports Live_Routing Orphans Tunnel Grpc_Worker
begin

text \<open>
  Verification of the Playwright proxy (\<open>playwright-k8s-sandbox\<close>).

  The program is a reverse proxy in front of per-client browser sandboxes.  A request arrives from
  some pod; the proxy finds the playwright-id of that pod by its address (\<open>internal/identify\<close>), gets
  or creates the session of that id (\<open>internal/session\<close>), which asks a backend for a sandbox
  (\<open>internal/backend\<close>: SandboxClaim, KARS, isola or substrate), and forwards the HTTP request or the
  WebSocket to it (\<open>internal/proxy\<close>).  A reaper deletes the sandboxes of idle sessions.
  \<open>internal/config\<close> reads the settings, \<open>internal/metrics\<close> counts, and
  \<open>cmd/playwright-proxy/main.go\<close> puts the parts together.

  \<^bold>\<open>How the code is modelled.\<close>  Structs are records, fallible functions return a sum with the error on
  the left (\<open>'a result\<close>), and everything outside the repository (Kubernetes clients, the gRPC
  connection, the network, clocks, other goroutines) is an argument: a function over a world \<open>'w\<close>
  that returns a result and the new world (\<open>('w, 'a) io\<close>).  What is assumed of such arguments is a
  named predicate in the statement of each theorem.  Durations and instants are integers of
  nanoseconds; the connection counter of a session is a 32-bit word.

  \<^bold>\<open>Theories, in the order of import.\<close>

  \<^item> \<open>Prelude\<close>: errors, results, durations, shared lemmas.  \<open>Go_Lib\<close>: the functions of \<open>strings\<close>,
    \<open>strconv\<close> and \<open>net\<close> the program uses.  \<open>Go_Duration\<close>: \<open>time.ParseDuration\<close> (its floating point
    step is the argument \<open>ff\<close>).  \<open>Go_Http\<close>: headers, bodies, and the header rewriting of
    \<open>httputil.ReverseProxy\<close>.  \<open>Sha256\<close>: the hash used for names.
  \<^item> \<open>Metrics\<close> (\<open>metrics.go\<close>): the calls the package makes on the Prometheus client; they never make it
    panic.
  \<^item> \<open>Backend\<close> (\<open>backend.go\<close>): \<open>Endpoint\<close> with its addresses; the locales \<open>endpoint_backend\<close> (what
    \<open>Ensure\<close> promises about its endpoints) and \<open>resource_naming\<close> (distinct ids have distinct
    resources).  Every backend interprets them on its own definitions, except that isola's names
    are not injective, which is a theorem.
  \<^item> \<open>Session\<close> (\<open>session.go\<close>): sessions as heap objects, each critical section of the manager one
    definition, and the step relation \<open>mgr_step\<close> of all goroutines.  \<open>Session_Inv\<close>: the invariant of
    reachable states.  \<open>Session_Get\<close>: one \<open>Ensure\<close> in flight per session, provenance of endpoints,
    what \<open>Get\<close> returns.  \<open>Session_Reap\<close>: what the reaper takes, what the cooldown of \<open>Refresh\<close> bounds, two races.
    \<open>Session_Spec\<close>: the abstract specification, the life of one id as a machine of four phases, and that
    every critical section refines it; well-formedness of the state; that every waiter gets its answer.
  \<^item> \<open>Identify\<close> (\<open>identify.go\<close>): the index against the stream of informer events, \<open>Run\<close>, which waits for the
    informer's store and not for the handlers, \<open>Lookup\<close> with its hundred rounds, the diagnostics.  \<open>Identify_Spec\<close>: the abstract specification, the live pods with the
    watch events their changes cause; the index and \<open>Lookup\<close> refine it, and two theorems show where they part.
  \<^item> \<open>Config\<close> (\<open>config.go\<close>): \<open>FromEnv\<close> with all its errors and exactly what it accepts.
  \<^item> \<open>Kube\<close>: JSON objects, the dynamic client, pollers, and the locale \<open>cr_backend\<close> of the three
    backends that manage custom resources.  \<open>Sandbox_Claim\<close>, \<open>Kars\<close>, \<open>Isola\<close> (\<open>sandboxclaim.go\<close>,
    \<open>karssandbox.go\<close>, \<open>isola.go\<close>): what a successful \<open>Ensure\<close> has seen, what is created, listed and
    deleted.
  \<^item> \<open>Sandbox_Set\<close>: the abstract specification of \<open>Ensure\<close>, \<open>Delete\<close> and \<open>List\<close> as operations on a set of sandboxes,
    some of which are being deleted: a cell per object, which a deletion marks or removes, and which may vanish
    once it is marked.  \<open>Cr_Store\<close>: the API server as a store of objects with the contract of its calls (a
    deletion may leave the object to its finalizers, a failed call may have taken effect), and the locale
    \<open>cr_store\<close>, in which the operations of a backend over it refine \<open>Sandbox_Set\<close>; all three interpret it.
  \<^item> \<open>Ate_Api\<close> (\<open>ateapi.pb.go\<close>): the messages of the control plane.  \<open>Substrate\<close>, \<open>Substrate_Props\<close>
    (\<open>substrate.go\<close>): construction, \<open>Ensure\<close> with its two polling loops, \<open>Delete\<close>, \<open>List\<close>;
    termination, the checks of \<open>Ensure\<close>, at most one resume, egress policies.  \<open>Substrate_Frame\<close>: the
    operations of an id touch no other actor.  \<open>Substrate_Set\<close>: the control plane as a map of actors, of which some
    are in deletion, and the same refinement.  \<open>Grpc\<close>, \<open>Grpc_Control\<close>, \<open>Grpc_Worker\<close>
    (\<open>ateapi_grpc.pb.go\<close>): stubs, handlers and descriptors of the two services, with the locale
    \<open>grpc_service\<close> of a descriptor interpreted on both, and that they agree: a call of a stub runs the handler of
    its name, whose error the connection turns into a status, or fails with an error of the connection.
  \<^item> \<open>Proxy\<close> (\<open>proxy.go\<close>): the request handler.  \<open>Proxy_Routing\<close>: a relation \<open>adv\<close> carried through every
    path (the manager makes critical sections, every request sent is routed for the caller's id).
    \<open>Proxy_Props\<close>: routing, the actor header, retries.  \<open>Proxy_Conns\<close>: connection accounting, the
    differences between the two paths, the status recorder.  \<open>Tunnel\<close>: the three goroutines of a
    WebSocket tunnel as a step relation; their totals are final when they are accounted, and the tunnel
    ends once one direction has ended.
  \<^item> \<open>Server\<close>, \<open>Server_Props\<close> (\<open>main.go\<close> and \<open>ReapLoop\<close>): startup, exit status, what readiness says, the reaper
    goroutine and how soon it deletes an idle session.  \<open>Process_Life\<close>: a round of the reaper against the sandboxes of every backend.
    \<open>Sandbox_Life\<close>: sessions against sandboxes, for every backend: the \<open>Backend\<close> interface as a set of
    sandboxes, restart, and which sandboxes are left without a session.  \<open>Orphans\<close>: the manager and its backend
    as one system of interleaved steps, with the locale \<open>sandbox_service\<close> of what the manager relies on,
    interpreted on the four backends; in every reachable state which sandboxes can be without a session and
    which sessions without a live sandbox; the reaper's rounds, as the code runs them, are runs of that system.  \<open>Live_Routing\<close>: histories of a process
    in which pods come and go and requests are served; a request follows the label of the live pod it comes
    from.  This theory: what a caller's requests can reach, across configuration, session manager, backend and
    handler, from the start of the process on.

  \<^bold>\<open>Loops.\<close>  Loops over data are structural recursion.  The polling loop of \<open>Lookup\<close> has the bound of
  the source, 100 rounds.  The polling loops of the substrate backend and its paging are
  \<open>partial_function (option)\<close>, so that \<open>None\<close> means that the call never returns; that \<open>Ensure\<close>
  does return, given a clock that advances with every pause, is a theorem.  The pollers of the
  Kubernetes backends (\<open>wait.PollUntilContextTimeout\<close>) are arguments.  The delete loop of the reaper
  recurses on the number of its victims.

  \<^bold>\<open>What is not modelled.\<close>  Log output; the values in contexts and their deadlines (a wait that may be
  cut short returns an error of the environment); the internals of the HTTP transport, TLS, gRPC,
  client-go and Prometheus; the headers of informational responses (their statuses are); the link-time
  values of \<open>version\<close> and \<open>commit\<close>, which are arguments of \<open>run\<close>; \<open>ErrNoSession\<close>, which nothing returns; the
  messages of the control plane the program does not mention.  In
  \<open>Proxy.tunnel\<close> the two directions of a tunnel run one after the other, which \<open>Tunnel\<close> justifies; a
  transferred byte count is a natural number there, without the wrap-around of 64 bits.  The contracts of
  \<open>Cr_Store\<close> and \<open>Substrate_Set\<close> let nobody else create or delete sandboxes while one operation of the backend
  runs (objects that are being deleted may vanish at any time); in \<open>Orphans\<close> one call of \<open>Ensure\<close> or \<open>Delete\<close> is one
  step, between the critical sections of the goroutines that make it; in \<open>ReapLoop\<close> the other goroutines run
  between the rounds of the reaper, not during one (in \<open>mgr_step\<close> and \<open>Orphans\<close> they do).  The pods of \<open>Identify_Spec\<close>
  change between requests, not during one, and their events are delivered with the change; the events
  that are still to be handled when the process becomes ready are in \<open>Run\<close> and \<open>Server_Props\<close> only.
\<close>

section \<open>Requests by backend\<close>

context endpoint_backend
begin

text \<open>What a handler sends, with the shape the backend promises for its endpoints.\<close>

lemma requests_shape:
  assumes "others_ok results env" and "logs sent env" and "mgr_reach results (p_mgr st)"
    and "ServeHTTP env rq st = (rep, st')" and "clientIPFromReq rq = Inr ip"
    and "fst (Lookup (lk_env env) ip (p_idx st) (p_w st)) = Some pid"
  shows "\<exists>new. sent (p_w st') = sent (p_w st) @ new \<and>
    (\<forall>q \<in> set new. \<exists>ep. (ep = zero_Endpoint \<or> shape pid ep) \<and> rq_URLHost q \<in> {Addr ep, MCPAddr ep} \<and>
       (rq_Header q ''Ate-Target-Actor'' = [] \<or>
        TargetActor ep \<noteq> [] \<and> rq_Header q ''Ate-Target-Actor'' = [TargetActor ep]))"
proof -
  from ServeHTTP_adv [OF assms] obtain new where
    n: "sent (p_w st') = sent (p_w st) @ new" "list_all (routed results pid) new"
    unfolding adv_def by blast
  have "\<exists>ep. (ep = zero_Endpoint \<or> shape pid ep) \<and> rq_URLHost q \<in> {Addr ep, MCPAddr ep} \<and>
       (rq_Header q ''Ate-Target-Actor'' = [] \<or>
        TargetActor ep \<noteq> [] \<and> rq_Header q ''Ate-Target-Actor'' = [TargetActor ep])"
    if "q \<in> set new" for q
    using n(2) that results_shape [of pid] unfolding list_all_iff routed_def by blast
  with n(1) show ?thesis by blast
qed

end

lemma zero_addr: "Addr zero_Endpoint = '':0''" "MCPAddr zero_Endpoint = '':0''" "TargetActor zero_Endpoint = []"
  by (code_simp, code_simp, simp add: zero_Endpoint_def)

text \<open>
  Isolation of the actors behind a shared router.  With the substrate backend every request the
  proxy sends for a caller goes to the router (or to \<open>:0\<close>, for a session that is not resolved), and
  its routing header is absent or names exactly the actor \<open>pw-\<close> followed by the playwright-id of
  the caller, in the configured atespace.
\<close>

theorem substrate_requests_name_own_actor:
  assumes "others_ok (sub_results senv ctl s) env" and "logs sent env"
    and "mgr_reach (sub_results senv ctl s) (p_mgr st)"
    and "ServeHTTP env rq st = (rep, st')" and "clientIPFromReq rq = Inr ip"
    and "fst (Lookup (lk_env env) ip (p_idx st) (p_w st)) = Some pid"
  shows "\<exists>new. sent (p_w st') = sent (p_w st) @ new \<and>
    (\<forall>q \<in> set new.
       rq_URLHost q \<in> {host_port (atenetRouterHost s) (atenetRouterPort s), '':0''} \<and>
       rq_Header q ''Ate-Target-Actor'' \<in> {[], [actorTemplateNS s @ ''/pw-'' @ pid]})"
proof -
  from sub_ep.requests_shape [OF assms] obtain new where
    n: "sent (p_w st') = sent (p_w st) @ new"
    "\<forall>q \<in> set new. \<exists>ep. (ep = zero_Endpoint \<or> sub_shape s pid ep) \<and> rq_URLHost q \<in> {Addr ep, MCPAddr ep} \<and>
       (rq_Header q ''Ate-Target-Actor'' = [] \<or>
        TargetActor ep \<noteq> [] \<and> rq_Header q ''Ate-Target-Actor'' = [TargetActor ep])" by blast
  have a: "Addr ep = host_port (atenetRouterHost s) (atenetRouterPort s)"
    "MCPAddr ep = host_port (atenetRouterHost s) (atenetRouterPort s)"
    "TargetActor ep = actorTemplateNS s @ ''/pw-'' @ pid" if "sub_shape s pid ep" for ep
    using that by (simp_all add: sub_shape_def Addr_def MCPAddr_def target_actor_def actorID_def)
  have "rq_URLHost q \<in> {host_port (atenetRouterHost s) (atenetRouterPort s), '':0''} \<and>
       rq_Header q ''Ate-Target-Actor'' \<in> {[], [actorTemplateNS s @ ''/pw-'' @ pid]}" if "q \<in> set new" for q
  proof -
    from n(2) that obtain ep where e: "ep = zero_Endpoint \<or> sub_shape s pid ep"
      "rq_URLHost q \<in> {Addr ep, MCPAddr ep}" "rq_Header q ''Ate-Target-Actor'' = [] \<or>
        TargetActor ep \<noteq> [] \<and> rq_Header q ''Ate-Target-Actor'' = [TargetActor ep]" by blast
    from e(1) show ?thesis
    proof
      assume "ep = zero_Endpoint"
      with e(2,3) zero_addr show ?thesis by simp
    next
      assume "sub_shape s pid ep"
      from a [OF this] e(2,3) show ?thesis by simp
    qed
  qed
  with n(1) show ?thesis by blast
qed

definition ens_waiter :: "(string \<Rightarrow> Endpoint) \<Rightarrow> waiter" where
  "ens_waiter f r m = resolve_waiter (case heap m r of Some s \<Rightarrow> f (sID s) | None \<Rightarrow> zero_Endpoint) r m"

lemma ens_waiter_ok:
  assumes "\<And>pid. ens pid (Inr (f pid))"
  shows "waiter_ok ens (ens_waiter f)"
proof -
  have "(mgr_step ens)\<^sup>*\<^sup>* m m' \<and> (x = None \<longrightarrow> (\<exists>s. heap m' r = Some s \<and> ready s))"
    if w: "ens_waiter f r m = (x, m')" for r m x m'
  proof (cases "\<exists>s. heap m r = Some s \<and> \<not> ready s \<and> r \<in> set (resolving m)")
    case True
    then obtain s where s: "heap m r = Some s" "\<not> ready s" "r \<in> set (resolving m)" by blast
    from resolve_effect [OF s(1,2), of 0 0 "Inr (f (sID s))"] obtain m1 where
      res: "resolve r 0 0 (Inr (f (sID s))) m = Some m1" "heap m1 r = Some (publish (Inr (f (sID s))) s)" by auto
    with w s have eq: "x = None" "m' = m1" by (auto simp: ens_waiter_def resolve_waiter_def)
    have "mgr_step ens m m1" using s(3,1) assms [of "sID s"] res(1) by (rule mgr_step.resolved)
    with res(2) show ?thesis by (auto simp: eq)
  next
    case False
    with w show ?thesis by (auto simp: ens_waiter_def resolve_waiter_def split: option.splits if_splits)
  qed
  then show ?thesis unfolding waiter_ok_def by blast
qed

definition sub_demo_ep :: "string \<Rightarrow> Endpoint" where
  "sub_demo_ep pid = \<lparr>Host = ''router'', TargetActor = ''pw/pw-'' @ pid, Port = 80, MCPPort = 0\<rparr>"

lemma sub_results_demo: "sub_results env_demo ctl_demo sub_example pid (Inr (sub_demo_ep pid))"
proof -
  have "sub_Ensure env_demo ctl_demo sub_example pid 0 = Some (Inr (sub_demo_ep pid), 2)"
    by (simp add: sub_Ensure_def sub_getOrCreate_def ensureEgressPolicy_def waitForRunning_def
        waitUpstreamReady_def running_loop.simps upstream_loop.simps demo_defs getter_defs actor_state_def
        probe_ok_def target_actor_def actorID_def sub_demo_ep_def)
  then show ?thesis unfolding sub_results_def by blast
qed

definition sub_world :: "request list proxy_env" where
  "sub_world = (demo_env zero_Endpoint (Inr demo_response))\<lparr>waitFor := (\<lambda>w. ens_waiter sub_demo_ep)\<rparr>"

lemma sub_world_ok:
  "others_ok (sub_results env_demo ctl_demo sub_example) sub_world" "logs id sub_world"
  using ens_waiter_ok [of "sub_results env_demo ctl_demo sub_example" sub_demo_ep] sub_results_demo
    demo_logs [of zero_Endpoint "Inr demo_response"]
  by (simp_all add: others_ok_def sub_world_def demo_env_def logs_def)

lemma sub_world_lookup: "fst (Lookup (lk_env sub_world) ''10.0.0.7'' (p_idx demo_state) (p_w demo_state)) = Some ''alpha''"
  by (simp add: Lookup_def lookupCache_def demo_state_def)

lemma sub_world_serve:
  "ServeHTTP sub_world (demo_request (\<lambda>_. [])) demo_state =
     handleHTTP sub_world (demo_request (\<lambda>_. [])) 0 (demo_ready (sub_demo_ep ''alpha''))"
proof -
  have "ServeHTTP sub_world (demo_request (\<lambda>_. [])) demo_state =
     (if isWebsocketUpgrade (demo_request (\<lambda>_. [])) then handleWS sub_world (demo_request (\<lambda>_. [])) 0 (demo_ready (sub_demo_ep ''alpha''))
      else handleHTTP sub_world (demo_request (\<lambda>_. [])) 0 (demo_ready (sub_demo_ep ''alpha'')))"
    unfolding ServeHTTP_def demo_ip
    by (simp add: lookup_client_def Lookup_def lookupCache_def get_session_def on_session_def
        Get_def Get_enter_def start_session_def New_Manager_def ens_waiter_def resolve_waiter_def resolve_def close_ready_def
        upd_session_def record_success_def Get_ready_def MarkActive_def sub_world_def demo_env_def demo_state_def demo_ready_def)
  with demo_not_ws show ?thesis by (simp only: if_False)
qed

lemma sub_world_sent: "\<exists>q. p_w (snd (ServeHTTP sub_world (demo_request (\<lambda>_. [])) demo_state)) = [q]"
  unfolding sub_world_serve handleHTTP_def demo_ready_endpoint
  by (simp add: mcp_request_def buffer_body_def
      routeRequest_host reverse_proxy_def upgradeType_none routeRequest_other RoundTrip_def call_def count_def
      on_session_def demo_request_def IsPrint_def sub_world_def demo_env_def demo_response_def)
    (simp add: demo_ready_def demo_state_def)

theorem substrate_requests_name_own_actor_witness:
  "\<exists>q. p_w (snd (ServeHTTP sub_world (demo_request (\<lambda>_. [])) demo_state)) = [q] \<and>
     rq_Header q ''Ate-Target-Actor'' \<in> {[], [''pw/pw-alpha'']}"
proof -
  obtain rep st' where s: "ServeHTTP sub_world (demo_request (\<lambda>_. [])) demo_state = (rep, st')" by fastforce
  have ns: "actorTemplateNS sub_example = ''pw''" by (simp add: sub_example_def)
  obtain q where "p_w st' = [q]" using sub_world_sent s by auto
  with substrate_requests_name_own_actor [OF sub_world_ok demo_reach s demo_ip sub_world_lookup] s ns
  show ?thesis by (auto simp: demo_state_def)
qed

section \<open>The other backends\<close>

text \<open>
  Sandboxes that are reached directly never see the routing header.  With the claim backend
  every request of the proxy, whatever the caller put into it, goes without \<open>ate-target-actor\<close> to
  an address with one of the two configured ports (or to \<open>:0\<close>, for a session that is not resolved).
\<close>

lemma claim_requests_carry_no_actor:
  assumes "others_ok (ensure_results (sc_Ensure u dyn poll s)) env" and "logs sent env"
    and "mgr_reach (ensure_results (sc_Ensure u dyn poll s)) (p_mgr st)"
    and "ServeHTTP env rq st = (rep, st')" and "clientIPFromReq rq = Inr ip"
    and "fst (Lookup (lk_env env) ip (p_idx st) (p_w st)) = Some pid"
  shows "\<exists>new. sent (p_w st') = sent (p_w st) @ new \<and>
    (\<forall>q \<in> set new. rq_Header q ''Ate-Target-Actor'' = [] \<and>
       (\<exists>host. rq_URLHost q \<in> {host_port host (sc_port s), host_port host (sc_mcpPort s), '':0''}))"
proof -
  from claim_ep.requests_shape [OF assms] obtain new where
    n: "sent (p_w st') = sent (p_w st) @ new"
    "\<forall>q \<in> set new. \<exists>ep. (ep = zero_Endpoint \<or> claim_shape s pid ep) \<and> rq_URLHost q \<in> {Addr ep, MCPAddr ep} \<and>
       (rq_Header q ''Ate-Target-Actor'' = [] \<or>
        TargetActor ep \<noteq> [] \<and> rq_Header q ''Ate-Target-Actor'' = [TargetActor ep])" by blast
  have "rq_Header q ''Ate-Target-Actor'' = [] \<and>
       (\<exists>host. rq_URLHost q \<in> {host_port host (sc_port s), host_port host (sc_mcpPort s), '':0''})" if "q \<in> set new" for q
    using n(2) that zero_addr by (fastforce simp: claim_shape_def Addr_def MCPAddr_def Let_def)
  with n(1) show ?thesis by blast
qed


section \<open>From the start of the process\<close>

lemma serve_all_reach:
  assumes "others_ok ens env" and "logs sent env"
  shows "mgr_reach ens (p_mgr st) \<Longrightarrow> mgr_reach ens (p_mgr (serve_all env rs st))"
proof (induction rs arbitrary: st)
  case (Cons r rs)
  have "mgr_reach ens (p_mgr (inform (fst r) st))" using Cons.prems by (simp add: inform_def)
  from Cons.IH [OF ServeHTTP_reach [OF assms this, of "snd r"]] show ?case by (cases r) simp
qed simp

lemma select_backend_substrate:
  assumes "select_backend h cfg = Inr (BkSubstrate s)"
  shows "SubstrateActorTemplate cfg = actorTemplateNS s @ ''/'' @ actorTemplateName s"
proof -
  have "NewSubstrateWithOptions h (SubstrateAPIEndpoint cfg) (SubstrateRouterAddr cfg)
            (SubstrateActorTemplate cfg) (SubstrateForceBoot cfg) (SubstrateAllowedHTTPHosts cfg) = Inr s"
    using assms by (auto simp: select_backend_def split: if_splits sum.splits)
  then have "strings_Cut (SubstrateActorTemplate cfg) (CHR ''/'') = (actorTemplateNS s, actorTemplateName s, True)"
    by (auto simp: NewSubstrateWithOptions_def split: if_splits sum.splits option.splits prod.splits)
  from strings_Cut_found [OF this] show ?thesis by simp
qed

text \<open>
  C3.  Isolation of the actors behind a shared router, from the start of the process.  When the
  configuration selects the substrate backend, then after the start and any number of requests and
  informer events, whatever a request sends goes to the router (or to \<open>:0\<close>, for a session that is not
  resolved), and its routing header is absent or names the actor \<open>pw-\<close> followed by the playwright-id
  that \<open>Lookup\<close> returned for the caller's address, in the atespace of the configured template; a caller that
  \<open>Lookup\<close> does not identify has nothing sent.
\<close>

theorem process_isolates_actors:
  assumes "configure ff cenv cl h = Inr (cfg, BkSubstrate s)"
    and "build sv version commit now cfg (BkSubstrate s) w = Some (p, w1)"
    and "others_ok (sub_results (sv_env sv) (sv_ctl sv) s) env" and "logs sent env"
    and "ServeHTTP env rq (inform evs (serve_all env rs (data_handler p w2))) = (rep, st')"
  shows "\<exists>atespace name. SubstrateActorTemplate cfg = atespace @ ''/'' @ name \<and>
    (\<exists>new. sent (p_w st') = sent (p_w (serve_all env rs (data_handler p w2))) @ new \<and>
     (\<forall>q \<in> set new. \<exists>ip pid. clientIPFromReq rq = Inr ip \<and>
        fst (Lookup (lk_env env) ip (p_idx (inform evs (serve_all env rs (data_handler p w2))))
          (p_w (serve_all env rs (data_handler p w2)))) = Some pid \<and>
        rq_URLHost q \<in> {host_port (atenetRouterHost s) (atenetRouterPort s), '':0''} \<and>
        rq_Header q ''Ate-Target-Actor'' \<in> {[], [atespace @ ''/pw-'' @ pid]}))"
proof (rule exI [of _ "actorTemplateNS s"], rule exI [of _ "actorTemplateName s"], rule conjI)
  let ?st = "inform evs (serve_all env rs (data_handler p w2))"
  show "SubstrateActorTemplate cfg = actorTemplateNS s @ ''/'' @ actorTemplateName s"
    using assms(1) by (intro select_backend_substrate) (auto simp: configure_def split: sum.splits option.splits)
  have r: "mgr_reach (sub_results (sv_env sv) (sv_ctl sv) s) (p_mgr ?st)"
    using serve_all_reach [OF assms(3,4)] build_reach [OF assms(2)]
    by (simp add: inform_def data_handler_def New_Handler_def)
  have w: "p_w ?st = p_w (serve_all env rs (data_handler p w2))" by (simp add: inform_def)
  show "\<exists>new. sent (p_w st') = sent (p_w (serve_all env rs (data_handler p w2))) @ new \<and>
     (\<forall>q \<in> set new. \<exists>ip pid. clientIPFromReq rq = Inr ip \<and>
        fst (Lookup (lk_env env) ip (p_idx (inform evs (serve_all env rs (data_handler p w2))))
          (p_w (serve_all env rs (data_handler p w2)))) = Some pid \<and>
        rq_URLHost q \<in> {host_port (atenetRouterHost s) (atenetRouterPort s), '':0''} \<and>
        rq_Header q ''Ate-Target-Actor'' \<in> {[], [actorTemplateNS s @ ''/pw-'' @ pid]})"
  proof (cases "\<exists>ip pid. clientIPFromReq rq = Inr ip \<and> fst (Lookup (lk_env env) ip (p_idx ?st) (p_w ?st)) = Some pid")
    case True
    then obtain ip pid where i: "clientIPFromReq rq = Inr ip"
      "fst (Lookup (lk_env env) ip (p_idx ?st) (p_w ?st)) = Some pid" by blast
    from substrate_requests_name_own_actor [OF assms(3,4) r assms(5) i] i show ?thesis unfolding w by blast
  next
    case False
    then have "sent (p_w st') = sent (p_w ?st)" using ServeHTTP_rejected [OF assms(4,3,5)] by blast
    then show ?thesis by (intro exI [of _ "[]"]) (simp add: w)
  qed
qed

definition host_without_token :: sub_host where
  "host_without_token = host_example\<lparr>os_Stat := (\<lambda>_. Some ErrCanceled), os_IsNotExist := (\<lambda>_. True)\<rparr>"

lemma configure_demo:
  "\<exists>cfg. configure ff (env_substrate ''pw/browser'' []) in_cluster host_without_token = Inr (cfg, BkSubstrate sub_example) \<and>
     SubstrateActorTemplate cfg = ''pw/browser'' \<and> LabelKey cfg = ''playwright-id''"
proof -
  have cut: "strings_Cut ''router:80'' (CHR '':'') = (''router'', ''80'', True)"
    "strings_Cut ''pw/browser'' (CHR ''/'') = (''pw'', ''browser'', True)" "\<not> strings_Contains ''browser'' ''/''" "strconv_Atoi ''80'' = Inr 80"
    by (simp_all add: strings_Cut_def strings_Contains_char strconv_Atoi_def is_digit_def digit_val_def)
  obtain cfg where c: "FromEnv ff (env_substrate ''pw/browser'' []) = Inr cfg" "Backend cfg = ''substrate''"
    "SubstrateActorTemplate cfg = ''pw/browser''" "\<not> SubstrateForceBoot cfg" "SubstrateAPIEndpoint cfg = ''api:443''"
    "SubstrateRouterAddr cfg = ''router:80''" "SubstrateAllowedHTTPHosts cfg = []" "LabelKey cfg = ''playwright-id''"
    using FromEnv_substrate [of "''pw/browser''" ff "[]"] by auto
  then have "select_backend host_without_token cfg = Inr (BkSubstrate sub_example)"
    by (simp add: select_backend_def NewSubstrateWithOptions_def cut token_option_def host_without_token_def host_example_def
        sub_example_def)
  with c show ?thesis by (simp add: configure_def in_cluster_def)
qed

lemma sub_world_alpha:
  "map_option sID (heap m 0) = Some ''alpha'' \<Longrightarrow> waitFor sub_world w 0 m = resolve_waiter (sub_demo_ep ''alpha'') 0 m"
  by (auto simp: sub_world_def ens_waiter_def)

theorem process_isolates_actors_witness:
  "\<exists>cfg p w1 q. configure (\<lambda>_ _ _. 0) (env_substrate ''pw/browser'' []) in_cluster host_without_token =
       Inr (cfg, BkSubstrate sub_example) \<and>
     build demo_services ''dev'' ''none'' 0 cfg (BkSubstrate sub_example) 0 = Some (p, w1) \<and>
     p_w (snd (ServeHTTP sub_world (demo_request (\<lambda>_. [])) (inform [AddEv (PodObj alpha_pod)] (data_handler p [])))) = [q] \<and>
     (\<exists>ip pid. fst (Lookup (lk_env sub_world) ip (p_idx (inform [AddEv (PodObj alpha_pod)] (data_handler p ([] :: request list)))) []) = Some pid \<and>
        rq_Header q ''Ate-Target-Actor'' \<in> {[], [''pw/pw-'' @ pid]})"
proof -
  obtain cfg where c: "configure (\<lambda>_ _ _. 0) (env_substrate ''pw/browser'' []) in_cluster host_without_token =
      Inr (cfg, BkSubstrate sub_example)" "SubstrateActorTemplate cfg = ''pw/browser''" "LabelKey cfg = ''playwright-id''"
    using configure_demo by blast
  obtain p w1 bk et ttl mx mx' where b: "build demo_services ''dev'' ''none'' 0 cfg (BkSubstrate sub_example) 0 = Some (p, w1)"
    "pc_mgr p = snd (start_session ''alpha'' 0 0 (New_Manager bk et ttl mx))"
    "pc_idx p = New_Index (LabelKey cfg) True (Namespace cfg) mx'"
    using build_demo_parts by blast
  let ?evs = "[AddEv (PodObj alpha_pod)]" and ?st = "data_handler p [] :: request list pst" and ?rq = "demo_request (\<lambda>_. [])"
  obtain rep st' where s: "ServeHTTP sub_world ?rq (inform ?evs (serve_all sub_world [] ?st)) = (rep, st')" by fastforce
  have idx: "pc_idx p = New_Index ''playwright-id'' True (Namespace cfg) mx'" using b(3) c(3) by simp
  have "\<exists>q. p_w (snd (ServeHTTP sub_world ?rq (inform ?evs ?st))) = [q]"
    by (rule first_request_after_start [OF b(2) idx _ _ _ _ _ sub_world_alpha]) (simp_all add: sub_world_def demo_env_def demo_lookup_def)
  then obtain q where q: "p_w st' = [q]" using s by auto
  have ok: "others_ok (sub_results (sv_env demo_services) (sv_ctl demo_services) sub_example) sub_world"
    using sub_world_ok(1) by (simp add: demo_services_def)
  have e: "p_w ?st = []" by (simp add: data_handler_def New_Handler_def)
  from process_isolates_actors [OF c(1) b(1) ok sub_world_ok(2) s] obtain a n new where
    t: "SubstrateActorTemplate cfg = a @ ''/'' @ n" "id (p_w st') = id (p_w (serve_all sub_world [] ?st)) @ new"
    "\<forall>q \<in> set new. \<exists>ip pid. clientIPFromReq ?rq = Inr ip \<and>
       fst (Lookup (lk_env sub_world) ip (p_idx (inform ?evs (serve_all sub_world [] ?st))) (p_w (serve_all sub_world [] ?st))) = Some pid \<and>
       rq_URLHost q \<in> {host_port (atenetRouterHost sub_example) (atenetRouterPort sub_example), '':0''} \<and>
       rq_Header q ''Ate-Target-Actor'' \<in> {[], [a @ ''/pw-'' @ pid]}" by blast
  have "a = ''pw''" using t(1) c(2) by (auto simp: Cons_eq_append_conv)
  moreover have "new = [q]" using t(2) q e by simp
  ultimately have h: "\<exists>ip pid. fst (Lookup (lk_env sub_world) ip (p_idx (inform ?evs ?st)) []) = Some pid \<and>
        rq_Header q ''Ate-Target-Actor'' \<in> {[], [''pw/pw-'' @ pid]}"
    using t(3) e by auto
  have "p_w (snd (ServeHTTP sub_world ?rq (inform ?evs ?st))) = [q]" using s q by simp
  with c(1) b(1) h show ?thesis
    by (intro exI [of _ cfg] exI [of _ p] exI [of _ w1] exI [of _ q] conjI)
qed

end
